(* ===== verification/Kernel_Prelude.thy ===== *)
theory Kernel_Prelude
  imports Main "HOL-Library.Word"
begin

text \<open>
  Shared vocabulary of the development: the machine types of the x86-64 build, the error
  numbers, the layout of C structs as little-endian bytes, user memory and the primitives
  that cross the user/kernel boundary, and the generic lemmas that the components use.

  The primitives \<open>copy_to_user\<close>, \<open>copy_from_user\<close> and \<open>put_user\<close> are not part of the
  repository. They are the fields of the record \<open>uaccess\<close>, an argument of every definition
  that uses them; \<open>uaccess_ok\<close> states their documented behaviour and is the hypothesis of
  the theorems that rely on it.
\<close>

unbundle bit_operations_syntax

named_theorems layout_simps \<open>lengths and projections of encoded structs\<close>
named_theorems uaccess_simps \<open>consequences of a successful user access\<close>

section \<open>Machine types and constants\<close>

type_synonym u8 = "8 word"
type_synonym u16 = "16 word"
type_synonym u32 = "32 word"
type_synonym u64 = "64 word"
type_synonym addr = u64
type_synonym umem = "addr \<Rightarrow> u8"

text \<open>
  Return codes are C \<open>int\<close> or \<open>long\<close> values, written as HOL integers: an error \<open>E\<close> is
  returned as \<open>- E\<close>. The numbers are those of the Linux user interface.
\<close>

abbreviation EPERM :: int where "EPERM \<equiv> 1"
abbreviation ESRCH :: int where "ESRCH \<equiv> 3"
abbreviation EINTR :: int where "EINTR \<equiv> 4"
abbreviation EBADF :: int where "EBADF \<equiv> 9"
abbreviation EAGAIN :: int where "EAGAIN \<equiv> 11"
abbreviation ENOMEM :: int where "ENOMEM \<equiv> 12"
abbreviation EACCES :: int where "EACCES \<equiv> 13"
abbreviation EFAULT :: int where "EFAULT \<equiv> 14"
abbreviation EINVAL :: int where "EINVAL \<equiv> 22"
abbreviation ESPIPE :: int where "ESPIPE \<equiv> 29"
abbreviation ENOSYS :: int where "ENOSYS \<equiv> 38"
abbreviation EOVERFLOW :: int where "EOVERFLOW \<equiv> 75"

text \<open>Page geometry of x86-64.\<close>

abbreviation PAGE_SHIFT :: nat where "PAGE_SHIFT \<equiv> 12"
abbreviation PAGE_SIZE :: u64 where "PAGE_SIZE \<equiv> 4096"

text \<open>The null pointer.\<close>

abbreviation (input) NULL :: addr where "NULL \<equiv> 0"

text \<open>
  Macros of the kernel headers. \<open>PAGE_ALIGN\<close> rounds up to a page boundary, in unsigned
  64-bit arithmetic. A pointer-valued result carries an error when it lies in the last 4095
  addresses (\<open>IS_ERR\<close>); \<open>PTR_ERR\<close> reads the pointer as a signed \<open>long\<close>.
\<close>

definition PAGE_ALIGN :: "u64 \<Rightarrow> u64" where
  "PAGE_ALIGN x = (x + (PAGE_SIZE - 1)) AND NOT (PAGE_SIZE - 1)"

definition IS_ERR :: "addr \<Rightarrow> bool" where
  "IS_ERR p \<longleftrightarrow> - 4095 \<le> p"

definition PTR_ERR :: "addr \<Rightarrow> int" where
  "PTR_ERR p = sint p"

section \<open>Structs as bytes\<close>

text \<open>Integers are stored least significant byte first.\<close>

definition le_bytes :: "'a::len word \<Rightarrow> u8 list" where
  "le_bytes w = map (\<lambda>i. ucast (drop_bit (8 * i) w)) [0..<LENGTH('a) div 8]"

fun le_word :: "u8 list \<Rightarrow> 'a::len word" where
  "le_word [] = 0"
| "le_word (b # bs) = ucast b OR push_bit 8 (le_word bs)"

lemma length_le_bytes [simp]: "length (le_bytes (w :: 'a::len word)) = LENGTH('a) div 8"
  by (simp add: le_bytes_def)

lemma bit_le_word:
  "bit (le_word bs :: 'a::len word) n \<longleftrightarrow>
     n < LENGTH('a) \<and> n < 8 * length bs \<and> bit (bs ! (n div 8)) (n mod 8)"
proof (induction bs arbitrary: n)
  case Nil
  then show ?case by simp
next
  case (Cons b bs)
  show ?case
  proof (cases "n < 8")
    case True
    then show ?thesis
      by (auto simp: bit_or_iff bit_ucast_iff bit_push_bit_iff dest: bit_imp_le_length)
  next
    case False
    then obtain k where k: "n = 8 + k"
      by (metis le_Suc_ex not_less)
    have "(8 + k) div 8 = Suc (k div 8)" by simp
    moreover have "\<not> bit b n"
      using False bit_imp_le_length[of b n] by auto
    ultimately show ?thesis
      by (auto simp: k bit_or_iff bit_ucast_iff bit_push_bit_iff Cons.IH dest: bit_imp_le_length)
  qed
qed

lemma le_word_le_bytes [simp]:
  assumes "LENGTH('a) mod 8 = 0"
  shows "le_word (le_bytes (w :: 'a::len word)) = w"
proof (rule bit_eqI)
  fix n
  assume "possible_bit TYPE('a word) n"
  then have n: "n < LENGTH('a)" by simp
  from assms have len: "8 * (LENGTH('a) div 8) = LENGTH('a)"
    by (metis add_0_right mult_div_mod_eq)
  have idx: "n div 8 < LENGTH('a) div 8"
    using n len by (metis less_mult_imp_div_less mult.commute)
  have bits: "bit (le_bytes w ! (n div 8)) (n mod 8) \<longleftrightarrow> bit w n"
    using idx by (simp add: le_bytes_def bit_ucast_iff bit_drop_bit_eq)
  show "bit (le_word (le_bytes w) :: 'a word) n \<longleftrightarrow> bit w n"
    using n len bits by (simp add: bit_le_word)
qed

text \<open>A field of a struct at a byte offset.\<close>

definition field :: "nat \<Rightarrow> nat \<Rightarrow> u8 list \<Rightarrow> u8 list" where
  "field off n bs = take n (drop off bs)"

lemma field_append_left [layout_simps]:
  "off + n \<le> length xs \<Longrightarrow> field off n (xs @ ys) = field off n xs"
  by (simp add: field_def)

lemma field_append_right [layout_simps]:
  "length xs \<le> off \<Longrightarrow> field off n (xs @ ys) = field (off - length xs) n ys"
  by (simp add: field_def)

lemma field_all [layout_simps]: "length xs = n \<Longrightarrow> field 0 n xs = xs"
  by (simp add: field_def)

section \<open>User memory\<close>

definition mem_write :: "umem \<Rightarrow> addr \<Rightarrow> u8 list \<Rightarrow> umem" where
  "mem_write m a bs = (\<lambda>x. if unat (x - a) < length bs then bs ! unat (x - a) else m x)"

definition mem_read :: "umem \<Rightarrow> addr \<Rightarrow> nat \<Rightarrow> u8 list" where
  "mem_read m a n = map (\<lambda>i. m (a + of_nat i)) [0..<n]"

text \<open>The addresses of the \<open>n\<close> bytes at \<open>a\<close>.\<close>

definition span :: "addr \<Rightarrow> nat \<Rightarrow> addr set" where
  "span a n = {x. unat (x - a) < n}"

lemma span_iff: "unat a + n \<le> 18446744073709551616 \<Longrightarrow> x \<in> span a n \<longleftrightarrow> unat a \<le> unat x \<and> unat x < unat a + n"
  using unsigned_less[of x, where 'a = nat] unsigned_less[of a, where 'a = nat]
  by (auto simp: span_def unat_sub_if')

lemma span_disjoint:
  "unat a + n \<le> unat b \<Longrightarrow> unat b + k \<le> 18446744073709551616 \<Longrightarrow> span a n \<inter> span b k = {}"
  by (auto simp: span_iff)

lemma unat_of_nat_64: "i < 2 ^ 64 \<Longrightarrow> unat (of_nat i :: u64) = i"
  by (simp add: unat_of_nat take_bit_nat_eq_self)

lemma length_mem_read [simp]: "length (mem_read m a n) = n"
  by (simp add: mem_read_def)

lemma mem_read_write [simp]:
  assumes "n = length bs" and "length bs \<le> 2 ^ 64"
  shows "mem_read (mem_write m a bs) a n = bs"
proof (rule nth_equalityI)
  fix i
  assume "i < length (mem_read (mem_write m a bs) a n)"
  with assms have i: "i < length bs" "i < 2 ^ 64" by auto
  then have "unat ((a + of_nat i) - a) = i"
    by (simp add: unat_of_nat_64)
  with i assms(1) show "mem_read (mem_write m a bs) a n ! i = bs ! i"
    by (simp add: mem_read_def mem_write_def)
qed (use assms in simp)

lemma mem_write_outside: "x \<notin> span a (length bs) \<Longrightarrow> mem_write m a bs x = m x"
  by (simp add: mem_write_def span_def)

lemma mem_read_cong:
  assumes "\<And>x. x \<in> span a n \<Longrightarrow> m x = m' x" and "n \<le> 2 ^ 64"
  shows "mem_read m a n = mem_read m' a n"
proof -
  have "a + of_nat i \<in> span a n" if "i < n" for i
    using that assms(2) by (simp add: span_def unat_of_nat_64)
  then show ?thesis
    using assms(1) by (simp add: mem_read_def)
qed

lemma mem_read_write_disjoint:
  assumes "span a n \<inter> span b (length bs) = {}" and "n \<le> 2 ^ 64"
  shows "mem_read (mem_write m b bs) a n = mem_read m a n"
  using assms by (intro mem_read_cong) (auto intro: mem_write_outside)

section \<open>Faults\<close>

text \<open>What C leaves undefined is a value of its own: an access outside an array.\<close>

datatype kfault = OutOfBounds int

section \<open>Crossing the user/kernel boundary\<close>

text \<open>
  \<^item> \<open>copy_to_user ua m a bs\<close> copies the kernel bytes \<open>bs\<close> to user address \<open>a\<close>: the new user
    memory and the number of bytes that could not be copied.
  \<^item> \<open>copy_from_user ua m a n\<close> reads \<open>n\<close> bytes at \<open>a\<close>: the bytes of the kernel buffer after
    the call and the number that could not be copied.
  \<^item> \<open>put_user ua m a bs\<close> stores one scalar: the new memory and 0 or \<open>- EFAULT\<close>.
\<close>

record uaccess =
  copy_to_user :: "umem \<Rightarrow> addr \<Rightarrow> u8 list \<Rightarrow> umem \<times> nat"
  copy_from_user :: "umem \<Rightarrow> addr \<Rightarrow> nat \<Rightarrow> u8 list \<times> nat"
  put_user :: "umem \<Rightarrow> addr \<Rightarrow> u8 list \<Rightarrow> umem \<times> int"

text \<open>
  The documented contract. A result of 0 means that every byte was transferred; a copy that
  fails may have written part of its destination but nothing outside it; a scalar store
  that fails writes nothing.
\<close>

definition uaccess_ok :: "uaccess \<Rightarrow> bool" where
  "uaccess_ok ua \<longleftrightarrow>
     (\<forall>m a bs m' n. copy_to_user ua m a bs = (m', n) \<longrightarrow>
        (n = 0 \<longrightarrow> m' = mem_write m a bs) \<and>
        (\<forall>x. x \<notin> span a (length bs) \<longrightarrow> m' x = m x)) \<and>
     (\<forall>m a n bs r. copy_from_user ua m a n = (bs, r) \<longrightarrow> r = 0 \<longrightarrow> bs = mem_read m a n) \<and>
     (\<forall>m a bs m' r. put_user ua m a bs = (m', r) \<longrightarrow>
        (r = 0 \<and> m' = mem_write m a bs) \<or> (r = - EFAULT \<and> m' = m))"

lemma copy_to_user_success [uaccess_simps]:
  "uaccess_ok ua \<Longrightarrow> copy_to_user ua m a bs = (m', 0) \<Longrightarrow> m' = mem_write m a bs"
  by (simp add: uaccess_ok_def)

lemma copy_to_user_frame:
  "uaccess_ok ua \<Longrightarrow> copy_to_user ua m a bs = (m', n) \<Longrightarrow> x \<notin> span a (length bs) \<Longrightarrow> m' x = m x"
  by (simp add: uaccess_ok_def)

lemma copy_from_user_success [uaccess_simps]:
  "uaccess_ok ua \<Longrightarrow> copy_from_user ua m a n = (bs, 0) \<Longrightarrow> bs = mem_read m a n"
  by (simp add: uaccess_ok_def)

lemma put_user_cases:
  assumes "uaccess_ok ua" and "put_user ua m a bs = (m', r)"
  obtains "r = 0" "m' = mem_write m a bs" | "r = - EFAULT" "m' = m"
  using assms unfolding uaccess_ok_def by blast

text \<open>
  A concrete instance: an address space in which exactly the addresses satisfying \<open>ok\<close> are
  mapped. It satisfies the contract, so the hypotheses \<open>uaccess_ok\<close> can be met.
\<close>

definition flat_uaccess :: "(addr \<Rightarrow> bool) \<Rightarrow> uaccess" where
  "flat_uaccess ok =
     \<lparr>copy_to_user = (\<lambda>m a bs.
        if list_all (\<lambda>i. ok (a + of_nat i)) [0..<length bs] then (mem_write m a bs, 0)
        else (m, length bs)),
      copy_from_user = (\<lambda>m a n.
        if list_all (\<lambda>i. ok (a + of_nat i)) [0..<n] then (mem_read m a n, 0)
        else (replicate n 0, n)),
      put_user = (\<lambda>m a bs.
        if list_all (\<lambda>i. ok (a + of_nat i)) [0..<length bs] then (mem_write m a bs, 0)
        else (m, - EFAULT))\<rparr>"

lemma flat_uaccess_ok: "uaccess_ok (flat_uaccess ok)"
  by (auto simp: uaccess_ok_def flat_uaccess_def mem_write_outside mem_read_def
      split: if_splits)

lemma flat_uaccess_total:
  "copy_to_user (flat_uaccess (\<lambda>_. True)) m a bs = (mem_write m a bs, 0)"
  "copy_from_user (flat_uaccess (\<lambda>_. True)) m a n = (mem_read m a n, 0)"
  "put_user (flat_uaccess (\<lambda>_. True)) m a bs = (mem_write m a bs, 0)"
  by (simp_all add: flat_uaccess_def list_all_iff)

section \<open>Arithmetic on 64-bit words\<close>

lemma unat_less_64: "unat (x :: u64) < 18446744073709551616"
  using unsigned_less[of x] by simp

lemma unat_mult_64:
  "unat (x :: u64) * unat y < 18446744073709551616 \<Longrightarrow> unat (x * y) = unat x * unat y"
  by (simp add: unat_mult_lem[THEN iffD1])

lemma unat_add_64:
  "unat (x :: u64) + unat y < 18446744073709551616 \<Longrightarrow> unat (x + y) = unat x + unat y"
  by (simp add: unat_add_lem[THEN iffD1])

lemma and_not_page_mask: "unat ((x :: u64) AND - 4096) = 4096 * (unat x div 4096)"
proof -
  have m: "(- 4096 :: u64) = NOT (mask 12)" by (simp add: mask_eq_exp_minus_1)
  have "x AND - 4096 = push_bit 12 (drop_bit 12 x)"
    unfolding m by (rule bit_eqI) (auto simp: bit_simps)
  moreover have "unat (drop_bit 12 x) = unat x div 4096"
    by (simp add: drop_bit_eq_div unat_div)
  moreover have "4096 * (unat x div 4096) < 18446744073709551616"
    using unat_less_64[of x] by (simp add: le_less_trans[OF times_div_less_eq_dividend])
  ultimately show ?thesis
    by (simp add: push_bit_eq_mult mult.commute unat_mult_64)
qed

lemma unat_PAGE_ALIGN:
  assumes "unat x \<le> 2 ^ 64 - 4096"
  shows "unat (PAGE_ALIGN x) = 4096 * ((unat x + 4095) div 4096)"
proof -
  have "unat (x + 4095) = unat x + 4095"
    using assms by (simp add: unat_add_64)
  then show ?thesis by (simp add: PAGE_ALIGN_def and_not_page_mask)
qed

lemma PAGE_ALIGN_bounds:
  assumes "unat x \<le> 2 ^ 64 - 4096"
  shows "4096 dvd unat (PAGE_ALIGN x)" "unat x \<le> unat (PAGE_ALIGN x)" "unat (PAGE_ALIGN x) < unat x + 4096"
  using mult_div_mod_eq[of 4096 "unat x + 4095"] mod_less_divisor[of 4096 "unat x + 4095"]
  unfolding unat_PAGE_ALIGN[OF assms] by (simp, linarith+)

lemma sint_64:
  "sint (p :: u64) =
     (if uint p < 9223372036854775808 then uint p else uint p - 18446744073709551616)"
proof -
  have u: "0 \<le> uint p" "uint p < 18446744073709551616"
    using uint_lt2p[of p] by simp_all
  have "sint p = (uint p + 9223372036854775808) mod 18446744073709551616 - 9223372036854775808"
    using int_word_sint[of "uint p", where 'a = 64] by simp
  moreover have "(uint p + 9223372036854775808) mod 18446744073709551616
      = (if uint p < 9223372036854775808 then uint p + 9223372036854775808
         else uint p - 9223372036854775808)"
  proof (cases "uint p < 9223372036854775808")
    case True
    with u show ?thesis by (simp add: mod_pos_pos_trivial)
  next
    case False
    have "(uint p + 9223372036854775808) mod 18446744073709551616
        = (uint p - 9223372036854775808) mod (18446744073709551616 :: int)"
      using mod_add_self2[of "uint p - 9223372036854775808" "18446744073709551616 :: int"]
      by (simp add: add.commute)
    with False u show ?thesis by (simp add: mod_pos_pos_trivial)
  qed
  ultimately show ?thesis by auto
qed

lemma sint_low_half: "unat (p :: u64) < 9223372036854775808 \<Longrightarrow> sint p = int (unat p)"
proof -
  assume a: "unat p < 9223372036854775808"
  have "uint p = int (unat p)" by simp
  moreover from this a have "uint p < 9223372036854775808" by linarith
  ultimately show ?thesis by (simp add: sint_64)
qed

lemma IS_ERR_iff: "IS_ERR p \<longleftrightarrow> - 4095 \<le> PTR_ERR p \<and> PTR_ERR p < 0"
proof -
  have u: "0 \<le> uint p" "uint p < 18446744073709551616"
    using uint_lt2p[of p] by simp_all
  have "(- 4095 :: u64) \<le> p \<longleftrightarrow> 18446744073709547521 \<le> uint p"
    by (simp add: word_le_def)
  then show ?thesis using u by (auto simp: sint_64 IS_ERR_def PTR_ERR_def)
qed

lemma unat_ucast_u32: "unat (x :: u64) < 2 ^ 32 \<Longrightarrow> unat (ucast x :: u32) = unat x"
  by (simp add: unsigned_ucast_eq take_bit_nat_eq_self)

lemma unat_ucast_u64: "unat (ucast (x :: u32) :: u64) = unat x"
  using unsigned_less[of x, where 'a = nat] by (simp add: unsigned_ucast_eq take_bit_nat_eq_self)

section \<open>Invariants of sequences of operations\<close>

text \<open>
  A component is a state with operations; an invariant that every admissible operation keeps
  holds after every sequence of admissible operations. Each component with a state interprets this locale on its
  operations.
\<close>

locale kept_invariant =
  fixes step :: "'op \<Rightarrow> 's \<Rightarrow> 's"
    and admissible :: "'op \<Rightarrow> bool"
    and inv :: "'s \<Rightarrow> bool"
  assumes step_inv: "admissible x \<Longrightarrow> inv s \<Longrightarrow> inv (step x s)"
begin

lemma run_inv: "list_all admissible xs \<Longrightarrow> inv s \<Longrightarrow> inv (fold step xs s)"
  by (induction xs arbitrary: s) (auto intro: step_inv)

lemma prefix_inv: "list_all admissible xs \<Longrightarrow> inv s \<Longrightarrow> inv (fold step (take n xs) s)"
  by (rule run_inv) (auto simp: list_all_iff dest: in_set_takeD)

end

end
