(* ===== verification/Memory_Snapshot.thy ===== *)
theory Memory_Snapshot
  imports Kernel_Prelude
begin

text \<open>
  System call 551, \<open>luis_capture_memory_snapshot\<close> (kernel/usac/syscall1.c with
  kernel/usac/include/syscall1.h): it reads the memory counters of the kernel into a
  \<open>struct memory_snapshot\<close> and copies it to the caller.

  The counters (\<open>totalram_pages\<close>, \<open>global_node_page_state\<close>) and the enumerators that index
  them live in kernel headers outside the repository; they are the fields of \<open>vmstat\<close>.
\<close>

record vmstat =
  totalram_pages :: u64
  global_node_page_state :: "nat \<Rightarrow> u64"
  NR_FREE_PAGES :: nat
  NR_INACTIVE_FILE :: nat
  NR_FILE_PAGES :: nat
  ZSWPIN :: nat
  ZSWPOUT :: nat

text \<open>User memory together with the kernel log that \<open>pr_info\<close> and \<open>pr_err\<close> append to.\<close>

record kio =
  um :: umem
  klog :: "string list"

record memory_snapshot =
  total_memory :: u64
  free_memory :: u64
  used_memory :: u64
  active_pages :: u64
  cache_pages :: u64
  swap_pages :: u64

text \<open>The struct's memory image: six consecutive \<open>unsigned long\<close>, no padding.\<close>

definition memory_snapshot_bytes :: "memory_snapshot \<Rightarrow> u8 list" where
  "memory_snapshot_bytes k =
     le_bytes (total_memory k) @ le_bytes (free_memory k) @ le_bytes (used_memory k) @
     le_bytes (active_pages k) @ le_bytes (cache_pages k) @ le_bytes (swap_pages k)"

text \<open>What a user program reads back from those bytes.\<close>

definition read_memory_snapshot :: "u8 list \<Rightarrow> memory_snapshot" where
  "read_memory_snapshot bs =
     \<lparr>total_memory = le_word (field 0 8 bs), free_memory = le_word (field 8 8 bs),
      used_memory = le_word (field 16 8 bs), active_pages = le_word (field 24 8 bs),
      cache_pages = le_word (field 32 8 bs), swap_pages = le_word (field 40 8 bs)\<rparr>"

text \<open>Lines 14 to 32: the local \<open>kernel_snapshot\<close>.\<close>

definition kernel_snapshot :: "vmstat \<Rightarrow> memory_snapshot" where
  "kernel_snapshot v =
     (let total = push_bit PAGE_SHIFT (totalram_pages v);
          free = push_bit PAGE_SHIFT (global_node_page_state v (NR_FREE_PAGES v))
      in \<lparr>total_memory = total, free_memory = free, used_memory = total - free,
          active_pages = global_node_page_state v (NR_INACTIVE_FILE v),
          cache_pages = global_node_page_state v (NR_FILE_PAGES v),
          swap_pages = global_node_page_state v (ZSWPIN v) + global_node_page_state v (ZSWPOUT v)\<rparr>)"

definition sys_luis_capture_memory_snapshot ::
  "uaccess \<Rightarrow> vmstat \<Rightarrow> addr \<Rightarrow> kio \<Rightarrow> kio \<times> int" where
  "sys_luis_capture_memory_snapshot ua v snapshot s =
     (let (m', left) = copy_to_user ua (um s) snapshot (memory_snapshot_bytes (kernel_snapshot v))
      in if left \<noteq> 0
         then (s\<lparr>um := m', klog := klog s @ [''Error al copiar datos al espacio de usuario.'']\<rparr>, - EFAULT)
         else (s\<lparr>um := m', klog := klog s @
                 [''Syscall luis_capture_memory_snapshot ejecutada exitosamente.'']\<rparr>, 0))"

section \<open>Layout\<close>

lemma length_memory_snapshot_bytes [simp]: "length (memory_snapshot_bytes k) = 48"
  by (simp add: memory_snapshot_bytes_def)

lemma read_memory_snapshot_bytes [simp]: "read_memory_snapshot (memory_snapshot_bytes k) = k"
  by (simp add: read_memory_snapshot_def memory_snapshot_bytes_def layout_simps)

section \<open>The result of the call\<close>



text \<open>
  The three byte figures are consistent whenever the counter read as free pages does not
  exceed the total and the machine has fewer than \<open>2 ^ 52\<close> pages: used plus free is the
  total, without wrap-around.
\<close>

theorem snapshot_used_plus_free:
  assumes "unat (totalram_pages v) < 2 ^ 52"
    and "global_node_page_state v (NR_FREE_PAGES v) \<le> totalram_pages v"
  shows "unat (used_memory (kernel_snapshot v)) + unat (free_memory (kernel_snapshot v))
       = unat (total_memory (kernel_snapshot v))
     \<and> unat (total_memory (kernel_snapshot v)) = 4096 * unat (totalram_pages v)"
proof -
  let ?t = "totalram_pages v" and ?f = "global_node_page_state v (NR_FREE_PAGES v)"
  have le: "unat ?f \<le> unat ?t" using assms(2) by (simp add: word_le_nat_alt)
  have t: "unat (push_bit 12 ?t) = 4096 * unat ?t"
    using assms(1) by (simp add: push_bit_eq_mult unat_mult_64)
  have f: "unat (push_bit 12 ?f) = 4096 * unat ?f"
    using assms(1) le by (simp add: push_bit_eq_mult unat_mult_64)
  have "push_bit 12 ?f \<le> push_bit 12 ?t"
    using t f le by (simp add: word_le_nat_alt)
  then have "unat (push_bit 12 ?t - push_bit 12 ?f) = 4096 * unat ?t - 4096 * unat ?f"
    by (simp add: unat_sub t f)
  with t f le show ?thesis by (simp add: kernel_snapshot_def Let_def)
qed

theorem snapshot_used_plus_free_witness:
  "let v = \<lparr>totalram_pages = 1000, global_node_page_state = (\<lambda>i. if i = 0 then 400 else 7),
            NR_FREE_PAGES = 0, NR_INACTIVE_FILE = 2, NR_FILE_PAGES = 3, ZSWPIN = 4, ZSWPOUT = 5\<rparr>
   in unat (used_memory (kernel_snapshot v)) + unat (free_memory (kernel_snapshot v)) = 4096000"
  using snapshot_used_plus_free[of "\<lparr>totalram_pages = 1000,
      global_node_page_state = (\<lambda>i. if i = 0 then 400 else 7),
      NR_FREE_PAGES = 0, NR_INACTIVE_FILE = 2, NR_FILE_PAGES = 3, ZSWPIN = 4, ZSWPOUT = 5\<rparr>"]
  by (simp add: Let_def)

end
