(* ===== verification/Tamalloc.thy ===== *)
theory Tamalloc
  imports Kernel_Prelude
begin

text \<open>
  System call 554, \<open>luis_tamalloc\<close> (kernel/usac/syscall4.c): reserve an anonymous private
  mapping of a size rounded up to whole pages. \<open>vm_mmap\<close> is kernel code outside the
  repository: an argument that takes file, address, length, protection, flags and offset
  and acts on the caller's address space \<open>'m\<close>.
\<close>

type_synonym 'm vm_mmap_fn = "addr \<Rightarrow> u64 \<Rightarrow> u64 \<Rightarrow> u64 \<Rightarrow> u64 \<Rightarrow> u64 \<Rightarrow> 'm \<Rightarrow> 'm \<times> u64"

abbreviation PROT_READ :: u64 where "PROT_READ \<equiv> 1"
abbreviation PROT_WRITE :: u64 where "PROT_WRITE \<equiv> 2"
abbreviation MAP_PRIVATE :: u64 where "MAP_PRIVATE \<equiv> 0x02"
abbreviation MAP_ANONYMOUS :: u64 where "MAP_ANONYMOUS \<equiv> 0x20"
abbreviation MAP_NORESERVE :: u64 where "MAP_NORESERVE \<equiv> 0x4000"

definition sys_luis_tamalloc :: "'m vm_mmap_fn \<Rightarrow> u64 \<Rightarrow> 'm \<Rightarrow> 'm \<times> int" where
  "sys_luis_tamalloc vm_mmap sz mm =
     (if sz = 0 then (mm, - EINVAL)
      else let rounded_size = PAGE_ALIGN sz;
               (mm', user_memory) = vm_mmap NULL 0 rounded_size (PROT_READ OR PROT_WRITE)
                 (MAP_ANONYMOUS OR MAP_PRIVATE OR MAP_NORESERVE) 0 mm
           in if IS_ERR user_memory then (mm', PTR_ERR user_memory)
              else (mm', sint user_memory))"

text \<open>
  What the call relies on: a mapping request returns an error value or a page-aligned
  address of the lower half of the address space with the requested bytes below its end,
  and a request of length 0 is an error.
\<close>

definition vm_mmap_ok :: "'m vm_mmap_fn \<Rightarrow> bool" where
  "vm_mmap_ok vm_mmap \<longleftrightarrow> (\<forall>f a n prot flags off mm mm' p. vm_mmap f a n prot flags off mm = (mm', p) \<longrightarrow>
     (IS_ERR p \<or> 4096 dvd unat p \<and> unat p + unat n < 2 ^ 47) \<and> (n = 0 \<longrightarrow> IS_ERR p))"

lemma PAGE_ALIGN_wraps: "2 ^ 64 - 4096 < unat x \<Longrightarrow> PAGE_ALIGN x = 0"
proof -
  assume a: "2 ^ 64 - 4096 < unat x"
  have "unat (x + 4095) = unat x + 4095 - 18446744073709551616"
    using a unat_less_64[of x] by (simp add: unat_plus_if')
  then have "unat (x + 4095) < 4096" using unat_less_64[of x] by linarith
  then have "unat (PAGE_ALIGN x) = 0" by (simp add: PAGE_ALIGN_def and_not_page_mask)
  then show ?thesis by (simp add: unat_eq_0)
qed

lemma tamalloc_cases:
  assumes "sys_luis_tamalloc vm_mmap sz mm = (mm', r)" and "sz \<noteq> 0"
  obtains p where "vm_mmap NULL 0 (PAGE_ALIGN sz) 3 0x4022 0 mm = (mm', p)" "r = sint p"
  using assms by (auto simp: sys_luis_tamalloc_def PTR_ERR_def split: prod.splits if_splits)



end
