(* ===== verification/Process_Memory.thy ===== *)
theory Process_Memory
  imports Kernel_Prelude
begin

text \<open>
  System calls 555 and 556 (kernel/usac/syscall5.c and syscall6.c): the memory figures of one
  process, and their sum over all processes.

  Outside code: \<open>pid_task(find_vpid(pid), PIDTYPE_PID)\<close> is the argument \<open>pid_task\<close>, the list
  that \<open>for_each_process\<close> walks is the argument \<open>procs\<close>, and the two fields that
  \<open>si_meminfo\<close> fills and the code reads are the record \<open>meminfo\<close>. A process is what the
  code reads of it: its address space, if it has one, with the page counts \<open>total_vm\<close> and
  \<open>get_mm_rss\<close>.
\<close>

section \<open>Data\<close>

record mm_struct =
  total_vm :: u64
  get_mm_rss :: u64

record task_struct =
  mm :: "mm_struct option"

record meminfo =
  si_totalram :: u64
  si_mem_unit :: u32

abbreviation KB :: u64 where "KB \<equiv> 1024"

record process_memory_info =
  reserved_memory_kb :: u64
  committed_memory_kb :: u64
  used_memory_kb :: u64
  oom_score :: u32
  percentage_used_memory :: u32

definition process_memory_info_bytes :: "process_memory_info \<Rightarrow> u8 list" where
  "process_memory_info_bytes i =
     le_bytes (reserved_memory_kb i) @ le_bytes (committed_memory_kb i) @ le_bytes (used_memory_kb i) @
     le_bytes (oom_score i) @ le_bytes (percentage_used_memory i)"

definition read_process_memory_info :: "u8 list \<Rightarrow> process_memory_info" where
  "read_process_memory_info bs =
     \<lparr>reserved_memory_kb = le_word (field 0 8 bs), committed_memory_kb = le_word (field 8 8 bs),
      used_memory_kb = le_word (field 16 8 bs), oom_score = le_word (field 24 4 bs),
      percentage_used_memory = le_word (field 28 4 bs)\<rparr>"

record memory_summary =
  reserved_memory_mb :: u64
  committed_memory_mb :: u64

definition memory_summary_bytes :: "memory_summary \<Rightarrow> u8 list" where
  "memory_summary_bytes r = le_bytes (reserved_memory_mb r) @ le_bytes (committed_memory_mb r)"

definition read_memory_summary :: "u8 list \<Rightarrow> memory_summary" where
  "read_memory_summary bs = \<lparr>reserved_memory_mb = le_word (field 0 8 bs),
     committed_memory_mb = le_word (field 8 8 bs)\<rparr>"

section \<open>The figures of one process\<close>

text \<open>
  Lines 49 to 73 of syscall5.c. Everything is computed in \<open>unsigned long\<close>; the percentage and
  the score are then stored in an \<open>int\<close>, which keeps the low 32 bits.
\<close>

definition collect_memory_info :: "meminfo \<Rightarrow> mm_struct \<Rightarrow> process_memory_info" where
  "collect_memory_info si a =
     (let reserved_memory = total_vm a * PAGE_SIZE div KB;
          committed_memory = get_mm_rss a * PAGE_SIZE div KB;
          used = committed_memory;
          percentage = (if reserved_memory > 0 then ucast (used * 100 div reserved_memory) else 0);
          total_memory_kb = si_totalram si * ucast (si_mem_unit si) div KB;
          score = (if total_memory_kb > 0 then ucast (used * 1000 div total_memory_kb) else 0)
      in \<lparr>reserved_memory_kb = reserved_memory, committed_memory_kb = committed_memory,
          used_memory_kb = used, oom_score = score, percentage_used_memory = percentage\<rparr>)"

definition sys_luis_recoleccion_general ::
  "uaccess \<Rightarrow> (u32 \<Rightarrow> task_struct option) \<Rightarrow> meminfo \<Rightarrow> u32 \<Rightarrow> addr \<Rightarrow> umem \<Rightarrow> umem \<times> int" where
  "sys_luis_recoleccion_general ua pid_task si pid mem_info m =
     (case pid_task pid of
        None \<Rightarrow> (m, - ESRCH)
      | Some task \<Rightarrow>
          (case mm task of
             None \<Rightarrow> (m, - EFAULT)
           | Some a \<Rightarrow>
               (let (m', left) = copy_to_user ua m mem_info
                      (process_memory_info_bytes (collect_memory_info si a))
                in if left \<noteq> 0 then (m', - EFAULT) else (m', 0))))"

section \<open>The sum over all processes\<close>

text \<open>One round of the loop, lines 25 to 38 of syscall6.c, and the loop.\<close>

definition add_process :: "task_struct \<Rightarrow> memory_summary \<Rightarrow> memory_summary" where
  "add_process task acc =
     (case mm task of
        None \<Rightarrow> acc
      | Some a \<Rightarrow>
          (let reserved = get_mm_rss a; committed = total_vm a
           in acc\<lparr>reserved_memory_mb := reserved_memory_mb acc + reserved * PAGE_SIZE div (1024 * 1024),
                  committed_memory_mb := committed_memory_mb acc + committed * PAGE_SIZE div (1024 * 1024)\<rparr>))"

fun sum_processes :: "task_struct list \<Rightarrow> memory_summary \<Rightarrow> memory_summary" where
  "sum_processes [] acc = acc"
| "sum_processes (t # ts) acc = sum_processes ts (add_process t acc)"

definition sys_luis_resumen_total ::
  "uaccess \<Rightarrow> task_struct list \<Rightarrow> addr \<Rightarrow> umem \<Rightarrow> umem \<times> int" where
  "sys_luis_resumen_total ua procs summary m =
     (let sys_summary = sum_processes procs \<lparr>reserved_memory_mb = 0, committed_memory_mb = 0\<rparr>;
          (m', left) = copy_to_user ua m summary (memory_summary_bytes sys_summary)
      in if left \<noteq> 0 then (m', - EFAULT) else (m', 0))"

section \<open>Layout\<close>

lemma length_process_memory_info_bytes [simp]: "length (process_memory_info_bytes i) = 32"
  by (simp add: process_memory_info_bytes_def)

lemma read_process_memory_info_bytes [simp]:
  "read_process_memory_info (process_memory_info_bytes i) = i"
  by (simp add: read_process_memory_info_def process_memory_info_bytes_def layout_simps)

lemma length_memory_summary_bytes [simp]: "length (memory_summary_bytes r) = 16"
  by (simp add: memory_summary_bytes_def)

lemma read_memory_summary_bytes [simp]: "read_memory_summary (memory_summary_bytes r) = r"
  by (simp add: read_memory_summary_def memory_summary_bytes_def layout_simps)

section \<open>Correctness of the figures\<close>

text \<open>Pages to kilobytes: exact below \<open>2 ^ 52\<close> pages.\<close>

lemma pages_to_kb:
  assumes "unat (n :: u64) < 2 ^ 52"
  shows "unat (n * 4096 div 1024) = 4 * unat n"
proof -
  have "unat (n * 4096) = unat n * 4096"
    using assms by (intro unat_mult_64[of n 4096, simplified]) simp
  then show ?thesis by (simp add: unat_div)
qed

lemma pages_to_mb:
  assumes "unat (n :: u64) < 2 ^ 52"
  shows "unat (n * 4096 div 1048576) = unat n div 256"
proof -
  have "unat (n * 4096) = unat n * 4096"
    using assms by (intro unat_mult_64[of n 4096, simplified]) simp
  then show ?thesis by (simp add: unat_div)
qed

text \<open>
  A figure the kernel computes as \<open>used * k / base\<close> in 64 bits and stores in an \<open>int\<close> is the
  quotient of the naturals when neither the product nor the result overflows.
\<close>

lemma scaled_quotient:
  assumes "unat (u :: u64) * unat k < 2 ^ 64" and "unat u * unat k div unat b < 2 ^ 32"
  shows "unat (ucast (u * k div b) :: u32) = unat u * unat k div unat b"
proof -
  have "unat (u * k div b) = unat u * unat k div unat b"
    using assms(1) by (simp add: unat_div unat_mult_64)
  with assms(2) show ?thesis by (metis unat_ucast_u32)
qed



text \<open>
  C23. The out-of-memory score is the resident set's share of the memory in thousandths, rounded
  down, and stays in \<open>0..1000\<close> whenever the process does not hold more than the machine has.
\<close>

theorem oom_score_exact:
  assumes "unat (get_mm_rss a) < 2 ^ 50"
    and "unat (si_totalram si) * unat (si_mem_unit si) < 2 ^ 64"
    and "4096 * unat (get_mm_rss a) \<le> unat (si_totalram si) * unat (si_mem_unit si)"
  shows "unat (oom_score (collect_memory_info si a))
       = 4000 * unat (get_mm_rss a) div (unat (si_totalram si) * unat (si_mem_unit si) div 1024)
     \<and> unat (oom_score (collect_memory_info si a)) \<le> 1000"
proof -
  let ?r = "get_mm_rss a" and ?t = "si_totalram si * ucast (si_mem_unit si) div 1024"
  let ?use = "?r * 4096 div 1024" and ?kb = "unat (si_totalram si) * unat (si_mem_unit si) div 1024"
  have use_kb: "unat ?use = 4 * unat ?r" using assms(1) by (intro pages_to_kb) simp
  have unit: "unat (ucast (si_mem_unit si) :: u64) = unat (si_mem_unit si)"
    by (rule unat_ucast_u64)
  have t: "unat ?t = ?kb"
    using assms(2) unit by (simp add: unat_div unat_mult_64)
  have le: "4 * unat ?r \<le> ?kb" using assms(3) by (simp add: less_eq_div_iff_mult_less_eq)
  have le1000: "4000 * unat ?r div ?kb \<le> 1000"
  proof (cases "?kb = 0")
    case False
    have "4000 * unat ?r div ?kb \<le> 1000 * ?kb div ?kb"
      using le by (intro div_le_mono) simp
    with False show ?thesis by simp
  qed simp
  have "unat (if 0 < ?t then ucast (?use * 1000 div ?t) else 0 :: u32) = 4000 * unat ?r div ?kb"
  proof (cases "0 < ?t")
    case True
    have "unat ?use * unat (1000 :: u64) < 2 ^ 64"
      using use_kb assms(1) by simp
    moreover have "unat ?use * unat (1000 :: u64) div unat ?t < 2 ^ 32"
      using le1000 by (simp add: use_kb t)
    ultimately have "unat (ucast (?use * 1000 div ?t) :: u32) = unat ?use * unat (1000 :: u64) div unat ?t"
      by (rule scaled_quotient)
    with True show ?thesis by (simp add: use_kb t)
  next
    case False
    then have "?t = 0" by (simp add: word_gt_0)
    with t have "?kb = 0" by simp
    with False show ?thesis by simp
  qed
  with le1000 show ?thesis by (simp add: collect_memory_info_def Let_def)
qed

theorem oom_score_exact_witness:
  "unat (oom_score (collect_memory_info \<lparr>si_totalram = 1000, si_mem_unit = 4096\<rparr>
     \<lparr>total_vm = 300, get_mm_rss = 100\<rparr>)) = 100"
  using oom_score_exact[of "\<lparr>total_vm = 300, get_mm_rss = 100\<rparr>" "\<lparr>si_totalram = 1000, si_mem_unit = 4096\<rparr>"]
  by simp

text \<open>
  C24. Every branch of \<open>luis_recoleccion_general\<close>: an unknown process is \<open>- ESRCH\<close> and one
  without address space \<open>- EFAULT\<close>, both without touching user memory; otherwise the result
  is 0 and the caller's buffer decodes to the figures of that process, or \<open>- EFAULT\<close> when
  the copy fails.
\<close>

theorem recoleccion_general_result:
  assumes "uaccess_ok ua" and "sys_luis_recoleccion_general ua pid_task si pid p m = (m', r)"
  shows "case pid_task pid of
      None \<Rightarrow> r = - ESRCH \<and> m' = m
    | Some t \<Rightarrow> (case mm t of None \<Rightarrow> r = - EFAULT \<and> m' = m
        | Some a \<Rightarrow> (r = 0 \<and> read_process_memory_info (mem_read m' p 32) = collect_memory_info si a
            \<or> r = - EFAULT) \<and> (\<forall>x. x \<notin> span p 32 \<longrightarrow> m' x = m x))"
proof (cases "pid_task pid")
  case None
  with assms(2) show ?thesis by (simp add: sys_luis_recoleccion_general_def)
next
  case (Some t)
  show ?thesis
  proof (cases "mm t")
    case None
    with Some assms(2) show ?thesis by (simp add: sys_luis_recoleccion_general_def)
  next
    case some: (Some a)
    obtain n where c: "copy_to_user ua m p (process_memory_info_bytes (collect_memory_info si a)) = (m', n)"
      and r: "r = (if n = 0 then 0 else - EFAULT)"
      using assms(2) Some some
      by (auto simp: sys_luis_recoleccion_general_def split: prod.splits if_splits)
    have "r = 0 \<Longrightarrow> m' = mem_write m p (process_memory_info_bytes (collect_memory_info si a))"
      using c r copy_to_user_success[OF assms(1)] by (auto split: if_splits)
    moreover have "\<forall>x. x \<notin> span p 32 \<longrightarrow> m' x = m x"
      using copy_to_user_frame[OF assms(1) c] by simp
    ultimately show ?thesis using Some some r by (auto split: if_splits)
  qed
qed

theorem recoleccion_general_result_witness:
  "let r = sys_luis_recoleccion_general (flat_uaccess (\<lambda>_. True))
             (\<lambda>p. if p = 7 then Some \<lparr>mm = Some \<lparr>total_vm = 300, get_mm_rss = 100\<rparr>\<rparr> else None)
             \<lparr>si_totalram = 1000, si_mem_unit = 4096\<rparr> 7 4096 (\<lambda>_. 0)
   in snd r = 0 \<and> unat (reserved_memory_kb (read_process_memory_info (mem_read (fst r) 4096 32))) = 1200"
proof -
  let ?si = "\<lparr>si_totalram = 1000, si_mem_unit = 4096\<rparr>" and ?a = "\<lparr>total_vm = 300, get_mm_rss = 100\<rparr>"
  let ?f = "\<lambda>p :: u32. if p = 7 then Some \<lparr>mm = Some ?a\<rparr> else None"
  let ?r = "sys_luis_recoleccion_general (flat_uaccess (\<lambda>_. True)) ?f ?si 7 4096 (\<lambda>_. 0)"
  have r: "?r = (fst ?r, 0)"
    by (simp add: sys_luis_recoleccion_general_def flat_uaccess_def list_all_iff)
  have "read_process_memory_info (mem_read (fst ?r) 4096 32) = collect_memory_info ?si ?a"
    using recoleccion_general_result[OF flat_uaccess_ok r] by simp
  then show ?thesis
    using r by (simp add: Let_def collect_memory_info_def) (metis snd_conv)
qed

section \<open>Correctness of the sum\<close>

text \<open>The address spaces the loop counts.\<close>

definition spaces :: "task_struct list \<Rightarrow> mm_struct list" where
  "spaces ts = List.map_filter mm ts"

lemma spaces_simps [simp]:
  "spaces [] = []"
  "spaces (t # ts) = (case mm t of None \<Rightarrow> spaces ts | Some a \<Rightarrow> a # spaces ts)"
  by (simp_all add: spaces_def map_filter_def split: option.splits)

lemma sum_processes_exact:
  assumes "\<forall>a \<in> set (spaces ts). unat (get_mm_rss a) < 2 ^ 52 \<and> unat (total_vm a) < 2 ^ 52"
    and "unat (reserved_memory_mb s) + sum_list (map (\<lambda>a. unat (get_mm_rss a) div 256) (spaces ts)) < 2 ^ 64"
    and "unat (committed_memory_mb s) + sum_list (map (\<lambda>a. unat (total_vm a) div 256) (spaces ts)) < 2 ^ 64"
  shows "unat (reserved_memory_mb (sum_processes ts s))
       = unat (reserved_memory_mb s) + sum_list (map (\<lambda>a. unat (get_mm_rss a) div 256) (spaces ts))
    \<and> unat (committed_memory_mb (sum_processes ts s))
       = unat (committed_memory_mb s) + sum_list (map (\<lambda>a. unat (total_vm a) div 256) (spaces ts))"
  using assms
proof (induction ts arbitrary: s)
  case Nil
  then show ?case by simp
next
  case (Cons t ts)
  show ?case
  proof (cases "mm t")
    case None
    with Cons show ?thesis by (simp add: add_process_def)
  next
    case (Some a)
    let ?s = "add_process t s"
    have r: "unat (get_mm_rss a * 4096 div 1048576) = unat (get_mm_rss a) div 256"
      and c: "unat (total_vm a * 4096 div 1048576) = unat (total_vm a) div 256"
      using Cons.prems(1) Some by (auto intro: pages_to_mb)
    have "unat (reserved_memory_mb ?s) = unat (reserved_memory_mb s) + unat (get_mm_rss a) div 256"
      using Cons.prems(2) Some r by (simp add: add_process_def Let_def unat_add_64)
    moreover have "unat (committed_memory_mb ?s) = unat (committed_memory_mb s) + unat (total_vm a) div 256"
      using Cons.prems(3) Some c by (simp add: add_process_def Let_def unat_add_64)
    ultimately show ?thesis
      using Cons.IH[of ?s] Cons.prems Some by simp
  qed
qed

lemma sum_of_floors:
  "sum_list (map (\<lambda>a. f a div 256) xs) \<le> sum_list (map f xs) div (256 :: nat)
   \<and> sum_list (map f xs) div 256 \<le> sum_list (map (\<lambda>a. f a div 256) xs) + length xs"
proof (induction xs)
  case (Cons a xs)
  let ?S = "sum_list (map f xs)"
  have "(f a mod 256 + ?S mod 256) div 256 \<le> 1"
    using mod_less_divisor[of 256 "f a"] mod_less_divisor[of 256 ?S] by linarith
  moreover have "(f a + ?S) div 256 = f a div 256 + ?S div 256 + (f a mod 256 + ?S mod 256) div 256"
    by (rule div_add1_eq)
  ultimately show ?case using Cons by simp
qed simp

text \<open>
  A successful \<open>luis_resumen_total\<close> delivers, for each of its two figures, the sum over
  the processes with an address space of that process's whole megabytes. Rounding each
  process down before adding loses at most one megabyte per process and never reports more
  than the true total.
\<close>

theorem resumen_total_delivers:
  assumes "uaccess_ok ua" and "sys_luis_resumen_total ua ts p m = (m', 0)"
    and "\<forall>a \<in> set (spaces ts). unat (get_mm_rss a) < 2 ^ 52 \<and> unat (total_vm a) < 2 ^ 52"
    and "sum_list (map (\<lambda>a. unat (get_mm_rss a)) (spaces ts)) < 2 ^ 64"
    and "sum_list (map (\<lambda>a. unat (total_vm a)) (spaces ts)) < 2 ^ 64"
  shows "let r = read_memory_summary (mem_read m' p 16);
             rss_mb = sum_list (map (\<lambda>a. unat (get_mm_rss a)) (spaces ts)) div 256;
             vm_mb = sum_list (map (\<lambda>a. unat (total_vm a)) (spaces ts)) div 256
         in unat (reserved_memory_mb r) = sum_list (map (\<lambda>a. unat (get_mm_rss a) div 256) (spaces ts))
          \<and> unat (committed_memory_mb r) = sum_list (map (\<lambda>a. unat (total_vm a) div 256) (spaces ts))
          \<and> unat (reserved_memory_mb r) \<le> rss_mb \<and> rss_mb \<le> unat (reserved_memory_mb r) + length (spaces ts)
          \<and> unat (committed_memory_mb r) \<le> vm_mb \<and> vm_mb \<le> unat (committed_memory_mb r) + length (spaces ts)"
proof -
  let ?s0 = "\<lparr>reserved_memory_mb = 0, committed_memory_mb = 0\<rparr> :: memory_summary"
  note R = sum_of_floors[where f = "\<lambda>a. unat (get_mm_rss a)" and xs = "spaces ts"]
  note V = sum_of_floors[where f = "\<lambda>a. unat (total_vm a)" and xs = "spaces ts"]
  have r: "read_memory_summary (mem_read m' p 16) = sum_processes ts ?s0"
    using assms(2)
    by (auto simp: sys_luis_resumen_total_def Let_def split: prod.splits if_splits
        dest!: copy_to_user_success[OF assms(1)])
  have "unat (reserved_memory_mb (sum_processes ts ?s0)) = sum_list (map (\<lambda>a. unat (get_mm_rss a) div 256) (spaces ts))
      \<and> unat (committed_memory_mb (sum_processes ts ?s0)) = sum_list (map (\<lambda>a. unat (total_vm a) div 256) (spaces ts))"
  proof -
    have "sum_list (map (\<lambda>a. unat (get_mm_rss a) div 256) (spaces ts)) < 2 ^ 64"
      and "sum_list (map (\<lambda>a. unat (total_vm a) div 256) (spaces ts)) < 2 ^ 64"
      using R V assms(4,5) by linarith+
    then show ?thesis using sum_processes_exact[OF assms(3), of ?s0] by simp
  qed
  with R V show ?thesis unfolding r by (simp add: Let_def)
qed

theorem resumen_total_delivers_witness:
  "let ts = [\<lparr>mm = Some \<lparr>total_vm = 1000, get_mm_rss = 300\<rparr>\<rparr>, \<lparr>mm = None\<rparr>,
             \<lparr>mm = Some \<lparr>total_vm = 600, get_mm_rss = 255\<rparr>\<rparr>];
       r = sys_luis_resumen_total (flat_uaccess (\<lambda>_. True)) ts 4096 (\<lambda>_. 0)
   in snd r = 0 \<and> unat (reserved_memory_mb (read_memory_summary (mem_read (fst r) 4096 16))) = 1
    \<and> unat (committed_memory_mb (read_memory_summary (mem_read (fst r) 4096 16))) = 5"
proof -
  let ?ts = "[\<lparr>mm = Some \<lparr>total_vm = 1000, get_mm_rss = 300\<rparr>\<rparr>, \<lparr>mm = None\<rparr>,
             \<lparr>mm = Some \<lparr>total_vm = 600, get_mm_rss = 255\<rparr>\<rparr>] :: task_struct list"
  let ?r = "sys_luis_resumen_total (flat_uaccess (\<lambda>_. True)) ?ts 4096 (\<lambda>_. 0)"
  have r: "?r = (fst ?r, 0)"
    by (simp add: sys_luis_resumen_total_def flat_uaccess_def list_all_iff Let_def)
  have "snd ?r = 0" using r by (metis snd_conv)
  moreover have "unat (reserved_memory_mb (read_memory_summary (mem_read (fst ?r) 4096 16))) = 1
    \<and> unat (committed_memory_mb (read_memory_summary (mem_read (fst ?r) 4096 16))) = 5"
    using resumen_total_delivers[OF flat_uaccess_ok r] by (simp add: Let_def)
  ultimately show ?thesis by (simp only: Let_def)
qed

text \<open>
  C25. The two system calls use the words reserved and committed the other way round: for a
  machine running one process, the reserved megabytes of the summary are the committed
  (resident) kilobytes of the process report divided by 1024, and the committed megabytes
  are its reserved (virtual) kilobytes divided by 1024.
\<close>

theorem reserved_and_committed_swapped:
  assumes "unat (total_vm a) < 2 ^ 52" and "unat (get_mm_rss a) < 2 ^ 52"
  shows "let r = sum_processes [\<lparr>mm = Some a\<rparr>] \<lparr>reserved_memory_mb = 0, committed_memory_mb = 0\<rparr>;
             i = collect_memory_info si a
         in unat (reserved_memory_mb r) = unat (committed_memory_kb i) div 1024
          \<and> unat (committed_memory_mb r) = unat (reserved_memory_kb i) div 1024"
  using pages_to_kb[OF assms(1)] pages_to_kb[OF assms(2)] pages_to_mb[OF assms(1)] pages_to_mb[OF assms(2)]
  by (simp add: add_process_def collect_memory_info_def Let_def)

theorem reserved_and_committed_swapped_witness:
  "let r = sum_processes [\<lparr>mm = Some \<lparr>total_vm = 2560, get_mm_rss = 256\<rparr>\<rparr>]
             \<lparr>reserved_memory_mb = 0, committed_memory_mb = 0\<rparr>;
       i = collect_memory_info \<lparr>si_totalram = 1, si_mem_unit = 1\<rparr> \<lparr>total_vm = 2560, get_mm_rss = 256\<rparr>
   in unat (reserved_memory_mb r) = 1 \<and> unat (reserved_memory_kb i) = 10240
    \<and> unat (committed_memory_mb r) = unat (reserved_memory_kb i) div 1024"
  using reserved_and_committed_swapped[of "\<lparr>total_vm = 2560, get_mm_rss = 256\<rparr>" "\<lparr>si_totalram = 1, si_mem_unit = 1\<rparr>"]
  by (simp add: Let_def collect_memory_info_def)

end
