(* ===== verification/Io_Throttle.thy ===== *)
theory Io_Throttle
  imports Memory_Snapshot
begin

text \<open>
  \<open>luis_get_io_throttle\<close> (kernel/usac/syscall3.c with kernel/usac/include/syscall3.h): copy
  the I/O accounting of a process to the caller. Its line in kernel/usac/Makefile and its
  entry 553 in syscall_64.tbl are commented out, so the kernel is built without it; the
  model follows its text.

  Outside code: \<open>get_pid_task(find_vpid(pid), PIDTYPE_PID)\<close> finds a task and takes a
  reference on it. The argument \<open>find_vpid\<close> is the lookup; tasks are numbered, and the
  state counts the references held on each.
\<close>

record task_io_accounting =
  io_read_bytes :: u64
  io_write_bytes :: u64
  io_read_disk_bytes :: u64
  io_write_disk_bytes :: u64
  io_wait :: u64

record io_throttle_stats =
  read_bytes :: u64
  write_bytes :: u64
  read_disk_bytes :: u64
  write_disk_bytes :: u64
  io_wait_time :: u64

record io_state =
  ios :: kio
  task_refs :: "nat \<Rightarrow> nat"

definition io_throttle_stats_bytes :: "io_throttle_stats \<Rightarrow> u8 list" where
  "io_throttle_stats_bytes k =
     le_bytes (read_bytes k) @ le_bytes (write_bytes k) @ le_bytes (read_disk_bytes k) @
     le_bytes (write_disk_bytes k) @ le_bytes (io_wait_time k)"

definition read_io_throttle_stats :: "u8 list \<Rightarrow> io_throttle_stats" where
  "read_io_throttle_stats bs =
     \<lparr>read_bytes = le_word (field 0 8 bs), write_bytes = le_word (field 8 8 bs),
      read_disk_bytes = le_word (field 16 8 bs), write_disk_bytes = le_word (field 24 8 bs),
      io_wait_time = le_word (field 32 8 bs)\<rparr>"

text \<open>Lines 29 to 34.\<close>

definition kernel_stats :: "task_io_accounting \<Rightarrow> io_throttle_stats" where
  "kernel_stats ioac =
     \<lparr>read_bytes = io_read_bytes ioac, write_bytes = io_write_bytes ioac,
      read_disk_bytes = io_read_disk_bytes ioac, write_disk_bytes = io_write_disk_bytes ioac,
      io_wait_time = io_wait ioac\<rparr>"

definition sys_luis_get_io_throttle ::
  "uaccess \<Rightarrow> (u32 \<Rightarrow> nat option) \<Rightarrow> (nat \<Rightarrow> task_io_accounting) \<Rightarrow> u32 \<Rightarrow> addr \<Rightarrow> io_state \<Rightarrow> io_state \<times> int" where
  "sys_luis_get_io_throttle ua find_vpid ioac_of pid stats s =
     (case find_vpid pid of
        None \<Rightarrow> (s\<lparr>ios := (ios s)\<lparr>klog := klog (ios s) @ [''Proceso no encontrado'']\<rparr>\<rparr>, - ESRCH)
      | Some t \<Rightarrow>
          (let refs = (task_refs s)(t := Suc (task_refs s t));
               (m', left) = copy_to_user ua (um (ios s)) stats
                 (io_throttle_stats_bytes (kernel_stats (ioac_of t)))
           in if left \<noteq> 0
              then (\<lparr>ios = \<lparr>um = m', klog = klog (ios s) @
                       [''Error al copiar los datos al espacio de usuario.'']\<rparr>, task_refs = refs\<rparr>, - EFAULT)
              else (\<lparr>ios = \<lparr>um = m', klog = klog (ios s) @
                       [''Syscall get_io_throttle ejecutada exitosamente'']\<rparr>, task_refs = refs\<rparr>, 0)))"

lemma length_io_throttle_stats_bytes [simp]: "length (io_throttle_stats_bytes k) = 40"
  by (simp add: io_throttle_stats_bytes_def)

lemma read_io_throttle_stats_bytes [simp]: "read_io_throttle_stats (io_throttle_stats_bytes k) = k"
  by (simp add: read_io_throttle_stats_def io_throttle_stats_bytes_def layout_simps)



end
