(* ===== verification/Memory_Limits.thy ===== *)
theory Memory_Limits
  imports Process_Memory
begin

text \<open>
  System calls 557 to 559 (kernel/usac/project3/syscall7.c): the list of processes with a
  memory limit. \<open>so2_add_memory_limit\<close> inserts, \<open>so2_update_memory_limit\<close> changes and
  \<open>so2_get_memory_limits\<close> reads it out.

  Outside code, the record \<open>limits_env\<close>: the process lookup, the capability test, whether
  \<open>kmalloc\<close> provides the node, and the block that \<open>kmalloc_array\<close> returns, with whatever the
  allocator left in it. \<open>set_errno\<close> acts on a state \<open>'e\<close> that nothing else in the file reads.
\<close>

section \<open>State\<close>

text \<open>
  An entry of the kernel list, newest first. The links of the intrusive list are the order
  of the HOL list. A process number is a 32-bit \<open>pid_t\<close>, compared as a signed number.
\<close>

record memory_limitation =
  pid :: u32
  memory_limit :: u64

record limits_state =
  memory_limit_list :: "memory_limitation list"
  memory_limit_lock :: bool

record limits_env =
  pid_task :: "u32 \<Rightarrow> task_struct option"
  capable_sys_admin :: bool
  kmalloc_ok :: bool
  kmalloc_array :: "nat \<Rightarrow> nat \<Rightarrow> u8 list list option"

text \<open>The mutex: \<open>True\<close> while it is held.\<close>

definition mutex_lock :: "limits_state \<Rightarrow> limits_state" where
  "mutex_lock s = s\<lparr>memory_limit_lock := True\<rparr>"

definition mutex_unlock :: "limits_state \<Rightarrow> limits_state" where
  "mutex_unlock s = s\<lparr>memory_limit_lock := False\<rparr>"

section \<open>The loops over the list\<close>

text \<open>Lines 60 to 65: is the process already listed?\<close>

fun find_entry :: "u32 \<Rightarrow> memory_limitation list \<Rightarrow> bool" where
  "find_entry p [] = False"
| "find_entry p (e # es) = (if pid e = p then True else find_entry p es)"

text \<open>Lines 68 to 78: a new node at the head of the list.\<close>

definition list_add :: "u32 \<Rightarrow> u64 \<Rightarrow> memory_limitation list \<Rightarrow> memory_limitation list" where
  "list_add p l es = \<lparr>pid = p, memory_limit = l\<rparr> # es"

text \<open>Lines 194 to 201: set the limit of the first entry of the process; \<open>None\<close> without one.\<close>

fun update_entry :: "u32 \<Rightarrow> u64 \<Rightarrow> memory_limitation list \<Rightarrow> memory_limitation list option" where
  "update_entry p l [] = None"
| "update_entry p l (e # es) =
     (if pid e = p then Some (e\<lparr>memory_limit := l\<rparr> # es) else map_option ((#) e) (update_entry p l es))"

text \<open>Lines 105 to 107: count the entries, in a \<open>size_t\<close>.\<close>

fun count_entries :: "memory_limitation list \<Rightarrow> u64 \<Rightarrow> u64" where
  "count_entries [] c = c"
| "count_entries (e # es) c = count_entries es (c + 1)"

text \<open>
  The user-visible struct: \<open>pid\<close> at offset 0, four bytes of padding, \<open>memory_limit\<close> at offset
  8 and the two link pointers at 16; 32 bytes. Lines 127 and 128 store the two fields in a
  slot of the buffer and leave its other bytes alone.
\<close>

definition set_slot :: "memory_limitation \<Rightarrow> u8 list \<Rightarrow> u8 list" where
  "set_slot e slot = le_bytes (pid e) @ field 4 4 slot @ le_bytes (memory_limit e) @ field 16 16 slot"

text \<open>Lines 123 to 130: fill the buffer, up to \<open>max_entries\<close>.\<close>

fun fill_buffer ::
  "u64 \<Rightarrow> memory_limitation list \<Rightarrow> u64 \<Rightarrow> u8 list list \<Rightarrow> kfault + (u8 list list \<times> u64)" where
  "fill_buffer max_entries [] c buf = Inr (buf, c)"
| "fill_buffer max_entries (e # es) c buf =
     (if c \<ge> max_entries then Inr (buf, c)
      else if unat c \<ge> length buf then Inl (OutOfBounds (int (unat c)))
      else fill_buffer max_entries es (c + 1) (buf[unat c := set_slot e (buf ! unat c)]))"

section \<open>The system calls\<close>

definition so2_add_memory_limit :: "limits_env \<Rightarrow> u32 \<Rightarrow> u64 \<Rightarrow> limits_state \<Rightarrow> limits_state \<times> int" where
  "so2_add_memory_limit env process_pid limit s =
     (if sint process_pid \<le> 0 \<or> limit \<le> 0 then (s, - EINVAL)
      else if \<not> capable_sys_admin env then (s, - EPERM)
      else case pid_task env process_pid of
        None \<Rightarrow> (s, - ESRCH)
      | Some task \<Rightarrow>
        (case mm task of
           None \<Rightarrow> (s, - ESRCH)
         | Some a \<Rightarrow>
             if get_mm_rss a * PAGE_SIZE div 1024 > limit then (s, - 100)
             else (let s1 = mutex_lock s
                   in if find_entry process_pid (memory_limit_list s1) then (mutex_unlock s1, - 101)
                      else if \<not> kmalloc_ok env then (mutex_unlock s1, - ENOMEM)
                      else (mutex_unlock (s1\<lparr>memory_limit_list :=
                              list_add process_pid limit (memory_limit_list s1)\<rparr>), 0))))"

definition so2_get_memory_limits ::
  "uaccess \<Rightarrow> limits_env \<Rightarrow> addr \<Rightarrow> u64 \<Rightarrow> addr \<Rightarrow> limits_state \<times> umem \<Rightarrow> kfault + (limits_state \<times> umem) \<times> int" where
  "so2_get_memory_limits ua env u_processes_buffer max_entries processes_returned = (\<lambda>(s, m).
     if max_entries \<le> 0 \<or> u_processes_buffer = NULL \<or> processes_returned = NULL
     then Inr ((s, m), - EINVAL)
     else
       (let s1 = mutex_lock s;
            n = count_entries (memory_limit_list s1) 0;
            n1 = (if n > max_entries then max_entries else n)
        in case kmalloc_array env (unat n1) 32 of
             None \<Rightarrow> Inr ((mutex_unlock s1, m), - ENOMEM)
           | Some buf \<Rightarrow>
               (case fill_buffer max_entries (memory_limit_list s1) 0 buf of
                  Inl f \<Rightarrow> Inl f
                | Inr (buf', c) \<Rightarrow>
                    (let s2 = mutex_unlock s1;
                         (m1, left) = copy_to_user ua m u_processes_buffer (take (unat (c * 32)) (concat buf'))
                     in if left \<noteq> 0 then Inr ((s2, m1), - EFAULT)
                        else (let (m2, r) = put_user ua m1 processes_returned (le_bytes (ucast c :: u32))
                              in if r \<noteq> 0 then Inr ((s2, m2), - EFAULT) else Inr ((s2, m2), 0))))))"

definition so2_update_memory_limit ::
  "limits_env \<Rightarrow> (int \<Rightarrow> 'e \<Rightarrow> 'e) \<Rightarrow> u32 \<Rightarrow> u64 \<Rightarrow> limits_state \<times> 'e \<Rightarrow> (limits_state \<times> 'e) \<times> int" where
  "so2_update_memory_limit env set_errno process_pid limit = (\<lambda>(s, e).
     if sint process_pid \<le> 0 \<or> limit \<le> 0 then ((s, set_errno EINVAL e), - EINVAL)
     else if \<not> capable_sys_admin env then ((s, set_errno EPERM e), - EPERM)
     else case pid_task env process_pid of
       None \<Rightarrow> ((s, set_errno ESRCH e), - ESRCH)
     | Some task \<Rightarrow>
       (case mm task of
          None \<Rightarrow> ((s, set_errno ESRCH e), - ESRCH)
        | Some a \<Rightarrow>
            if get_mm_rss a * PAGE_SIZE div 1024 > limit then ((s, set_errno 100 e), - 100)
            else (let s1 = mutex_lock s
                  in case update_entry process_pid limit (memory_limit_list s1) of
                       Some es \<Rightarrow> ((mutex_unlock (s1\<lparr>memory_limit_list := es\<rparr>), e), 0)
                     | None \<Rightarrow> ((mutex_unlock s1, set_errno 102 e), - 102))))"

section \<open>The list as a map\<close>

text \<open>
  The contract between the list and the system calls: a store of limits under keys, in
  which a key occurs at most once.
\<close>

locale limit_store =
  fixes wf :: "'s \<Rightarrow> bool"
    and limit_of :: "'s \<Rightarrow> 'k \<Rightarrow> 'v option"
    and listed :: "'k \<Rightarrow> 's \<Rightarrow> bool"
    and push :: "'k \<Rightarrow> 'v \<Rightarrow> 's \<Rightarrow> 's"
    and modify :: "'k \<Rightarrow> 'v \<Rightarrow> 's \<Rightarrow> 's option"
  assumes listed_iff: "listed k s \<longleftrightarrow> limit_of s k \<noteq> None"
    and limit_push: "limit_of (push k v s) = (limit_of s)(k \<mapsto> v)"
    and wf_push: "wf s \<Longrightarrow> \<not> listed k s \<Longrightarrow> wf (push k v s)"
    and modify_None: "modify k v s = None \<longleftrightarrow> \<not> listed k s"
    and limit_modify: "modify k v s = Some s' \<Longrightarrow> limit_of s' = (limit_of s)(k \<mapsto> v)"
    and wf_modify: "wf s \<Longrightarrow> modify k v s = Some s' \<Longrightarrow> wf s'"
begin

lemma modify_push: "\<exists>s'. modify k w (push k v s) = Some s' \<and> limit_of s' = (limit_of s)(k \<mapsto> w)"
proof -
  have "listed k (push k v s)" by (simp add: listed_iff limit_push)
  then obtain s' where "modify k w (push k v s) = Some s'"
    using modify_None by (cases "modify k w (push k v s)") auto
  then show ?thesis by (auto simp: limit_push dest: limit_modify)
qed

lemma dom_push: "dom (limit_of (push k v s)) = insert k (dom (limit_of s))"
  by (simp add: limit_push)

lemma dom_modify: "modify k v s = Some s' \<Longrightarrow> dom (limit_of s') = dom (limit_of s)"
  using modify_None[of k v s] by (auto simp: limit_modify listed_iff)

end

definition limits :: "memory_limitation list \<Rightarrow> u32 \<Rightarrow> u64 option" where
  "limits es = map_of (map (\<lambda>e. (pid e, memory_limit e)) es)"

definition unique_pids :: "memory_limitation list \<Rightarrow> bool" where
  "unique_pids es \<longleftrightarrow> distinct (map pid es)"

lemma limits_simps [simp]:
  "limits [] = Map.empty"
  "limits (e # es) = (limits es)(pid e \<mapsto> memory_limit e)"
  by (simp_all add: limits_def)

lemma find_entry_iff: "find_entry p es \<longleftrightarrow> p \<in> pid ` set es"
  by (induction es) auto

lemma find_entry_limits: "find_entry p es \<longleftrightarrow> limits es p \<noteq> None"
  by (induction es) auto

lemma update_entry_None: "update_entry p l es = None \<longleftrightarrow> \<not> find_entry p es"
  by (induction es) auto

lemma update_entry_pids: "update_entry p l es = Some es' \<Longrightarrow> map pid es' = map pid es"
  by (induction es arbitrary: es') (auto split: if_splits)

lemma update_entry_limits: "update_entry p l es = Some es' \<Longrightarrow> limits es' = (limits es)(p \<mapsto> l)"
  by (induction es arbitrary: es') (auto split: if_splits)

lemma list_add_unique: "unique_pids es \<Longrightarrow> \<not> find_entry p es \<Longrightarrow> unique_pids (list_add p l es)"
  by (auto simp: unique_pids_def list_add_def find_entry_iff)

lemma list_add_limits: "limits (list_add p l es) = (limits es)(p \<mapsto> l)"
  by (simp add: list_add_def)

lemma update_entry_unique: "unique_pids es \<Longrightarrow> update_entry p l es = Some es' \<Longrightarrow> unique_pids es'"
  by (simp add: unique_pids_def update_entry_pids)

lemma update_entry_listed: "update_entry p l es = Some es' \<Longrightarrow> \<exists>v. limits es p = Some v"
  using update_entry_None[of p l es] by (auto simp: find_entry_limits)

interpretation lim: limit_store unique_pids limits find_entry list_add update_entry
  by unfold_locales (use find_entry_limits list_add_limits list_add_unique update_entry_None
    update_entry_limits update_entry_unique in blast)+

section \<open>What the system calls promise\<close>

text \<open>
  The specification: a finite map from process numbers to limits. Both writers first check
  their target; the code of the first check that fails is returned.
\<close>

definition check_target :: "limits_env \<Rightarrow> u32 \<Rightarrow> u64 \<Rightarrow> int" where
  "check_target env p l =
     (if sint p \<le> 0 \<or> l = 0 then - EINVAL
      else if \<not> capable_sys_admin env then - EPERM
      else case Option.bind (pid_task env p) mm of
        None \<Rightarrow> - ESRCH
      | Some a \<Rightarrow> if l < get_mm_rss a * PAGE_SIZE div 1024 then - 100 else 0)"

definition spec_add :: "limits_env \<Rightarrow> u32 \<Rightarrow> u64 \<Rightarrow> (u32 \<rightharpoonup> u64) \<Rightarrow> (u32 \<rightharpoonup> u64) \<times> int" where
  "spec_add env p l M =
     (if check_target env p l \<noteq> 0 then (M, check_target env p l)
      else if p \<in> dom M then (M, - 101)
      else if \<not> kmalloc_ok env then (M, - ENOMEM)
      else (M(p \<mapsto> l), 0))"

definition spec_update :: "limits_env \<Rightarrow> u32 \<Rightarrow> u64 \<Rightarrow> (u32 \<rightharpoonup> u64) \<Rightarrow> (u32 \<rightharpoonup> u64) \<times> int" where
  "spec_update env p l M =
     (if check_target env p l \<noteq> 0 then (M, check_target env p l)
      else if p \<notin> dom M then (M, - 102)
      else (M(p \<mapsto> l), 0))"

text \<open>
  The invariant between system calls: the mutex is free, no process is listed twice, and
  every entry has a positive process number and a limit that is not 0.
\<close>

definition limits_inv :: "limits_state \<Rightarrow> bool" where
  "limits_inv s \<longleftrightarrow> \<not> memory_limit_lock s \<and> unique_pids (memory_limit_list s) \<and>
     (\<forall>e \<in> set (memory_limit_list s). 0 < sint (pid e) \<and> memory_limit e \<noteq> 0)"

lemmas limits_defs = so2_add_memory_limit_def so2_update_memory_limit_def mutex_lock_def mutex_unlock_def
  check_target_def Let_def

lemma add_cases:
  "so2_add_memory_limit env p l s =
     (if check_target env p l \<noteq> 0 then (s, check_target env p l)
      else if find_entry p (memory_limit_list s) then (s\<lparr>memory_limit_lock := False\<rparr>, - 101)
      else if \<not> kmalloc_ok env then (s\<lparr>memory_limit_lock := False\<rparr>, - ENOMEM)
      else (s\<lparr>memory_limit_list := list_add p l (memory_limit_list s), memory_limit_lock := False\<rparr>, 0))"
  by (auto simp: limits_defs word_gt_0 split: option.splits)

lemma update_cases:
  "so2_update_memory_limit env set_errno p l (s, e) =
     (if check_target env p l \<noteq> 0
      then ((s, set_errno (- check_target env p l) e), check_target env p l)
      else case update_entry p l (memory_limit_list s) of
        None \<Rightarrow> ((s\<lparr>memory_limit_lock := False\<rparr>, set_errno 102 e), - 102)
      | Some es \<Rightarrow> ((s\<lparr>memory_limit_list := es, memory_limit_lock := False\<rparr>, e), 0))"
  by (auto simp: limits_defs word_gt_0 split: option.splits)

lemma update_entry_set:
  "update_entry p l es = Some es' \<Longrightarrow>
   set es' \<subseteq> set es \<union> {x. pid x = p \<and> memory_limit x = l}"
  by (induction es arbitrary: es') (auto split: if_splits)

lemma check_target_ok: "check_target env p l = 0 \<Longrightarrow> 0 < sint p \<and> l \<noteq> 0"
  by (auto simp: check_target_def split: if_splits)

lemma free_lock_id: "limits_inv s \<Longrightarrow> s\<lparr>memory_limit_lock := False\<rparr> = s"
  by (simp add: limits_inv_def)

lemma add_refines:
  "spec_add env p l (limits (memory_limit_list s)) =
     map_prod (limits \<circ> memory_limit_list) id (so2_add_memory_limit env p l s)"
  by (simp add: add_cases spec_add_def lim.limit_push domIff find_entry_limits)

lemma update_refines:
  "spec_update env p l (limits (memory_limit_list s)) =
     map_prod (limits \<circ> memory_limit_list \<circ> fst) id (so2_update_memory_limit env set_errno p l (s, e))"
proof (cases "update_entry p l (memory_limit_list s)")
  case None
  then have "limits (memory_limit_list s) p = None"
    by (simp add: lim.modify_None find_entry_limits)
  with None show ?thesis by (simp add: update_cases spec_update_def domIff)
next
  case (Some es)
  then show ?thesis
    using lim.limit_modify[OF Some] update_entry_listed[OF Some]
    by (simp add: update_cases spec_update_def domIff find_entry_limits)
qed

lemma add_inv: "limits_inv s \<Longrightarrow> limits_inv (fst (so2_add_memory_limit env p l s))"
  using lim.wf_push[of "memory_limit_list s" p l] check_target_ok[of env p l]
  by (auto simp: add_cases limits_inv_def list_add_def)

lemma update_inv: "limits_inv s \<Longrightarrow> limits_inv (fst (fst (so2_update_memory_limit env set_errno p l (s, e))))"
  using check_target_ok[of env p l] lim.wf_modify[of "memory_limit_list s" p l]
    update_entry_set[of p l "memory_limit_list s"]
  by (fastforce simp: update_cases limits_inv_def split: option.splits)





section \<open>Reading the list out\<close>

text \<open>What \<open>kmalloc_array\<close> documents: no block, or one with as many slots as asked for.\<close>

definition kmalloc_array_ok :: "limits_env \<Rightarrow> bool" where
  "kmalloc_array_ok env \<longleftrightarrow> (\<forall>n sz buf. kmalloc_array env n sz = Some buf \<longrightarrow>
     length buf = n \<and> (\<forall>slot \<in> set buf. length slot = sz))"

text \<open>What a user program reads from one slot.\<close>

definition read_slot :: "u8 list \<Rightarrow> memory_limitation" where
  "read_slot bs = \<lparr>pid = le_word (field 0 4 bs), memory_limit = le_word (field 8 8 bs)\<rparr>"

lemma length_field: "length (field off n bs) = min n (length bs - off)"
  by (simp add: field_def)

lemma length_set_slot [simp]: "length slot = 32 \<Longrightarrow> length (set_slot e slot) = 32"
  by (simp add: set_slot_def length_field)

lemma read_set_slot [simp]: "length slot = 32 \<Longrightarrow> read_slot (set_slot e slot) = e"
  by (simp add: read_slot_def set_slot_def layout_simps length_field)

lemma links_set_slot: "length slot = 32 \<Longrightarrow> field 16 16 (set_slot e slot) = field 16 16 slot"
  by (simp add: set_slot_def layout_simps length_field)

lemma padding_set_slot: "length slot = 32 \<Longrightarrow> field 4 4 (set_slot e slot) = field 4 4 slot"
  by (simp add: set_slot_def layout_simps length_field)

lemma count_entries_eq: "count_entries es c = c + of_nat (length es)"
  by (induction es arbitrary: c) (auto simp: algebra_simps)

lemma fill_buffer_ok:
  assumes "unat c + length es < 2 ^ 64" and "min (unat max_entries) (unat c + length es) \<le> length buf"
    and "c \<le> max_entries"
  shows "\<exists>buf' k. fill_buffer max_entries es c buf = Inr (buf', c + of_nat k)
    \<and> k = min (length es) (unat max_entries - unat c) \<and> length buf' = length buf
    \<and> (\<forall>i < length buf. buf' ! i =
         (if unat c \<le> i \<and> i < unat c + k then set_slot (es ! (i - unat c)) (buf ! i) else buf ! i))"
  using assms
proof (induction es arbitrary: c buf)
  case Nil
  then show ?case by auto
next
  case (Cons e es)
  show ?case
  proof (cases "max_entries \<le> c")
    case True
    then have "unat max_entries - unat c = 0" by (simp add: word_le_nat_alt)
    with True show ?thesis by (intro exI[of _ buf] exI[of _ 0]) auto
  next
    case False
    then have lt: "unat c < unat max_entries" by (simp add: word_less_nat_alt not_le)
    have c1: "unat (c + 1) = unat c + 1"
      using Cons.prems(1) by (simp add: unat_add_64)
    let ?buf = "buf[unat c := set_slot e (buf ! unat c)]"
    have pre: "unat (c + 1) + length es < 2 ^ 64"
      "min (unat max_entries) (unat (c + 1) + length es) \<le> length ?buf" "c + 1 \<le> max_entries"
      using Cons.prems lt by (simp_all add: c1 word_le_nat_alt)
    have inb: "unat c < length buf" using Cons.prems(2) lt by auto
    from Cons.IH[OF pre] obtain buf' k where
      ih: "fill_buffer max_entries es (c + 1) ?buf = Inr (buf', c + 1 + of_nat k)"
        "k = min (length es) (unat max_entries - unat (c + 1))" "length buf' = length buf"
        "\<forall>i < length buf. buf' ! i = (if unat (c + 1) \<le> i \<and> i < unat (c + 1) + k
           then set_slot (es ! (i - unat (c + 1))) (?buf ! i) else ?buf ! i)"
      by auto
    have "fill_buffer max_entries (e # es) c buf = Inr (buf', c + of_nat (Suc k))"
      using False inb ih(1) by (simp add: algebra_simps)
    moreover have "Suc k = min (length (e # es)) (unat max_entries - unat c)"
      using ih(2) lt c1 by auto
    moreover have "\<forall>i < length buf. buf' ! i = (if unat c \<le> i \<and> i < unat c + Suc k
        then set_slot ((e # es) ! (i - unat c)) (buf ! i) else buf ! i)"
    proof (intro allI impI)
      fix i assume "i < length buf"
      then show "buf' ! i = (if unat c \<le> i \<and> i < unat c + Suc k
        then set_slot ((e # es) ! (i - unat c)) (buf ! i) else buf ! i)"
        using ih(4) by (cases "i = unat c") (auto simp: c1 nth_Cons')
    qed
    ultimately show ?thesis using ih(3) by blast
  qed
qed

lemma field_concat_slots:
  "\<forall>slot \<in> set buf. length slot = 32 \<Longrightarrow> i < length buf \<Longrightarrow> field (32 * i) 32 (concat buf) = buf ! i"
proof (induction buf arbitrary: i)
  case (Cons b bs)
  then show ?case
    by (cases i) (simp_all add: field_append_left field_append_right field_all)
qed simp

lemma length_concat_slots: "\<forall>slot \<in> set buf. length slot = 32 \<Longrightarrow> length (concat buf) = 32 * length buf"
  by (induction buf) auto

text \<open>The buffer the kernel builds: the first entries of the list, each in its slot.\<close>

lemma get_buffer:
  assumes "kmalloc_array_ok env" and "length es < 2 ^ 59" and "max_entries \<noteq> 0"
    and "kmalloc_array env (min (length es) (unat max_entries)) 32 = Some buf"
  obtains buf' where "fill_buffer max_entries es 0 buf = Inr (buf', of_nat (min (length es) (unat max_entries)))"
    "length buf' = min (length es) (unat max_entries)" "\<forall>slot \<in> set buf'. length slot = 32"
    "\<forall>i < min (length es) (unat max_entries). buf' ! i = set_slot (es ! i) (buf ! i)"
proof -
  have len: "length buf = min (length es) (unat max_entries)" "\<forall>slot \<in> set buf. length slot = 32"
    using assms(1,4) unfolding kmalloc_array_ok_def by blast+
  obtain buf' where b: "fill_buffer max_entries es 0 buf = Inr (buf', of_nat (min (length es) (unat max_entries)))"
    "length buf' = length buf"
    "\<forall>i < length buf. buf' ! i = set_slot (es ! i) (buf ! i)"
    using fill_buffer_ok[of 0 es max_entries buf] assms(2) len(1) by (auto simp: min.commute)
  have "\<forall>slot \<in> set buf'. length slot = 32"
    using b len(2) by (metis in_set_conv_nth length_set_slot)
  with b len(1) show ?thesis using that by auto
qed

lemma clamped_count:
  assumes "length es < 2 ^ 59"
  shows "unat (if count_entries es 0 > max_entries then max_entries else count_entries es 0)
       = min (length es) (unat max_entries)"
proof -
  have "unat (count_entries es 0) = length es"
    using assms by (simp add: count_entries_eq unat_of_nat_64)
  then show ?thesis by (auto simp: word_less_nat_alt)
qed

lemma get_run:
  assumes "kmalloc_array_ok env" and "length (memory_limit_list s) < 2 ^ 59"
    and "max_entries \<noteq> 0" and "p \<noteq> NULL" and "q \<noteq> NULL"
    and "kmalloc_array env (min (length (memory_limit_list s)) (unat max_entries)) 32 = Some buf"
  obtains bytes where
    "so2_get_memory_limits ua env p max_entries q (s, m) =
       (let (m1, left) = copy_to_user ua m p bytes
        in if left \<noteq> 0 then Inr ((s\<lparr>memory_limit_lock := False\<rparr>, m1), - EFAULT)
           else let (m2, r) = put_user ua m1 q
                      (le_bytes (ucast (of_nat (min (length (memory_limit_list s)) (unat max_entries)) :: u64) :: u32))
                in if r \<noteq> 0 then Inr ((s\<lparr>memory_limit_lock := False\<rparr>, m2), - EFAULT)
                   else Inr ((s\<lparr>memory_limit_lock := False\<rparr>, m2), 0))"
    "length bytes = 32 * min (length (memory_limit_list s)) (unat max_entries)"
    "\<forall>i < min (length (memory_limit_list s)) (unat max_entries).
       length (buf ! i) = 32 \<and> field (32 * i) 32 bytes = set_slot (memory_limit_list s ! i) (buf ! i)"
proof -
  let ?es = "memory_limit_list s" and ?n = "min (length (memory_limit_list s)) (unat max_entries)"
  obtain buf' where b: "fill_buffer max_entries ?es 0 buf = Inr (buf', of_nat ?n)"
    "length buf' = ?n" "\<forall>slot \<in> set buf'. length slot = 32"
    "\<forall>i < ?n. buf' ! i = set_slot (?es ! i) (buf ! i)"
    by (rule get_buffer[OF assms(1,2,3,6)])
  have "unat (of_nat ?n :: u64) = ?n"
    using assms(2) by (intro unat_of_nat_64) auto
  moreover have "unat ((of_nat ?n :: u64) * 32) = ?n * 32"
    using calculation assms(2) by (subst unat_mult_64) auto
  ultimately have whole: "take (unat ((of_nat ?n :: u64) * 32)) (concat buf') = concat buf'"
    using length_concat_slots[OF b(3)] b(2) by simp
  have slots: "\<forall>i < ?n. length (buf ! i) = 32 \<and> field (32 * i) 32 (concat buf') = set_slot (?es ! i) (buf ! i)"
    using field_concat_slots[OF b(3)] b(2,4) assms(1,6) unfolding kmalloc_array_ok_def
    by (metis nth_mem)
  have "so2_get_memory_limits ua env p max_entries q (s, m) =
       (let (m1, left) = copy_to_user ua m p (concat buf')
        in if left \<noteq> 0 then Inr ((s\<lparr>memory_limit_lock := False\<rparr>, m1), - EFAULT)
           else let (m2, r) = put_user ua m1 q (le_bytes (ucast (of_nat ?n :: u64) :: u32))
                in if r \<noteq> 0 then Inr ((s\<lparr>memory_limit_lock := False\<rparr>, m2), - EFAULT)
                   else Inr ((s\<lparr>memory_limit_lock := False\<rparr>, m2), 0))"
    using assms(3-6) b(1) whole clamped_count[OF assms(2), of max_entries]
    by (simp add: so2_get_memory_limits_def Let_def mutex_lock_def mutex_unlock_def case_prod_unfold cong: if_cong
        split del: if_split)
  with slots length_concat_slots[OF b(3)] b(2) show ?thesis using that by auto
qed

text \<open>The codes of the calls that stop before the buffer is filled.\<close>

lemma get_stops_early:
  assumes "length (memory_limit_list s) < 2 ^ 59"
    and "max_entries = 0 \<or> p = NULL \<or> q = NULL
      \<or> kmalloc_array env (min (length (memory_limit_list s)) (unat max_entries)) 32 = None"
  shows "\<exists>s'. so2_get_memory_limits ua env p max_entries q (s, m) =
    Inr ((s', m), if max_entries = 0 \<or> p = NULL \<or> q = NULL then - EINVAL else - ENOMEM)
    \<and> memory_limit_list s' = memory_limit_list s \<and> (memory_limit_lock s' \<longrightarrow> memory_limit_lock s)"
  using assms(2) clamped_count[OF assms(1), of max_entries]
  by (cases "max_entries = 0 \<or> p = NULL \<or> q = NULL")
    (auto simp: so2_get_memory_limits_def Let_def mutex_lock_def mutex_unlock_def
      split del: if_split cong: if_cong)



text \<open>
  C27. The slots that \<open>so2_get_memory_limits\<close> copies out are not cleared first. On success the
  user finds, in the padding (bytes 4 to 7) and in the link pointers (bytes 16 to 31) of every
  entry, whatever \<open>kmalloc_array\<close> left there.
\<close>

theorem get_memory_limits_leaks:
  assumes "uaccess_ok ua" and "kmalloc_array_ok env" and "limits_inv s"
    and "length (memory_limit_list s) < 2 ^ 31"
    and "n = min (length (memory_limit_list s)) (unat max_entries)"
    and "span p (32 * n) \<inter> span q 4 = {}"
    and "kmalloc_array env n 32 = Some buf"
    and "so2_get_memory_limits ua env p max_entries q (s, m) = Inr ((s', m'), 0)"
    and "i < n"
  shows "field 4 4 (field (32 * i) 32 (mem_read m' p (32 * n))) = field 4 4 (buf ! i)
    \<and> field 16 16 (field (32 * i) 32 (mem_read m' p (32 * n))) = field 16 16 (buf ! i)"
proof -
  have es: "length (memory_limit_list s) < 2 ^ 59" using assms(4) by simp
  have nz: "max_entries \<noteq> 0" "p \<noteq> NULL" "q \<noteq> NULL"
    using get_stops_early[OF es, of max_entries p q env ua m] assms(8) by auto
  obtain bytes where run:
    "so2_get_memory_limits ua env p max_entries q (s, m) =
       (let (m1, left) = copy_to_user ua m p bytes
        in if left \<noteq> 0 then Inr ((s, m1), - EFAULT)
           else let (m2, r) = put_user ua m1 q (le_bytes (ucast (of_nat n :: u64) :: u32))
                in if r \<noteq> 0 then Inr ((s, m2), - EFAULT) else Inr ((s, m2), 0))"
    "length bytes = 32 * n"
    "\<forall>i < n. length (buf ! i) = 32 \<and> field (32 * i) 32 bytes = set_slot (memory_limit_list s ! i) (buf ! i)"
    by (rule get_run[OF assms(2) es nz assms(7)[unfolded assms(5)],
          folded assms(5), unfolded free_lock_id[OF assms(3)]])
  obtain m1 where c: "copy_to_user ua m p bytes = (m1, 0)"
    and q: "put_user ua m1 q (le_bytes (ucast (of_nat n :: u64) :: u32)) = (m', 0)"
    using run(1) assms(8) by (auto split: prod.splits if_splits)
  have m': "m' = mem_write (mem_write m p bytes) q (le_bytes (ucast (of_nat n :: u64) :: u32))"
    using put_user_cases[OF assms(1) q] copy_to_user_success[OF assms(1) c] by fastforce
  have "mem_read m' p (32 * n) = bytes"
    unfolding m' using assms(4-6) run(2) by (simp add: mem_read_write_disjoint)
  then show ?thesis
    using run(3) assms(9) by (simp add: padding_set_slot links_set_slot)
qed

theorem get_memory_limits_leaks_witness:
  "let s = \<lparr>memory_limit_list = [\<lparr>pid = 7, memory_limit = 90\<rparr>], memory_limit_lock = False\<rparr>;
       env = \<lparr>pid_task = (\<lambda>_. None), capable_sys_admin = True, kmalloc_ok = True,
              kmalloc_array = (\<lambda>n sz. Some (replicate n (replicate sz 170)))\<rparr>
   in \<exists>m'. so2_get_memory_limits (flat_uaccess (\<lambda>_. True)) env 4096 5 8192 (s, \<lambda>_. 0) = Inr ((s, m'), 0)
        \<and> field 16 16 (field 0 32 (mem_read m' 4096 32)) = replicate 16 170"
proof -
  let ?s = "\<lparr>memory_limit_list = [\<lparr>pid = 7, memory_limit = 90\<rparr>], memory_limit_lock = False\<rparr>"
  let ?env = "\<lparr>pid_task = (\<lambda>_. None), capable_sys_admin = True, kmalloc_ok = True,
              kmalloc_array = (\<lambda>n sz. Some (replicate n (replicate sz 170)))\<rparr>"
  let ?ua = "flat_uaccess (\<lambda>_. True)"
  have inv: "limits_inv ?s" by (simp add: limits_inv_def unique_pids_def)
  have env: "kmalloc_array_ok ?env" by (simp add: kmalloc_array_ok_def)
  have disj: "span 4096 32 \<inter> span 8192 4 = ({} :: addr set)"
    by (rule span_disjoint) simp_all
  obtain m' where run: "so2_get_memory_limits ?ua ?env 4096 5 8192 (?s, \<lambda>_. 0) = Inr ((?s, m'), 0)"
    by (simp add: so2_get_memory_limits_def Let_def mutex_lock_def mutex_unlock_def flat_uaccess_total)
  have "field 16 16 (field (32 * 0) 32 (mem_read m' 4096 (32 * 1)))
      = field 16 16 ((replicate 1 (replicate 32 170) :: u8 list list) ! 0)"
    using get_memory_limits_leaks[OF flat_uaccess_ok env inv _ _ _ _ run, of 1 _ 0] disj by simp
  with run show ?thesis by (auto simp: Let_def field_def)
qed

section \<open>Histories\<close>

text \<open>A history is a sequence of calls, each with the environment it finds.\<close>

datatype limit_op =
  Add limits_env u32 u64
| Update limits_env u32 u64
| Get uaccess limits_env addr u64 addr umem

fun limit_step :: "limit_op \<Rightarrow> limits_state \<Rightarrow> limits_state" where
  "limit_step (Add env p l) s = fst (so2_add_memory_limit env p l s)"
| "limit_step (Update env p l) s = fst (fst (so2_update_memory_limit env (\<lambda>_ e. e) p l (s, ())))"
| "limit_step (Get ua env p n q m) s =
     (case so2_get_memory_limits ua env p n q (s, m) of Inl _ \<Rightarrow> s | Inr ((s', _), _) \<Rightarrow> s')"

text \<open>The specified effect of a call on the map.\<close>

fun spec_step :: "limit_op \<Rightarrow> (u32 \<rightharpoonup> u64) \<Rightarrow> (u32 \<rightharpoonup> u64)" where
  "spec_step (Add env p l) M = fst (spec_add env p l M)"
| "spec_step (Update env p l) M = fst (spec_update env p l M)"
| "spec_step (Get ua env p n q m) M = M"

lemma get_keeps:
  assumes "so2_get_memory_limits ua env p n q (s, m) = Inr ((s', m'), r)"
  shows "memory_limit_list s' = memory_limit_list s" "memory_limit_lock s' \<Longrightarrow> memory_limit_lock s"
  using assms
  by (auto simp: so2_get_memory_limits_def Let_def mutex_lock_def mutex_unlock_def
      split: if_splits option.splits sum.splits prod.splits)

lemma limit_step_inv: "limits_inv s \<Longrightarrow> limits_inv (limit_step x s)"
proof (cases x)
  case (Get ua env p n q m)
  then show "limits_inv s \<Longrightarrow> ?thesis"
    using get_keeps[of ua env p n q s m] by (fastforce simp: limits_inv_def split: sum.splits)
qed (simp_all add: add_inv update_inv)

interpretation hist: kept_invariant limit_step "\<lambda>_. True" limits_inv
  by unfold_locales (rule limit_step_inv)

lemma limit_step_refines:
  "limits (memory_limit_list (limit_step x s)) = spec_step x (limits (memory_limit_list s))"
proof (cases x)
  case (Get ua env p n q m)
  then show ?thesis using get_keeps(1)[of ua env p n q s m] by (auto split: sum.splits)
qed (simp_all add: add_refines update_refines[where set_errno = "\<lambda>_ e. e" and e = "()"])

lemma spec_step_dom: "dom M \<subseteq> dom (spec_step x M)"
  by (cases x) (auto simp: spec_add_def spec_update_def)

lemma spec_run_dom: "dom M \<subseteq> dom (fold spec_step xs M)"
proof (induction xs arbitrary: M)
  case (Cons x xs)
  show ?case using order_trans[OF spec_step_dom Cons.IH] by simp
qed simp

text \<open>
  C4. Over every history of calls, starting from the empty list, the invariant holds, the
  list represents the map that the specification computes, and a process once listed stays
  listed: no call of the built kernel removes an entry.
\<close>

theorem memory_limits_history:
  "let s0 = \<lparr>memory_limit_list = [], memory_limit_lock = False\<rparr>;
       s = fold limit_step xs s0
   in limits_inv s
    \<and> limits (memory_limit_list s) = fold spec_step xs Map.empty
    \<and> dom (limits (memory_limit_list s)) \<subseteq> dom (limits (memory_limit_list (fold limit_step ys s)))"
proof -
  have sim: "limits (memory_limit_list (fold limit_step zs t)) = fold spec_step zs (limits (memory_limit_list t))"
    for zs t
    by (induction zs arbitrary: t) (simp_all add: limit_step_refines)
  have "limits_inv \<lparr>memory_limit_list = [], memory_limit_lock = False\<rparr>"
    by (simp add: limits_inv_def unique_pids_def)
  then show ?thesis
    using hist.run_inv[of xs] spec_run_dom by (simp add: sim Let_def list_all_iff)
qed

end
