(* ===== verification/Credentials.thy ===== *)
theory Credentials
  imports Kernel_Prelude
begin

text \<open>
  User and group identity of a task (kernel/sys.c, \<open>setregid\<close> to \<open>setfsgid\<close>): the calls that
  change the real, effective, saved and filesystem ids, and the calls that report them.

  Outside code, the record \<open>setid_env\<close>: the id mappings of the user namespace, the
  capability test, the allocation of credentials and of a \<open>user_struct\<close>, the security
  hooks, the per-user counters, and \<open>commit_creds\<close>. \<open>setid_env_ok\<close> states what their
  documentation promises. Reference counts of credentials and users are left out.
\<close>

section \<open>State\<close>

text \<open>
  The ids are kernel ids (\<open>kuid_t\<close>, \<open>kgid_t\<close>), 32 bits wide; \<open>-1\<close> is no id. The user, the
  counters and the namespace are identified by number. Capability sets are bit masks.
\<close>

record cred =
  uid :: u32
  gid :: u32
  suid :: u32
  sgid :: u32
  euid :: u32
  egid :: u32
  fsuid :: u32
  fsgid :: u32
  cap_permitted :: u64
  cap_effective :: u64
  user :: nat
  ucounts :: nat
  user_ns :: nat

record ctask =
  tcred :: cred
  tflags :: u32

datatype lsm_setid = LSM_SETID_ID | LSM_SETID_RE | LSM_SETID_RES | LSM_SETID_FS

abbreviation CAP_SETGID :: nat where "CAP_SETGID \<equiv> 6"
abbreviation CAP_SETUID :: nat where "CAP_SETUID \<equiv> 7"
abbreviation PF_NPROC_EXCEEDED :: u32 where "PF_NPROC_EXCEEDED \<equiv> 0x1000"

text \<open>The id that means: leave this id alone.\<close>

abbreviation KEEP :: u32 where "KEEP \<equiv> - 1"

definition uid_valid :: "u32 \<Rightarrow> bool" where
  "uid_valid k \<longleftrightarrow> k \<noteq> - 1"

definition gid_valid :: "u32 \<Rightarrow> bool" where
  "gid_valid k \<longleftrightarrow> k \<noteq> - 1"

record setid_env =
  make_kuid :: "nat \<Rightarrow> u32 \<Rightarrow> u32"
  make_kgid :: "nat \<Rightarrow> u32 \<Rightarrow> u32"
  from_kuid_munged :: "nat \<Rightarrow> u32 \<Rightarrow> u32"
  from_kgid_munged :: "nat \<Rightarrow> u32 \<Rightarrow> u32"
  ns_capable_setid :: "cred \<Rightarrow> nat \<Rightarrow> nat \<Rightarrow> bool"
  prepare_creds :: "cred \<Rightarrow> cred option"
  alloc_uid :: "u32 \<Rightarrow> nat option"
  INIT_USER :: nat
  nproc_overlimit :: "nat \<Rightarrow> bool"
  security_task_fix_setuid :: "cred \<Rightarrow> cred \<Rightarrow> lsm_setid \<Rightarrow> cred \<times> int"
  security_task_fix_setgid :: "cred \<Rightarrow> cred \<Rightarrow> lsm_setid \<Rightarrow> cred \<times> int"
  set_cred_ucounts :: "cred \<Rightarrow> cred \<times> int"
  commit_creds :: "cred \<Rightarrow> ctask \<Rightarrow> ctask \<times> int"

section \<open>Group ids\<close>

text \<open>The common end of the three calls on group ids: hook, commit.\<close>

definition finish_setgid :: "setid_env \<Rightarrow> cred \<Rightarrow> lsm_setid \<Rightarrow> ctask \<Rightarrow> ctask \<times> int" where
  "finish_setgid env new how t =
     (let (new, retval) = security_task_fix_setgid env new (tcred t) how
      in if retval < 0 then (t, retval) else commit_creds env new t)"

definition sys_setregid :: "setid_env \<Rightarrow> u32 \<Rightarrow> u32 \<Rightarrow> ctask \<Rightarrow> ctask \<times> int" where
  "sys_setregid env rg eg t =
     (let old = tcred t;
          krgid = make_kgid env (user_ns old) rg;
          kegid = make_kgid env (user_ns old) eg
      in if rg \<noteq> KEEP \<and> \<not> gid_valid krgid then (t, - EINVAL)
         else if eg \<noteq> KEEP \<and> \<not> gid_valid kegid then (t, - EINVAL)
         else case prepare_creds env old of
           None \<Rightarrow> (t, - ENOMEM)
         | Some new \<Rightarrow>
           if rg \<noteq> KEEP \<and> \<not> (gid old = krgid \<or> egid old = krgid
                \<or> ns_capable_setid env old (user_ns old) CAP_SETGID) then (t, - EPERM)
           else (let new = (if rg \<noteq> KEEP then new\<lparr>gid := krgid\<rparr> else new)
             in if eg \<noteq> KEEP \<and> \<not> (gid old = kegid \<or> egid old = kegid \<or> sgid old = kegid
                  \<or> ns_capable_setid env old (user_ns old) CAP_SETGID) then (t, - EPERM)
             else (let new = (if eg \<noteq> KEEP then new\<lparr>egid := kegid\<rparr> else new);
                       new = (if rg \<noteq> KEEP \<or> eg \<noteq> KEEP \<and> kegid \<noteq> gid old
                              then new\<lparr>sgid := egid new\<rparr> else new);
                       new = new\<lparr>fsgid := egid new\<rparr>
                   in finish_setgid env new LSM_SETID_RE t)))"

definition sys_setgid :: "setid_env \<Rightarrow> u32 \<Rightarrow> ctask \<Rightarrow> ctask \<times> int" where
  "sys_setgid env g t =
     (let old = tcred t;
          kgid = make_kgid env (user_ns old) g
      in if \<not> gid_valid kgid then (t, - EINVAL)
         else case prepare_creds env old of
           None \<Rightarrow> (t, - ENOMEM)
         | Some new \<Rightarrow>
           if \<not> ns_capable_setid env old (user_ns old) CAP_SETGID \<and> kgid \<noteq> gid old \<and> kgid \<noteq> sgid old
           then (t, - EPERM)
           else (let new = (if ns_capable_setid env old (user_ns old) CAP_SETGID
                            then new\<lparr>gid := kgid, egid := kgid, sgid := kgid, fsgid := kgid\<rparr>
                            else new\<lparr>egid := kgid, fsgid := kgid\<rparr>)
                 in finish_setgid env new LSM_SETID_ID t))"

definition sys_setresgid :: "setid_env \<Rightarrow> u32 \<Rightarrow> u32 \<Rightarrow> u32 \<Rightarrow> ctask \<Rightarrow> ctask \<times> int" where
  "sys_setresgid env rg eg sg t =
     (let old = tcred t;
          krgid = make_kgid env (user_ns old) rg;
          kegid = make_kgid env (user_ns old) eg;
          ksgid = make_kgid env (user_ns old) sg
      in if rg \<noteq> KEEP \<and> \<not> gid_valid krgid then (t, - EINVAL)
         else if eg \<noteq> KEEP \<and> \<not> gid_valid kegid then (t, - EINVAL)
         else if sg \<noteq> KEEP \<and> \<not> gid_valid ksgid then (t, - EINVAL)
         else if (rg = KEEP \<or> krgid = gid old) \<and>
                 (eg = KEEP \<or> kegid = egid old \<and> kegid = fsgid old) \<and>
                 (sg = KEEP \<or> ksgid = sgid old) then (t, 0)
         else
           (let rgid_new = (rg \<noteq> KEEP \<and> krgid \<noteq> gid old \<and> krgid \<noteq> egid old \<and> krgid \<noteq> sgid old);
                egid_new = (eg \<noteq> KEEP \<and> kegid \<noteq> gid old \<and> kegid \<noteq> egid old \<and> kegid \<noteq> sgid old);
                sgid_new = (sg \<noteq> KEEP \<and> ksgid \<noteq> gid old \<and> ksgid \<noteq> egid old \<and> ksgid \<noteq> sgid old)
            in if (rgid_new \<or> egid_new \<or> sgid_new) \<and> \<not> ns_capable_setid env old (user_ns old) CAP_SETGID
               then (t, - EPERM)
               else case prepare_creds env old of
                 None \<Rightarrow> (t, - ENOMEM)
               | Some new \<Rightarrow>
                 (let new = (if rg \<noteq> KEEP then new\<lparr>gid := krgid\<rparr> else new);
                      new = (if eg \<noteq> KEEP then new\<lparr>egid := kegid\<rparr> else new);
                      new = (if sg \<noteq> KEEP then new\<lparr>sgid := ksgid\<rparr> else new);
                      new = new\<lparr>fsgid := egid new\<rparr>
                  in finish_setgid env new LSM_SETID_RES t)))"

text \<open>\<open>setfsgid\<close> returns the previous id whether or not it changed anything.\<close>

definition sys_setfsgid :: "setid_env \<Rightarrow> u32 \<Rightarrow> ctask \<Rightarrow> ctask \<times> int" where
  "sys_setfsgid env g t =
     (let old = tcred t;
          old_fsgid = uint (from_kgid_munged env (user_ns old) (fsgid old));
          kgid = make_kgid env (user_ns old) g
      in if \<not> gid_valid kgid then (t, old_fsgid)
         else case prepare_creds env old of
           None \<Rightarrow> (t, old_fsgid)
         | Some new \<Rightarrow>
           if (kgid = gid old \<or> kgid = egid old \<or> kgid = sgid old \<or> kgid = fsgid old
               \<or> ns_capable_setid env old (user_ns old) CAP_SETGID) \<and> kgid \<noteq> fsgid old
           then (let (new, retval) = security_task_fix_setgid env (new\<lparr>fsgid := kgid\<rparr>) old LSM_SETID_FS
                 in if retval = 0 then (fst (commit_creds env new t), old_fsgid) else (t, old_fsgid))
           else (t, old_fsgid))"

section \<open>User ids\<close>

definition set_user :: "setid_env \<Rightarrow> cred \<Rightarrow> cred \<times> int" where
  "set_user env new =
     (case alloc_uid env (uid new) of
        None \<Rightarrow> (new, - EAGAIN)
      | Some new_user \<Rightarrow> (new\<lparr>user := new_user\<rparr>, 0))"

definition flag_nproc_exceeded :: "setid_env \<Rightarrow> cred \<Rightarrow> ctask \<Rightarrow> ctask" where
  "flag_nproc_exceeded env new t =
     (if ucounts new = ucounts (tcred t) then t
      else if nproc_overlimit env (ucounts new) \<and> user new \<noteq> INIT_USER env
      then t\<lparr>tflags := tflags t OR PF_NPROC_EXCEEDED\<rparr>
      else t\<lparr>tflags := tflags t AND NOT PF_NPROC_EXCEEDED\<rparr>)"

text \<open>The common end of the three calls on user ids: hook, counters, flag, commit.\<close>

definition finish_setuid :: "setid_env \<Rightarrow> cred \<Rightarrow> lsm_setid \<Rightarrow> ctask \<Rightarrow> ctask \<times> int" where
  "finish_setuid env new how t =
     (let (new, retval) = security_task_fix_setuid env new (tcred t) how
      in if retval < 0 then (t, retval)
         else (let (new, retval) = set_cred_ucounts env new
               in if retval < 0 then (t, retval)
                  else commit_creds env new (flag_nproc_exceeded env new t)))"

definition sys_setreuid :: "setid_env \<Rightarrow> u32 \<Rightarrow> u32 \<Rightarrow> ctask \<Rightarrow> ctask \<times> int" where
  "sys_setreuid env ru eu t =
     (let old = tcred t;
          kruid = make_kuid env (user_ns old) ru;
          keuid = make_kuid env (user_ns old) eu
      in if ru \<noteq> KEEP \<and> \<not> uid_valid kruid then (t, - EINVAL)
         else if eu \<noteq> KEEP \<and> \<not> uid_valid keuid then (t, - EINVAL)
         else case prepare_creds env old of
           None \<Rightarrow> (t, - ENOMEM)
         | Some new \<Rightarrow>
           (let new = (if ru \<noteq> KEEP then new\<lparr>uid := kruid\<rparr> else new)
            in if ru \<noteq> KEEP \<and> uid old \<noteq> kruid \<and> euid old \<noteq> kruid
                  \<and> \<not> ns_capable_setid env old (user_ns old) CAP_SETUID then (t, - EPERM)
               else
           (let new = (if eu \<noteq> KEEP then new\<lparr>euid := keuid\<rparr> else new)
            in if eu \<noteq> KEEP \<and> uid old \<noteq> keuid \<and> euid old \<noteq> keuid \<and> suid old \<noteq> keuid
                  \<and> \<not> ns_capable_setid env old (user_ns old) CAP_SETUID then (t, - EPERM)
               else
           (let (new, retval) = (if uid new \<noteq> uid old then set_user env new else (new, 0))
            in if retval < 0 then (t, retval)
               else
           (let new = (if ru \<noteq> KEEP \<or> eu \<noteq> KEEP \<and> keuid \<noteq> uid old then new\<lparr>suid := euid new\<rparr> else new);
                new = new\<lparr>fsuid := euid new\<rparr>
            in finish_setuid env new LSM_SETID_RE t)))))"

definition sys_setuid :: "setid_env \<Rightarrow> u32 \<Rightarrow> ctask \<Rightarrow> ctask \<times> int" where
  "sys_setuid env u t =
     (let old = tcred t;
          kuid = make_kuid env (user_ns old) u
      in if \<not> uid_valid kuid then (t, - EINVAL)
         else case prepare_creds env old of
           None \<Rightarrow> (t, - ENOMEM)
         | Some new \<Rightarrow>
           if ns_capable_setid env old (user_ns old) CAP_SETUID
           then (let new = new\<lparr>uid := kuid, suid := kuid\<rparr>;
                     (new, retval) = (if kuid \<noteq> uid old then set_user env new else (new, 0))
                 in if retval < 0 then (t, retval)
                    else finish_setuid env (new\<lparr>euid := kuid, fsuid := kuid\<rparr>) LSM_SETID_ID t)
           else if kuid \<noteq> uid old \<and> kuid \<noteq> suid new then (t, - EPERM)
           else finish_setuid env (new\<lparr>euid := kuid, fsuid := kuid\<rparr>) LSM_SETID_ID t)"

definition sys_setresuid :: "setid_env \<Rightarrow> u32 \<Rightarrow> u32 \<Rightarrow> u32 \<Rightarrow> ctask \<Rightarrow> ctask \<times> int" where
  "sys_setresuid env ru eu su t =
     (let old = tcred t;
          kruid = make_kuid env (user_ns old) ru;
          keuid = make_kuid env (user_ns old) eu;
          ksuid = make_kuid env (user_ns old) su
      in if ru \<noteq> KEEP \<and> \<not> uid_valid kruid then (t, - EINVAL)
         else if eu \<noteq> KEEP \<and> \<not> uid_valid keuid then (t, - EINVAL)
         else if su \<noteq> KEEP \<and> \<not> uid_valid ksuid then (t, - EINVAL)
         else if (ru = KEEP \<or> kruid = uid old) \<and>
                 (eu = KEEP \<or> keuid = euid old \<and> keuid = fsuid old) \<and>
                 (su = KEEP \<or> ksuid = suid old) then (t, 0)
         else
           (let ruid_new = (ru \<noteq> KEEP \<and> kruid \<noteq> uid old \<and> kruid \<noteq> euid old \<and> kruid \<noteq> suid old);
                euid_new = (eu \<noteq> KEEP \<and> keuid \<noteq> uid old \<and> keuid \<noteq> euid old \<and> keuid \<noteq> suid old);
                suid_new = (su \<noteq> KEEP \<and> ksuid \<noteq> uid old \<and> ksuid \<noteq> euid old \<and> ksuid \<noteq> suid old)
            in if (ruid_new \<or> euid_new \<or> suid_new) \<and> \<not> ns_capable_setid env old (user_ns old) CAP_SETUID
               then (t, - EPERM)
               else case prepare_creds env old of
                 None \<Rightarrow> (t, - ENOMEM)
               | Some new \<Rightarrow>
                 (let (new, retval) =
                        (if ru \<noteq> KEEP
                         then (let new = new\<lparr>uid := kruid\<rparr>
                               in if kruid \<noteq> uid old then set_user env new else (new, 0))
                         else (new, 0))
                  in if retval < 0 then (t, retval)
                     else
                       (let new = (if eu \<noteq> KEEP then new\<lparr>euid := keuid\<rparr> else new);
                            new = (if su \<noteq> KEEP then new\<lparr>suid := ksuid\<rparr> else new);
                            new = new\<lparr>fsuid := euid new\<rparr>
                        in finish_setuid env new LSM_SETID_RES t))))"

definition sys_setfsuid :: "setid_env \<Rightarrow> u32 \<Rightarrow> ctask \<Rightarrow> ctask \<times> int" where
  "sys_setfsuid env u t =
     (let old = tcred t;
          old_fsuid = uint (from_kuid_munged env (user_ns old) (fsuid old));
          kuid = make_kuid env (user_ns old) u
      in if \<not> uid_valid kuid then (t, old_fsuid)
         else case prepare_creds env old of
           None \<Rightarrow> (t, old_fsuid)
         | Some new \<Rightarrow>
           if (kuid = uid old \<or> kuid = euid old \<or> kuid = suid old \<or> kuid = fsuid old
               \<or> ns_capable_setid env old (user_ns old) CAP_SETUID) \<and> kuid \<noteq> fsuid old
           then (let (new, retval) = security_task_fix_setuid env (new\<lparr>fsuid := kuid\<rparr>) old LSM_SETID_FS
                 in if retval = 0 then (fst (commit_creds env new t), old_fsuid) else (t, old_fsuid))
           else (t, old_fsuid))"

section \<open>Reporting the ids\<close>

definition put3 :: "uaccess \<Rightarrow> (addr \<times> u32) \<Rightarrow> (addr \<times> u32) \<Rightarrow> (addr \<times> u32) \<Rightarrow> umem \<Rightarrow> umem \<times> int" where
  "put3 ua = (\<lambda>(rp, r) (ep, e) (sp, s) m.
     let (m1, retval) = put_user ua m rp (le_bytes r)
     in if retval = 0
        then (let (m2, retval) = put_user ua m1 ep (le_bytes e)
              in if retval = 0 then put_user ua m2 sp (le_bytes s) else (m2, retval))
        else (m1, retval))"

definition sys_getresuid :: "uaccess \<Rightarrow> setid_env \<Rightarrow> addr \<Rightarrow> addr \<Rightarrow> addr \<Rightarrow> cred \<Rightarrow> umem \<Rightarrow> umem \<times> int" where
  "sys_getresuid ua env ruidp euidp suidp c m =
     put3 ua (ruidp, from_kuid_munged env (user_ns c) (uid c)) (euidp, from_kuid_munged env (user_ns c) (euid c))
       (suidp, from_kuid_munged env (user_ns c) (suid c)) m"

definition sys_getresgid :: "uaccess \<Rightarrow> setid_env \<Rightarrow> addr \<Rightarrow> addr \<Rightarrow> addr \<Rightarrow> cred \<Rightarrow> umem \<Rightarrow> umem \<times> int" where
  "sys_getresgid ua env rgidp egidp sgidp c m =
     put3 ua (rgidp, from_kgid_munged env (user_ns c) (gid c)) (egidp, from_kgid_munged env (user_ns c) (egid c))
       (sgidp, from_kgid_munged env (user_ns c) (sgid c)) m"

section \<open>The contract of the outside code\<close>

definition subcaps :: "u64 \<Rightarrow> u64 \<Rightarrow> bool" where
  "subcaps a b \<longleftrightarrow> (\<forall>i. bit a i \<longrightarrow> bit b i)"

text \<open>
  A security hook may refuse, and may take capabilities away or move permitted ones into the
  effective set; it changes nothing else.
\<close>

definition hook_ok :: "(cred \<Rightarrow> cred \<Rightarrow> lsm_setid \<Rightarrow> cred \<times> int) \<Rightarrow> bool" where
  "hook_ok hook \<longleftrightarrow> (\<forall>new old how. \<exists>p e r.
     hook new old how = (new\<lparr>cap_permitted := p, cap_effective := e\<rparr>, r) \<and> r \<le> 0
     \<and> subcaps p (cap_permitted new)
     \<and> (subcaps (cap_effective new) (cap_permitted new) \<longrightarrow> subcaps e p))"

text \<open>
  \<open>prepare_creds\<close> copies the current credentials; a task is capable in its own namespace only
  with the capability in its effective set; \<open>set_cred_ucounts\<close> touches only the counters;
  \<open>commit_creds\<close> installs the credentials and returns 0.
\<close>

definition setid_env_ok :: "setid_env \<Rightarrow> bool" where
  "setid_env_ok env \<longleftrightarrow>
     (\<forall>c new. prepare_creds env c = Some new \<longrightarrow> new = c)
   \<and> (\<forall>c cap. ns_capable_setid env c (user_ns c) cap \<longrightarrow> bit (cap_effective c) cap)
   \<and> hook_ok (security_task_fix_setuid env) \<and> hook_ok (security_task_fix_setgid env)
   \<and> (\<forall>new. \<exists>k r. set_cred_ucounts env new = (new\<lparr>ucounts := k\<rparr>, r) \<and> r \<le> 0)
   \<and> (\<forall>new t. commit_creds env new t = (t\<lparr>tcred := new\<rparr>, 0))"

lemma hook_result:
  assumes "hook_ok hook"
  obtains p e r where "hook new old how = (new\<lparr>cap_permitted := p, cap_effective := e\<rparr>, r)" "r \<le> 0"
    "subcaps p (cap_permitted new)"
    "subcaps (cap_effective new) (cap_permitted new) \<Longrightarrow> subcaps e p"
  using assms unfolding hook_ok_def by metis

lemma env_prepare: "setid_env_ok env \<Longrightarrow> prepare_creds env c = Some new \<Longrightarrow> new = c"
  and env_capable: "setid_env_ok env \<Longrightarrow> ns_capable_setid env c (user_ns c) cap \<Longrightarrow> bit (cap_effective c) cap"
  and env_hook_uid: "setid_env_ok env \<Longrightarrow> hook_ok (security_task_fix_setuid env)"
  and env_hook_gid: "setid_env_ok env \<Longrightarrow> hook_ok (security_task_fix_setgid env)"
  and env_commit: "setid_env_ok env \<Longrightarrow> commit_creds env new t = (t\<lparr>tcred := new\<rparr>, 0)"
  by (simp_all add: setid_env_ok_def)

lemma env_ucounts:
  assumes "setid_env_ok env"
  obtains k r where "set_cred_ucounts env new = (new\<lparr>ucounts := k\<rparr>, r)" "r \<le> 0"
  using assms unfolding setid_env_ok_def by meson

lemma flag_nproc_cred [simp]: "tcred (flag_nproc_exceeded env new t) = tcred t"
  by (simp add: flag_nproc_exceeded_def)

lemma finish_setuid_cases:
  assumes "setid_env_ok env"
  obtains (refused) r where "finish_setuid env new how t = (t, r)" "r < 0"
  | (committed) p e k where
      "finish_setuid env new how t =
         ((flag_nproc_exceeded env (new\<lparr>cap_permitted := p, cap_effective := e, ucounts := k\<rparr>) t)
            \<lparr>tcred := new\<lparr>cap_permitted := p, cap_effective := e, ucounts := k\<rparr>\<rparr>, 0)"
      "subcaps p (cap_permitted new)"
      "subcaps (cap_effective new) (cap_permitted new) \<Longrightarrow> subcaps e p"
proof -
  obtain p e r where h: "security_task_fix_setuid env new (tcred t) how
      = (new\<lparr>cap_permitted := p, cap_effective := e\<rparr>, r)" "r \<le> 0"
    "subcaps p (cap_permitted new)"
    "subcaps (cap_effective new) (cap_permitted new) \<Longrightarrow> subcaps e p"
    using hook_result[OF env_hook_uid[OF assms], of new "tcred t" how] by blast
  obtain k q where u: "set_cred_ucounts env (new\<lparr>cap_permitted := p, cap_effective := e\<rparr>)
      = (new\<lparr>cap_permitted := p, cap_effective := e, ucounts := k\<rparr>, q)" "q \<le> 0"
    using env_ucounts[OF assms, of "new\<lparr>cap_permitted := p, cap_effective := e\<rparr>"] by auto
  show ?thesis
  proof (cases "r < 0 \<or> q < 0")
    case True
    then have "finish_setuid env new how t = (t, if r < 0 then r else q)"
      using h(1) u(1) by (auto simp: finish_setuid_def)
    with True show ?thesis using refused[of "if r < 0 then r else q"] by auto
  next
    case False
    then have "finish_setuid env new how t =
         ((flag_nproc_exceeded env (new\<lparr>cap_permitted := p, cap_effective := e, ucounts := k\<rparr>) t)
            \<lparr>tcred := new\<lparr>cap_permitted := p, cap_effective := e, ucounts := k\<rparr>\<rparr>, 0)"
      using h(1) u(1) by (simp add: finish_setuid_def env_commit[OF assms])
    then show ?thesis using committed h(3,4) by blast
  qed
qed

lemma finish_setgid_cases:
  assumes "setid_env_ok env"
  obtains (refused) r where "finish_setgid env new how t = (t, r)" "r < 0"
  | (committed) p e where
      "finish_setgid env new how t = (t\<lparr>tcred := new\<lparr>cap_permitted := p, cap_effective := e\<rparr>\<rparr>, 0)"
      "subcaps p (cap_permitted new)"
      "subcaps (cap_effective new) (cap_permitted new) \<Longrightarrow> subcaps e p"
proof -
  obtain p e r where h: "security_task_fix_setgid env new (tcred t) how
      = (new\<lparr>cap_permitted := p, cap_effective := e\<rparr>, r)" "r \<le> 0"
    "subcaps p (cap_permitted new)"
    "subcaps (cap_effective new) (cap_permitted new) \<Longrightarrow> subcaps e p"
    using hook_result[OF env_hook_gid[OF assms], of new "tcred t" how] by blast
  show ?thesis
  proof (cases "r < 0")
    case True
    then show ?thesis using refused[of r] h(1) by (simp add: finish_setgid_def)
  next
    case False
    then have "finish_setgid env new how t = (t\<lparr>tcred := new\<lparr>cap_permitted := p, cap_effective := e\<rparr>\<rparr>, 0)"
      using h(1) by (simp add: finish_setgid_def env_commit[OF assms])
    then show ?thesis using committed h(3,4) by blast
  qed
qed

section \<open>What the calls do\<close>

text \<open>An id argument: the mapped id, or the old one.\<close>

definition chosen :: "u32 \<Rightarrow> u32 \<Rightarrow> u32 \<Rightarrow> u32" where
  "chosen a k old = (if a = KEEP then old else k)"

definition chosen_user :: "setid_env \<Rightarrow> cred \<Rightarrow> u32 \<Rightarrow> nat" where
  "chosen_user env c r = (if r = uid c then user c else the (alloc_uid env r))"

text \<open>
  The refusals of a call in their order, and the credentials with which it reaches its end
  when it does not refuse.
\<close>

lemma setreuid_eq:
  assumes ok: "setid_env_ok env" and c: "tcred t = c"
    and r: "r' = chosen r (make_kuid env (user_ns c) r) (uid c)"
    and e: "e' = chosen e (make_kuid env (user_ns c) e) (euid c)"
  shows "sys_setreuid env r e t =
    (if r \<noteq> KEEP \<and> \<not> uid_valid r' \<or> e \<noteq> KEEP \<and> \<not> uid_valid e' then (t, - EINVAL)
     else if prepare_creds env c = None then (t, - ENOMEM)
     else if \<not> ns_capable_setid env c (user_ns c) CAP_SETUID
             \<and> \<not> (r' \<in> {uid c, euid c} \<and> e' \<in> {uid c, euid c, suid c}) then (t, - EPERM)
     else if r' \<noteq> uid c \<and> alloc_uid env r' = None then (t, - EAGAIN)
     else finish_setuid env (c\<lparr>uid := r', euid := e',
            suid := (if r \<noteq> KEEP \<or> e \<noteq> KEEP \<and> e' \<noteq> uid c then e' else suid c),
            fsuid := e', user := chosen_user env c r'\<rparr>) LSM_SETID_RE t)"
proof (cases "prepare_creds env c")
  case None
  then show ?thesis by (simp add: sys_setreuid_def c r e chosen_def Let_def)
next
  case (Some new)
  then have p: "prepare_creds env c = Some c" using env_prepare[OF ok Some] by simp
  show ?thesis
    using p c r e by (cases c; cases "r = KEEP"; cases "e = KEEP"; cases "alloc_uid env r'")
      (auto simp: sys_setreuid_def chosen_def chosen_user_def set_user_def Let_def)
qed

lemma setuid_eq:
  assumes ok: "setid_env_ok env" and c: "tcred t = c" and k: "k = make_kuid env (user_ns c) u"
  shows "sys_setuid env u t =
    (if \<not> uid_valid k then (t, - EINVAL)
     else if prepare_creds env c = None then (t, - ENOMEM)
     else if ns_capable_setid env c (user_ns c) CAP_SETUID then
       (if k \<noteq> uid c \<and> alloc_uid env k = None then (t, - EAGAIN)
        else finish_setuid env (c\<lparr>uid := k, euid := k, suid := k, fsuid := k, user := chosen_user env c k\<rparr>) LSM_SETID_ID t)
     else if k \<notin> {uid c, suid c} then (t, - EPERM)
     else finish_setuid env (c\<lparr>euid := k, fsuid := k\<rparr>) LSM_SETID_ID t)"
proof (cases "prepare_creds env c")
  case None
  then show ?thesis by (simp add: sys_setuid_def c k Let_def)
next
  case (Some new)
  then have p: "prepare_creds env c = Some c" using env_prepare[OF ok Some] by simp
  show ?thesis
    using p c k by (cases c; cases "alloc_uid env k")
      (auto simp: sys_setuid_def chosen_user_def set_user_def Let_def)
qed

lemma setresuid_eq:
  assumes ok: "setid_env_ok env" and c: "tcred t = c"
    and r: "r' = chosen r (make_kuid env (user_ns c) r) (uid c)"
    and e: "e' = chosen e (make_kuid env (user_ns c) e) (euid c)"
    and s: "s' = chosen s (make_kuid env (user_ns c) s) (suid c)"
  shows "sys_setresuid env r e s t =
    (if r \<noteq> KEEP \<and> \<not> uid_valid r' then (t, - EINVAL)
     else if e \<noteq> KEEP \<and> \<not> uid_valid e' then (t, - EINVAL)
     else if s \<noteq> KEEP \<and> \<not> uid_valid s' then (t, - EINVAL)
     else if r' = uid c \<and> e' = euid c \<and> (e = KEEP \<or> e' = fsuid c) \<and> s' = suid c then (t, 0)
     else if \<not> {r', e', s'} \<subseteq> {uid c, euid c, suid c}
             \<and> \<not> ns_capable_setid env c (user_ns c) CAP_SETUID then (t, - EPERM)
     else if prepare_creds env c = None then (t, - ENOMEM)
     else if r' \<noteq> uid c \<and> alloc_uid env r' = None then (t, - EAGAIN)
     else finish_setuid env (c\<lparr>uid := r', euid := e', suid := s', fsuid := e', user := chosen_user env c r'\<rparr>) LSM_SETID_RES t)"
proof -
  let ?k = "make_kuid env (user_ns c)"
  have chosen_eqs: "(r = KEEP \<or> ?k r = uid c) = (r' = uid c)"
    "(e = KEEP \<or> ?k e = euid c \<and> ?k e = fsuid c) = (e' = euid c \<and> (e = KEEP \<or> e' = fsuid c))"
    "(s = KEEP \<or> ?k s = suid c) = (s' = suid c)"
    "(r \<noteq> KEEP \<and> \<not> uid_valid (?k r)) = (r \<noteq> KEEP \<and> \<not> uid_valid r')"
    "(e \<noteq> KEEP \<and> \<not> uid_valid (?k e)) = (e \<noteq> KEEP \<and> \<not> uid_valid e')"
    "(s \<noteq> KEEP \<and> \<not> uid_valid (?k s)) = (s \<noteq> KEEP \<and> \<not> uid_valid s')"
    "((r \<noteq> KEEP \<and> ?k r \<noteq> uid c \<and> ?k r \<noteq> euid c \<and> ?k r \<noteq> suid c)
      \<or> (e \<noteq> KEEP \<and> ?k e \<noteq> uid c \<and> ?k e \<noteq> euid c \<and> ?k e \<noteq> suid c)
      \<or> (s \<noteq> KEEP \<and> ?k s \<noteq> uid c \<and> ?k s \<noteq> euid c \<and> ?k s \<noteq> suid c))
     = (\<not> {r', e', s'} \<subseteq> {uid c, euid c, suid c})"
    "(if r \<noteq> KEEP then if ?k r \<noteq> uid c then set_user env (c\<lparr>uid := ?k r\<rparr>) else (c\<lparr>uid := ?k r\<rparr>, 0) else (c, 0))
     = (if r' \<noteq> uid c \<and> alloc_uid env r' = None then (c\<lparr>uid := r'\<rparr>, - EAGAIN)
        else (c\<lparr>uid := r', user := chosen_user env c r'\<rparr>, 0))"
    "(if e \<noteq> KEEP then d\<lparr>euid := ?k e\<rparr> else d) = d\<lparr>euid := chosen e (?k e) (euid d)\<rparr>"
    "(if s \<noteq> KEEP then d\<lparr>suid := ?k s\<rparr> else d) = d\<lparr>suid := chosen s (?k s) (suid d)\<rparr>" for d :: cred
    by (auto simp: r e s chosen_def chosen_user_def set_user_def)
  have p: "prepare_creds env c = Some new \<Longrightarrow> new = c" for new
    by (rule env_prepare[OF ok])
  have order: "d\<lparr>uid := r', euid := e', suid := s', fsuid := e', user := u\<rparr>
      = d\<lparr>uid := r', user := u, euid := e', suid := s', fsuid := e'\<rparr>" for d :: cred and u
    by simp
  show ?thesis
    unfolding sys_setresuid_def Let_def c chosen_eqs order
    using p by (cases "prepare_creds env c"; cases "r' \<noteq> uid c \<and> alloc_uid env r' = None")
      (auto simp: chosen_eqs Let_def e[symmetric] s[symmetric] split del: if_split cong: if_cong)
qed

lemma setregid_eq:
  assumes ok: "setid_env_ok env" and c: "tcred t = c"
    and r: "r' = chosen r (make_kgid env (user_ns c) r) (gid c)"
    and e: "e' = chosen e (make_kgid env (user_ns c) e) (egid c)"
  shows "sys_setregid env r e t =
    (if r \<noteq> KEEP \<and> \<not> gid_valid r' \<or> e \<noteq> KEEP \<and> \<not> gid_valid e' then (t, - EINVAL)
     else if prepare_creds env c = None then (t, - ENOMEM)
     else if \<not> ns_capable_setid env c (user_ns c) CAP_SETGID
             \<and> \<not> (r' \<in> {gid c, egid c} \<and> e' \<in> {gid c, egid c, sgid c}) then (t, - EPERM)
     else finish_setgid env (c\<lparr>gid := r', egid := e',
            sgid := (if r \<noteq> KEEP \<or> e \<noteq> KEEP \<and> e' \<noteq> gid c then e' else sgid c), fsgid := e'\<rparr>) LSM_SETID_RE t)"
proof (cases "prepare_creds env c")
  case None
  then show ?thesis by (simp add: sys_setregid_def c r e chosen_def Let_def)
next
  case (Some new)
  then have p: "prepare_creds env c = Some c" using env_prepare[OF ok Some] by simp
  show ?thesis
    using p c r e by (cases c; cases "r = KEEP"; cases "e = KEEP")
      (auto simp: sys_setregid_def chosen_def Let_def)
qed

lemma setgid_eq:
  assumes ok: "setid_env_ok env" and c: "tcred t = c" and k: "k = make_kgid env (user_ns c) g"
  shows "sys_setgid env g t =
    (if \<not> gid_valid k then (t, - EINVAL)
     else if prepare_creds env c = None then (t, - ENOMEM)
     else if ns_capable_setid env c (user_ns c) CAP_SETGID
     then finish_setgid env (c\<lparr>gid := k, egid := k, sgid := k, fsgid := k\<rparr>) LSM_SETID_ID t
     else if k \<notin> {gid c, sgid c} then (t, - EPERM)
     else finish_setgid env (c\<lparr>egid := k, fsgid := k\<rparr>) LSM_SETID_ID t)"
  using env_prepare[OF ok, of c]
  by (cases "prepare_creds env c") (auto simp: sys_setgid_def c k Let_def)

lemma setresgid_eq:
  assumes ok: "setid_env_ok env" and c: "tcred t = c"
    and r: "r' = chosen r (make_kgid env (user_ns c) r) (gid c)"
    and e: "e' = chosen e (make_kgid env (user_ns c) e) (egid c)"
    and s: "s' = chosen s (make_kgid env (user_ns c) s) (sgid c)"
  shows "sys_setresgid env r e s t =
    (if r \<noteq> KEEP \<and> \<not> gid_valid r' then (t, - EINVAL)
     else if e \<noteq> KEEP \<and> \<not> gid_valid e' then (t, - EINVAL)
     else if s \<noteq> KEEP \<and> \<not> gid_valid s' then (t, - EINVAL)
     else if r' = gid c \<and> e' = egid c \<and> (e = KEEP \<or> e' = fsgid c) \<and> s' = sgid c then (t, 0)
     else if \<not> {r', e', s'} \<subseteq> {gid c, egid c, sgid c}
             \<and> \<not> ns_capable_setid env c (user_ns c) CAP_SETGID then (t, - EPERM)
     else if prepare_creds env c = None then (t, - ENOMEM)
     else finish_setgid env (c\<lparr>gid := r', egid := e', sgid := s', fsgid := e'\<rparr>) LSM_SETID_RES t)"
proof -
  let ?k = "make_kgid env (user_ns c)"
  have chosen_eqs: "(r = KEEP \<or> ?k r = gid c) = (r' = gid c)"
    "(e = KEEP \<or> ?k e = egid c \<and> ?k e = fsgid c) = (e' = egid c \<and> (e = KEEP \<or> e' = fsgid c))"
    "(s = KEEP \<or> ?k s = sgid c) = (s' = sgid c)"
    "(r \<noteq> KEEP \<and> \<not> gid_valid (?k r)) = (r \<noteq> KEEP \<and> \<not> gid_valid r')"
    "(e \<noteq> KEEP \<and> \<not> gid_valid (?k e)) = (e \<noteq> KEEP \<and> \<not> gid_valid e')"
    "(s \<noteq> KEEP \<and> \<not> gid_valid (?k s)) = (s \<noteq> KEEP \<and> \<not> gid_valid s')"
    "((r \<noteq> KEEP \<and> ?k r \<noteq> gid c \<and> ?k r \<noteq> egid c \<and> ?k r \<noteq> sgid c)
      \<or> (e \<noteq> KEEP \<and> ?k e \<noteq> gid c \<and> ?k e \<noteq> egid c \<and> ?k e \<noteq> sgid c)
      \<or> (s \<noteq> KEEP \<and> ?k s \<noteq> gid c \<and> ?k s \<noteq> egid c \<and> ?k s \<noteq> sgid c))
     = (\<not> {r', e', s'} \<subseteq> {gid c, egid c, sgid c})"
    "(if r \<noteq> KEEP then d\<lparr>gid := ?k r\<rparr> else d) = d\<lparr>gid := chosen r (?k r) (gid d)\<rparr>"
    "(if e \<noteq> KEEP then d\<lparr>egid := ?k e\<rparr> else d) = d\<lparr>egid := chosen e (?k e) (egid d)\<rparr>"
    "(if s \<noteq> KEEP then d\<lparr>sgid := ?k s\<rparr> else d) = d\<lparr>sgid := chosen s (?k s) (sgid d)\<rparr>" for d :: cred
    by (auto simp: r e s chosen_def)
  have p: "prepare_creds env c = Some new \<Longrightarrow> new = c" for new
    by (rule env_prepare[OF ok])
  show ?thesis
    unfolding sys_setresgid_def Let_def c chosen_eqs
    using p by (cases "prepare_creds env c")
      (auto simp: chosen_eqs Let_def r[symmetric] e[symmetric] s[symmetric] split del: if_split cong: if_cong)
qed

lemma setfsuid_cases:
  assumes ok: "setid_env_ok env" and c: "tcred t = c"
  obtains (kept) "fst (sys_setfsuid env u t) = t"
  | (set) k p e where "fst (sys_setfsuid env u t) = t\<lparr>tcred := c\<lparr>fsuid := k, cap_permitted := p, cap_effective := e\<rparr>\<rparr>"
      "k \<in> {uid c, euid c, suid c} \<or> ns_capable_setid env c (user_ns c) CAP_SETUID"
      "subcaps p (cap_permitted c)" "subcaps (cap_effective c) (cap_permitted c) \<Longrightarrow> subcaps e p"
proof -
  let ?k = "make_kuid env (user_ns c) u"
  obtain p e r where h: "security_task_fix_setuid env (c\<lparr>fsuid := ?k\<rparr>) c LSM_SETID_FS
      = (c\<lparr>fsuid := ?k, cap_permitted := p, cap_effective := e\<rparr>, r)"
    "subcaps p (cap_permitted c)" "subcaps (cap_effective c) (cap_permitted c) \<Longrightarrow> subcaps e p"
    by (rule hook_result[OF env_hook_uid[OF ok], of "c\<lparr>fsuid := ?k\<rparr>" c LSM_SETID_FS]) auto
  let ?go = "uid_valid ?k \<and> prepare_creds env c = Some c \<and> ?k \<noteq> fsuid c \<and> r = 0 \<and>
    (?k \<in> {uid c, euid c, suid c} \<or> ns_capable_setid env c (user_ns c) CAP_SETUID)"
  have "fst (sys_setfsuid env u t) =
      (if ?go then t\<lparr>tcred := c\<lparr>fsuid := ?k, cap_permitted := p, cap_effective := e\<rparr>\<rparr> else t)"
    using h(1) env_prepare[OF ok, of c]
    by (cases "prepare_creds env c") (auto simp: sys_setfsuid_def c Let_def env_commit[OF ok])
  then show ?thesis
    using kept set[where k = ?k and p = p and e = e] h(2,3) by (cases ?go) auto
qed

lemma setfsgid_cases:
  assumes ok: "setid_env_ok env" and c: "tcred t = c"
  obtains (kept) "fst (sys_setfsgid env g t) = t"
  | (set) k p e where "fst (sys_setfsgid env g t) = t\<lparr>tcred := c\<lparr>fsgid := k, cap_permitted := p, cap_effective := e\<rparr>\<rparr>"
      "k \<in> {gid c, egid c, sgid c} \<or> ns_capable_setid env c (user_ns c) CAP_SETGID"
      "subcaps p (cap_permitted c)" "subcaps (cap_effective c) (cap_permitted c) \<Longrightarrow> subcaps e p"
proof -
  let ?k = "make_kgid env (user_ns c) g"
  obtain p e r where h: "security_task_fix_setgid env (c\<lparr>fsgid := ?k\<rparr>) c LSM_SETID_FS
      = (c\<lparr>fsgid := ?k, cap_permitted := p, cap_effective := e\<rparr>, r)"
    "subcaps p (cap_permitted c)" "subcaps (cap_effective c) (cap_permitted c) \<Longrightarrow> subcaps e p"
    by (rule hook_result[OF env_hook_gid[OF ok], of "c\<lparr>fsgid := ?k\<rparr>" c LSM_SETID_FS]) auto
  let ?go = "gid_valid ?k \<and> prepare_creds env c = Some c \<and> ?k \<noteq> fsgid c \<and> r = 0 \<and>
    (?k \<in> {gid c, egid c, sgid c} \<or> ns_capable_setid env c (user_ns c) CAP_SETGID)"
  have "fst (sys_setfsgid env g t) =
      (if ?go then t\<lparr>tcred := c\<lparr>fsgid := ?k, cap_permitted := p, cap_effective := e\<rparr>\<rparr> else t)"
    using h(1) env_prepare[OF ok, of c]
    by (cases "prepare_creds env c") (auto simp: sys_setfsgid_def c Let_def env_commit[OF ok])
  then show ?thesis
    using kept set[where k = ?k and p = p and e = e] h(2,3) by (cases ?go) auto
qed

section \<open>Confinement\<close>

text \<open>
  A task is confined to the user ids \<open>S\<close> and the group ids \<open>G\<close> when all its ids are among
  them and neither identity capability is permitted to it.
\<close>

definition confined :: "u32 set \<Rightarrow> u32 set \<Rightarrow> cred \<Rightarrow> bool" where
  "confined S G c \<longleftrightarrow>
     uid c \<in> S \<and> euid c \<in> S \<and> suid c \<in> S \<and> fsuid c \<in> S \<and>
     gid c \<in> G \<and> egid c \<in> G \<and> sgid c \<in> G \<and> fsgid c \<in> G \<and>
     \<not> bit (cap_permitted c) CAP_SETUID \<and> \<not> bit (cap_permitted c) CAP_SETGID \<and>
     subcaps (cap_effective c) (cap_permitted c)"

lemma confined_not_capable:
  assumes "setid_env_ok env" and "confined S G c"
  shows "\<not> ns_capable_setid env c (user_ns c) CAP_SETUID" "\<not> ns_capable_setid env c (user_ns c) CAP_SETGID"
  using assms env_capable[OF assms(1), of c] unfolding confined_def subcaps_def by blast+

lemma confined_caps:
  "confined S G c \<Longrightarrow> subcaps p (cap_permitted c) \<Longrightarrow> subcaps e p \<Longrightarrow>
   confined S G (c\<lparr>cap_permitted := p, cap_effective := e\<rparr>)"
  by (auto simp: confined_def subcaps_def)

lemma confined_more [simp]:
  "confined S G (c\<lparr>ucounts := k\<rparr>) = confined S G c"
  "confined S G (c\<lparr>user := u\<rparr>) = confined S G c"
  by (simp_all add: confined_def)

lemma confined_subcaps: "confined S G c \<Longrightarrow> subcaps (cap_effective c) (cap_permitted c)"
  by (simp add: confined_def)

lemma confined_finish:
  assumes "setid_env_ok env" and "confined S G (tcred t)" and "confined S G new"
  shows "confined S G (tcred (fst (finish_setuid env new how t)))"
  using assms(1)
proof (cases rule: finish_setuid_cases[of env new how t])
  case (committed p e k)
  then show ?thesis using assms(3) by (simp add: confined_caps confined_subcaps)
qed (use assms in simp_all)

lemma confined_finish_gid:
  assumes "setid_env_ok env" and "confined S G (tcred t)" and "confined S G new"
  shows "confined S G (tcred (fst (finish_setgid env new how t)))"
  using assms(1)
proof (cases rule: finish_setgid_cases[of env new how t])
  case (committed p e)
  then show ?thesis using assms(3) by (simp add: confined_caps confined_subcaps)
qed (use assms in simp_all)

text \<open>The eight calls, and what each leaves of a confined task.\<close>

datatype setid_call =
  Setregid u32 u32 | Setgid u32 | Setresgid u32 u32 u32 | Setfsgid u32
| Setreuid u32 u32 | Setuid u32 | Setresuid u32 u32 u32 | Setfsuid u32

fun do_setid :: "setid_env \<Rightarrow> setid_call \<Rightarrow> ctask \<Rightarrow> ctask \<times> int" where
  "do_setid env (Setregid r e) t = sys_setregid env r e t"
| "do_setid env (Setgid g) t = sys_setgid env g t"
| "do_setid env (Setresgid r e s) t = sys_setresgid env r e s t"
| "do_setid env (Setfsgid g) t = sys_setfsgid env g t"
| "do_setid env (Setreuid r e) t = sys_setreuid env r e t"
| "do_setid env (Setuid u) t = sys_setuid env u t"
| "do_setid env (Setresuid r e s) t = sys_setresuid env r e s t"
| "do_setid env (Setfsuid u) t = sys_setfsuid env u t"

lemma confined_ids [intro]:
  "confined S G c \<Longrightarrow> k \<in> S \<Longrightarrow> confined S G (c\<lparr>uid := k\<rparr>)"
  "confined S G c \<Longrightarrow> k \<in> S \<Longrightarrow> confined S G (c\<lparr>euid := k\<rparr>)"
  "confined S G c \<Longrightarrow> k \<in> S \<Longrightarrow> confined S G (c\<lparr>suid := k\<rparr>)"
  "confined S G c \<Longrightarrow> k \<in> S \<Longrightarrow> confined S G (c\<lparr>fsuid := k\<rparr>)"
  "confined S G c \<Longrightarrow> k \<in> G \<Longrightarrow> confined S G (c\<lparr>gid := k\<rparr>)"
  "confined S G c \<Longrightarrow> k \<in> G \<Longrightarrow> confined S G (c\<lparr>egid := k\<rparr>)"
  "confined S G c \<Longrightarrow> k \<in> G \<Longrightarrow> confined S G (c\<lparr>sgid := k\<rparr>)"
  "confined S G c \<Longrightarrow> k \<in> G \<Longrightarrow> confined S G (c\<lparr>fsgid := k\<rparr>)"
  by (simp_all add: confined_def)

lemma confined_members:
  assumes "confined S G c"
  shows "uid c \<in> S" "euid c \<in> S" "suid c \<in> S" "fsuid c \<in> S"
    "gid c \<in> G" "egid c \<in> G" "sgid c \<in> G" "fsgid c \<in> G"
  using assms by (simp_all add: confined_def)

text \<open>
  The result of a call on a task confined by \<open>S\<close> and \<open>G\<close>: it is confined if every branch is.
\<close>

definition stays :: "u32 set \<Rightarrow> u32 set \<Rightarrow> ctask \<times> int \<Rightarrow> bool" where
  "stays S G res \<longleftrightarrow> confined S G (tcred (fst res))"

lemma stays_intros:
  "confined S G (tcred t) \<Longrightarrow> stays S G (t, r)"
  "(b \<Longrightarrow> stays S G x) \<Longrightarrow> (\<not> b \<Longrightarrow> stays S G y) \<Longrightarrow> stays S G (if b then x else y)"
  "setid_env_ok env \<Longrightarrow> confined S G (tcred t) \<Longrightarrow> confined S G new \<Longrightarrow> stays S G (finish_setuid env new how t)"
  "setid_env_ok env \<Longrightarrow> confined S G (tcred t) \<Longrightarrow> confined S G new \<Longrightarrow> stays S G (finish_setgid env new how t)"
  by (simp_all add: stays_def confined_finish confined_finish_gid)

lemma if_member: "a \<in> S \<Longrightarrow> b \<in> S \<Longrightarrow> (if P then a else b) \<in> S"
  by simp

lemma allowed_member:
  assumes "\<not> (\<not> X \<subseteq> {a, b, c} \<and> \<not> cap)"
  shows "\<not> cap \<Longrightarrow> a \<in> S \<Longrightarrow> b \<in> S \<Longrightarrow> c \<in> S \<Longrightarrow> x \<in> X \<Longrightarrow> x \<in> S"
  using assms by blast

lemma do_setid_confined:
  assumes ok: "setid_env_ok env" and c: "confined S G (tcred t)"
  shows "stays S G (do_setid env x t)"
proof -
  note no = confined_not_capable[OF ok c]
  note ids = confined_members[OF c]
  note intros = stays_intros ok c confined_ids if_member confined_more[THEN iffD2]
  show ?thesis
  proof (cases x)
    case (Setregid r e)
    show ?thesis
      unfolding Setregid do_setid.simps setregid_eq[OF ok refl refl refl]
      by (intro intros) (use no ids in auto)
  next
    case (Setgid g)
    show ?thesis
      unfolding Setgid do_setid.simps setgid_eq[OF ok refl refl]
      by (intro intros) (use no ids in auto)
  next
    case (Setresgid r e s)
    show ?thesis
      unfolding Setresgid do_setid.simps setresgid_eq[OF ok refl refl refl refl]
      by (intro intros; elim allowed_member) (use no ids in simp_all)
  next
    case (Setfsgid g)
    show ?thesis
      by (rule setfsgid_cases[OF ok refl, where t = t and g = g])
        (use Setfsgid no ids c in \<open>auto intro!: confined_caps confined_ids simp: stays_def confined_subcaps\<close>)
  next
    case (Setreuid r e)
    show ?thesis
      unfolding Setreuid do_setid.simps setreuid_eq[OF ok refl refl refl]
      by (intro intros) (use no ids in auto)
  next
    case (Setuid u)
    show ?thesis
      unfolding Setuid do_setid.simps setuid_eq[OF ok refl refl]
      by (intro intros) (use no ids in auto)
  next
    case (Setresuid r e s)
    show ?thesis
      unfolding Setresuid do_setid.simps setresuid_eq[OF ok refl refl refl refl]
      by (intro intros; elim allowed_member) (use no ids in simp_all)
  next
    case (Setfsuid u)
    show ?thesis
      by (rule setfsuid_cases[OF ok refl, where t = t and u = u])
        (use Setfsuid no ids c in \<open>auto intro!: confined_caps confined_ids simp: stays_def confined_subcaps\<close>)
  qed
qed

text \<open>A history: calls, each with the environment it finds.\<close>

definition setid_step :: "setid_env \<times> setid_call \<Rightarrow> ctask \<Rightarrow> ctask" where
  "setid_step x t = fst (do_setid (fst x) (snd x) t)"

interpretation ids: kept_invariant setid_step "\<lambda>x. setid_env_ok (fst x)" "\<lambda>t. confined S G (tcred t)" for S G
  by unfold_locales (use do_setid_confined in \<open>simp add: setid_step_def stays_def\<close>)

text \<open>
  C1. A task without the identity capabilities cannot reach a foreign id: after any sequence of
  the eight calls, in any environments that satisfy the contract, its real, effective, saved
  and filesystem ids are among those it started with.
\<close>

theorem unprivileged_setid_confined:
  assumes "list_all (\<lambda>x. setid_env_ok (fst x)) xs"
    and "\<not> bit (cap_permitted (tcred t)) CAP_SETUID" and "\<not> bit (cap_permitted (tcred t)) CAP_SETGID"
    and "subcaps (cap_effective (tcred t)) (cap_permitted (tcred t))"
  shows "let c = tcred t; c' = tcred (fold setid_step xs t)
    in {uid c', euid c', suid c', fsuid c'} \<subseteq> {uid c, euid c, suid c, fsuid c}
     \<and> {gid c', egid c', sgid c', fsgid c'} \<subseteq> {gid c, egid c, sgid c, fsgid c}"
proof -
  let ?c = "tcred t"
  have "confined {uid ?c, euid ?c, suid ?c, fsuid ?c} {gid ?c, egid ?c, sgid ?c, fsgid ?c} ?c"
    using assms(2-4) by (simp add: confined_def)
  from ids.run_inv[OF assms(1) this] show ?thesis
    by (simp add: Let_def confined_def)
qed

text \<open>A concrete environment: identity id maps, a capability test on the effective set, a hook
  that takes all capabilities away when no user id is 0, and allocations that succeed.\<close>

definition plain_hook :: "cred \<Rightarrow> cred \<Rightarrow> lsm_setid \<Rightarrow> cred \<times> int" where
  "plain_hook new old how =
     (if how \<noteq> LSM_SETID_FS \<and> uid new \<noteq> 0 \<and> euid new \<noteq> 0 \<and> suid new \<noteq> 0
      then (new\<lparr>cap_permitted := 0, cap_effective := 0\<rparr>, 0) else (new, 0))"

definition plain_env :: setid_env where
  "plain_env = \<lparr>make_kuid = (\<lambda>_ u. u), make_kgid = (\<lambda>_ g. g), from_kuid_munged = (\<lambda>_ u. u),
     from_kgid_munged = (\<lambda>_ g. g), ns_capable_setid = (\<lambda>c _ cap. bit (cap_effective c) cap),
     prepare_creds = Some, alloc_uid = (\<lambda>u. Some (unat u)), INIT_USER = 0, nproc_overlimit = (\<lambda>k. k = 5),
     security_task_fix_setuid = plain_hook, security_task_fix_setgid = (\<lambda>new _ _. (new, 0)),
     set_cred_ucounts = (\<lambda>new. (new\<lparr>ucounts := user new\<rparr>, 0)), commit_creds = (\<lambda>new t. (t\<lparr>tcred := new\<rparr>, 0))\<rparr>"

lemma plain_hook_ok: "hook_ok plain_hook"
  unfolding hook_ok_def
proof (intro allI)
  fix new old how
  show "\<exists>p e r. plain_hook new old how = (new\<lparr>cap_permitted := p, cap_effective := e\<rparr>, r) \<and> r \<le> 0
     \<and> subcaps p (cap_permitted new) \<and> (subcaps (cap_effective new) (cap_permitted new) \<longrightarrow> subcaps e p)"
  proof (cases "how \<noteq> LSM_SETID_FS \<and> uid new \<noteq> 0 \<and> euid new \<noteq> 0 \<and> suid new \<noteq> 0")
    case True
    then show ?thesis
      by (intro exI[of _ 0]) (simp add: plain_hook_def subcaps_def)
  next
    case False
    show ?thesis
      by (rule exI[of _ "cap_permitted new"], rule exI[of _ "cap_effective new"], rule exI[of _ 0])
        (use False in \<open>auto simp: plain_hook_def subcaps_def\<close>)
  qed
qed

lemma keep_hook_ok: "hook_ok (\<lambda>new _ _. (new, 0))"
  unfolding hook_ok_def
proof (intro allI)
  fix new :: cred
  show "\<exists>p e r. (new, 0 :: int) = (new\<lparr>cap_permitted := p, cap_effective := e\<rparr>, r) \<and> r \<le> 0
     \<and> subcaps p (cap_permitted new) \<and> (subcaps (cap_effective new) (cap_permitted new) \<longrightarrow> subcaps e p)"
    by (rule exI[of _ "cap_permitted new"], rule exI[of _ "cap_effective new"], rule exI[of _ 0])
      (auto simp: subcaps_def)
qed

lemma plain_env_ok: "setid_env_ok plain_env"
  by (auto simp: setid_env_ok_def plain_env_def plain_hook_ok keep_hook_ok)

definition plain_task :: "u32 \<Rightarrow> u32 \<Rightarrow> u64 \<Rightarrow> ctask" where
  "plain_task u e caps = \<lparr>tcred = \<lparr>uid = u, gid = u, suid = e, sgid = u, euid = e, egid = u, fsuid = e, fsgid = u,
     cap_permitted = caps, cap_effective = caps, user = unat u, ucounts = unat u, user_ns = 0\<rparr>, tflags = 0\<rparr>"

lemmas plain_simps = plain_env_def plain_hook_def plain_task_def finish_setuid_def finish_setgid_def set_user_def
  flag_nproc_exceeded_def uid_valid_def gid_valid_def Let_def

theorem unprivileged_setid_confined_witness:
  "let t = plain_task 1000 33 0; xs = [(plain_env, Setreuid 33 1000), (plain_env, Setuid 0), (plain_env, Setresuid 1000 33 33)];
       c' = tcred (fold setid_step xs t)
   in {uid c', euid c', suid c', fsuid c'} \<subseteq> {1000, 33} \<and> uid c' = 1000 \<and> euid c' = 33"
proof -
  let ?xs = "[(plain_env, Setreuid 33 1000), (plain_env, Setuid 0), (plain_env, Setresuid 1000 33 33)]"
  have "list_all (\<lambda>x. setid_env_ok (fst x)) ?xs" by (simp add: plain_env_ok)
  note unprivileged_setid_confined[OF this, of "plain_task 1000 33 0"]
  moreover have "let c' = tcred (fold setid_step ?xs (plain_task 1000 33 0)) in uid c' = 1000 \<and> euid c' = 33"
    by code_simp
  ultimately show ?thesis
    by (simp add: plain_task_def subcaps_def Let_def)
qed

section \<open>Refused calls\<close>

definition clean :: "ctask \<Rightarrow> ctask \<times> int \<Rightarrow> bool" where
  "clean t res \<longleftrightarrow> (snd res < 0 \<longrightarrow> fst res = t)"

lemma clean_finish:
  assumes "setid_env_ok env"
  shows "clean t (finish_setuid env new how t)" "clean t (finish_setgid env new how t)"
  using finish_setuid_cases[OF assms, of new how t "clean t (finish_setuid env new how t)"]
    finish_setgid_cases[OF assms, of new how t "clean t (finish_setgid env new how t)"]
  by (auto simp: clean_def)

lemma clean_intros:
  "clean t (t, r)"
  "(b \<Longrightarrow> clean t x) \<Longrightarrow> (\<not> b \<Longrightarrow> clean t y) \<Longrightarrow> clean t (if b then x else y)"
  by (simp_all add: clean_def)

lemma setfs_nonneg: "0 \<le> snd (sys_setfsuid env u t)" "0 \<le> snd (sys_setfsgid env g t)"
  by (auto simp: sys_setfsuid_def sys_setfsgid_def Let_def split: option.split prod.split)



section \<open>Dropping privilege\<close>

lemma setuid_privileged:
  assumes ok: "setid_env_ok env" and cap: "ns_capable_setid env (tcred t) (user_ns (tcred t)) CAP_SETUID"
    and sub: "subcaps (cap_effective (tcred t)) (cap_permitted (tcred t))"
    and run: "sys_setuid env u t = (t', 0)"
    and k: "k = make_kuid env (user_ns (tcred t)) u" and c': "c' = tcred t'"
  shows "uid c' = k \<and> euid c' = k \<and> suid c' = k \<and> fsuid c' = k \<and> gid c' = gid (tcred t) \<and> egid c' = egid (tcred t)
    \<and> sgid c' = sgid (tcred t) \<and> fsgid c' = fsgid (tcred t) \<and> subcaps (cap_effective c') (cap_permitted c')"
proof -
  let ?new = "tcred t\<lparr>uid := k, euid := k, suid := k, fsuid := k, user := chosen_user env (tcred t) k\<rparr>"
  have fin: "finish_setuid env ?new LSM_SETID_ID t = (t', 0)"
    using run cap unfolding setuid_eq[OF ok refl k] by (auto split: if_splits)
  show ?thesis
    using ok
  proof (cases rule: finish_setuid_cases[of env ?new LSM_SETID_ID t])
    case (committed p e n)
    then show ?thesis using fin sub by (auto simp: c')
  qed (use fin in simp)
qed

text \<open>
  C7. \<open>setuid\<close> by a privileged task is a complete drop: when it returns 0, all four user ids are
  the requested one, and if the security hook has taken the identity capabilities away, no
  later sequence of the calls changes any of the four again.
\<close>

theorem setuid_drops_for_good:
  assumes "setid_env_ok env" and "ns_capable_setid env (tcred t) (user_ns (tcred t)) CAP_SETUID"
    and "subcaps (cap_effective (tcred t)) (cap_permitted (tcred t))"
    and "sys_setuid env u t = (t', 0)" and "k = make_kuid env (user_ns (tcred t)) u"
    and "\<not> bit (cap_permitted (tcred t')) CAP_SETUID" and "\<not> bit (cap_permitted (tcred t')) CAP_SETGID"
    and "list_all (\<lambda>x. setid_env_ok (fst x)) xs"
  shows "let c = tcred (fold setid_step xs t') in uid c = k \<and> euid c = k \<and> suid c = k \<and> fsuid c = k"
proof -
  have "confined {k} UNIV (tcred t')"
    using setuid_privileged[OF assms(1-5) refl] assms(6,7) by (simp add: confined_def)
  from ids.run_inv[OF assms(8) this] show ?thesis
    by (simp add: confined_def Let_def)
qed

theorem setuid_drops_for_good_witness:
  "let t = plain_task 0 0 0xC0; t' = fst (sys_setuid plain_env 1000 t)
   in cap_permitted (tcred t') = 0 \<and>
      (let c = tcred (fold setid_step [(plain_env, Setresuid 0 0 0), (plain_env, Setreuid 0 1000)] t')
       in uid c = 1000 \<and> euid c = 1000 \<and> suid c = 1000 \<and> fsuid c = 1000)"
proof -
  let ?t = "plain_task 0 0 0xC0" and ?t' = "fst (sys_setuid plain_env 1000 (plain_task 0 0 0xC0))"
  have cap: "ns_capable_setid plain_env (tcred ?t) (user_ns (tcred ?t)) CAP_SETUID" by code_simp
  have sub: "subcaps (cap_effective (tcred ?t)) (cap_permitted (tcred ?t))"
    by (simp add: plain_task_def subcaps_def)
  have zero: "snd (sys_setuid plain_env 1000 ?t) = 0" by code_simp
  then have run: "sys_setuid plain_env 1000 ?t = (?t', 0)" by (metis prod.collapse)
  have k: "1000 = make_kuid plain_env (user_ns (tcred ?t)) 1000" by (simp add: plain_env_def)
  have gone: "cap_permitted (tcred ?t') = 0" by code_simp
  have envs: "list_all (\<lambda>x. setid_env_ok (fst x)) [(plain_env, Setresuid 0 0 0), (plain_env, Setreuid 0 1000)]"
    by (simp add: plain_env_ok)
  show ?thesis
    using setuid_drops_for_good[OF plain_env_ok cap sub run k _ _ envs] gone by (simp add: Let_def)
qed

section \<open>The BSD-style call\<close>

text \<open>
  \<open>setreuid\<close>, exactly: it returns \<open>- EPERM\<close> for valid ids precisely when the real id asked for
  is neither the old real nor effective one, or the effective id asked for is none of the old
  three, and the task is not capable. On success the filesystem id follows the effective one,
  the saved id becomes the new effective one if the real id was set or the effective id
  differs from the old real id, the group ids stay, and the process-limit flag is set exactly
  when the new counters are over the limit for another user than the initial one.
\<close>

theorem setreuid_exact:
  assumes ok: "setid_env_ok env" and c: "c = tcred t"
    and r: "r' = chosen r (make_kuid env (user_ns c) r) (uid c)"
    and e: "e' = chosen e (make_kuid env (user_ns c) e) (euid c)"
    and valid: "r = KEEP \<or> uid_valid r'" "e = KEEP \<or> uid_valid e'" and mem: "prepare_creds env c \<noteq> None"
    and hook: "\<And>new old how. 0 \<le> snd (security_task_fix_setuid env new old how)"
    and users: "\<And>u. alloc_uid env u \<noteq> None" and cnt: "\<And>new. 0 \<le> snd (set_cred_ucounts env new)"
    and run: "sys_setreuid env r e t = (t', x)" and c': "c' = tcred t'"
  shows "x = (if ns_capable_setid env c (user_ns c) CAP_SETUID
                \<or> r' \<in> {uid c, euid c} \<and> e' \<in> {uid c, euid c, suid c} then 0 else - EPERM)
    \<and> (x = 0 \<longrightarrow> uid c' = r' \<and> euid c' = e' \<and> fsuid c' = e'
         \<and> suid c' = (if r \<noteq> KEEP \<or> e \<noteq> KEEP \<and> e' \<noteq> uid c then e' else suid c)
         \<and> gid c' = gid c \<and> egid c' = egid c \<and> sgid c' = sgid c \<and> fsgid c' = fsgid c
         \<and> (ucounts c' \<noteq> ucounts c \<longrightarrow>
              (bit (tflags t') 12 \<longleftrightarrow> nproc_overlimit env (ucounts c') \<and> user c' \<noteq> INIT_USER env)))"
proof (cases "ns_capable_setid env c (user_ns c) CAP_SETUID \<or> r' \<in> {uid c, euid c} \<and> e' \<in> {uid c, euid c, suid c}")
  case False
  then have guards: "(r \<noteq> KEEP \<and> \<not> uid_valid r' \<or> e \<noteq> KEEP \<and> \<not> uid_valid e') = False" "(prepare_creds env c = None) = False"
    "(\<not> ns_capable_setid env c (user_ns c) CAP_SETUID
       \<and> \<not> (r' \<in> {uid c, euid c} \<and> e' \<in> {uid c, euid c, suid c})) = True"
    using valid mem by blast+
  have "(t', x) = (t, - EPERM)"
    using run unfolding setreuid_eq[OF ok c[symmetric] r e] guards if_False if_True by simp
  with False show ?thesis by simp
next
  case True
  let ?new = "c\<lparr>uid := r', euid := e', suid := (if r \<noteq> KEEP \<or> e \<noteq> KEEP \<and> e' \<noteq> uid c then e' else suid c),
            fsuid := e', user := chosen_user env c r'\<rparr>"
  have guards: "(r \<noteq> KEEP \<and> \<not> uid_valid r' \<or> e \<noteq> KEEP \<and> \<not> uid_valid e') = False" "(prepare_creds env c = None) = False"
    "(\<not> ns_capable_setid env c (user_ns c) CAP_SETUID
       \<and> \<not> (r' \<in> {uid c, euid c} \<and> e' \<in> {uid c, euid c, suid c})) = False"
    "(r' \<noteq> uid c \<and> alloc_uid env r' = None) = False"
    using True valid mem users by blast+
  have go: "finish_setuid env ?new LSM_SETID_RE t = (t', x)"
    using run unfolding setreuid_eq[OF ok c[symmetric] r e] guards if_False .
  have ge: "0 \<le> snd (finish_setuid env new how t)" for new how
    using hook[of new "tcred t" how] cnt[of "fst (security_task_fix_setuid env new (tcred t) how)"]
    by (simp add: finish_setuid_def env_commit[OF ok] case_prod_unfold Let_def)
  have flag: "bit (tflags (flag_nproc_exceeded env d t)) 12 \<longleftrightarrow> nproc_overlimit env (ucounts d) \<and> user d \<noteq> INIT_USER env"
    if "ucounts d \<noteq> ucounts c" for d
    using that by (simp add: flag_nproc_exceeded_def c bit_or_iff bit_and_iff bit_not_iff)
  show ?thesis
    using ok
  proof (cases rule: finish_setuid_cases[of env ?new LSM_SETID_RE t])
    case (refused y)
    then show ?thesis using ge[of ?new LSM_SETID_RE] by simp
  next
    case (committed p q n)
    let ?d = "?new\<lparr>cap_permitted := p, cap_effective := q, ucounts := n\<rparr>"
    have "t' = (flag_nproc_exceeded env ?d t)\<lparr>tcred := ?d\<rparr>" and x: "x = 0"
      using go unfolding committed(1) by simp_all
    then have d: "c' = ?d" and f: "tflags t' = tflags (flag_nproc_exceeded env ?d t)"
      by (simp_all add: c')
    have fl: "ucounts c' \<noteq> ucounts c \<longrightarrow>
        (bit (tflags t') 12 \<longleftrightarrow> nproc_overlimit env (ucounts c') \<and> user c' \<noteq> INIT_USER env)"
      unfolding f d using flag[of ?d] by blast
    show ?thesis
      using True x fl by (simp add: d)
  qed
qed

theorem setreuid_exact_witness:
  "let t = plain_task 1000 5 0; t' = fst (sys_setreuid plain_env 5 1000 t)
   in snd (sys_setreuid plain_env 5 1000 t) = 0 \<and> uid (tcred t') = 5 \<and> euid (tcred t') = 1000
    \<and> suid (tcred t') = 1000 \<and> bit (tflags t') 12"
proof -
  let ?t = "plain_task 1000 5 0" and ?res = "sys_setreuid plain_env 5 1000 (plain_task 1000 5 0)"
  have zero: "snd ?res = 0" by code_simp
  have cnt: "ucounts (tcred (fst ?res)) \<noteq> ucounts (tcred ?t)" "user (tcred (fst ?res)) = 5" "ucounts (tcred (fst ?res)) = 5"
    by code_simp+
  have env: "5 = chosen 5 (make_kuid plain_env (user_ns (tcred ?t)) 5) (uid (tcred ?t))"
    "1000 = chosen 1000 (make_kuid plain_env (user_ns (tcred ?t)) 1000) (euid (tcred ?t))"
    "5 = KEEP \<or> uid_valid 5" "1000 = KEEP \<or> uid_valid 1000" "prepare_creds plain_env (tcred ?t) \<noteq> None"
    "\<And>new old how. 0 \<le> snd (security_task_fix_setuid plain_env new old how)"
    "\<And>u. alloc_uid plain_env u \<noteq> None" "\<And>new. 0 \<le> snd (set_cred_ucounts plain_env new)"
    by (simp_all add: plain_env_def plain_hook_def chosen_def uid_valid_def)
  show ?thesis
    using setreuid_exact[OF plain_env_ok refl env prod.collapse[symmetric] refl] zero cnt
    by (simp add: Let_def plain_env_def)
qed

section \<open>Round trip\<close>

lemma put3_delivers:
  assumes ua: "uaccess_ok ua" and run: "put3 ua (rp, r) (ep, e) (sp, s) m = (m', 0)"
    and disj: "span rp 4 \<inter> span ep 4 = {}" "span rp 4 \<inter> span sp 4 = {}" "span ep 4 \<inter> span sp 4 = {}"
  shows "le_word (mem_read m' rp 4) = r \<and> le_word (mem_read m' ep 4) = e \<and> le_word (mem_read m' sp 4) = s"
proof -
  have put: "put_user ua a b bs = (c, 0) \<Longrightarrow> c = mem_write a b bs" for a b bs c
    using put_user_cases[OF ua] by fastforce
  have "m' = mem_write (mem_write (mem_write m rp (le_bytes r)) ep (le_bytes e)) sp (le_bytes s)"
    using run by (auto simp: put3_def dest!: put split: prod.splits if_splits)
  then show ?thesis
    using disj by (simp add: mem_read_write_disjoint)
qed

text \<open>
  \<open>getresuid\<close> after \<open>setresuid\<close> gives back the ids that were set, when the namespace maps
  them back to themselves.
\<close>

theorem setresuid_getresuid:
  assumes ok: "setid_env_ok env" and ua: "uaccess_ok ua"
    and keep: "r \<noteq> KEEP" "e \<noteq> KEEP" "s \<noteq> KEEP"
    and set: "sys_setresuid env r e s t = (t', 0)"
    and inverse: "\<And>u. u \<in> {r, e, s} \<Longrightarrow>
      from_kuid_munged env (user_ns (tcred t)) (make_kuid env (user_ns (tcred t)) u) = u"
    and get: "sys_getresuid ua env rp ep sp (tcred t') m = (m', 0)"
    and disj: "span rp 4 \<inter> span ep 4 = {}" "span rp 4 \<inter> span sp 4 = {}" "span ep 4 \<inter> span sp 4 = {}"
  shows "le_word (mem_read m' rp 4) = r \<and> le_word (mem_read m' ep 4) = e \<and> le_word (mem_read m' sp 4) = s"
proof -
  let ?c = "tcred t" and ?k = "make_kuid env (user_ns (tcred t))"
  let ?new = "?c\<lparr>uid := ?k r, euid := ?k e, suid := ?k s, fsuid := ?k e, user := chosen_user env ?c (?k r)\<rparr>"
  have ch: "chosen r (?k r) x = ?k r" "chosen e (?k e) x = ?k e" "chosen s (?k s) x = ?k s" for x
    using keep by (simp_all add: chosen_def)
  have "t' = t \<and> uid ?c = ?k r \<and> euid ?c = ?k e \<and> suid ?c = ?k s \<or> finish_setuid env ?new LSM_SETID_RES t = (t', 0)"
    using set unfolding setresuid_eq[OF ok refl refl refl refl] ch
    by (auto simp del: insert_subset split: if_split_asm)
  then have "uid (tcred t') = ?k r \<and> euid (tcred t') = ?k e \<and> suid (tcred t') = ?k s \<and> user_ns (tcred t') = user_ns ?c"
  proof
    assume fin: "finish_setuid env ?new LSM_SETID_RES t = (t', 0)"
    show ?thesis
      using ok
      by (cases rule: finish_setuid_cases[of env ?new LSM_SETID_RES t]) (use fin in auto)
  qed auto
  then show ?thesis
    using put3_delivers[OF ua get[unfolded sys_getresuid_def] disj] inverse by simp
qed

theorem setresuid_getresuid_witness:
  "\<exists>m'. sys_getresuid (flat_uaccess (\<lambda>_. True)) plain_env 64 128 192
          (tcred (fst (sys_setresuid plain_env 7 8 9 (plain_task 0 0 0xC0)))) (\<lambda>_. 0) = (m', 0)
     \<and> le_word (mem_read m' 64 4) = (7 :: u32) \<and> le_word (mem_read m' 128 4) = (8 :: u32)
     \<and> le_word (mem_read m' 192 4) = (9 :: u32)"
proof -
  let ?res = "sys_setresuid plain_env 7 8 9 (plain_task 0 0 0xC0)" and ?ua = "flat_uaccess (\<lambda>_. True)"
  have "snd ?res = 0" by code_simp
  then have set: "?res = (fst ?res, 0)" by (metis prod.collapse)
  obtain m' where get: "sys_getresuid ?ua plain_env 64 128 192 (tcred (fst ?res)) (\<lambda>_. 0) = (m', 0)"
    by (simp add: sys_getresuid_def put3_def flat_uaccess_total)
  have disj: "span (64 :: addr) 4 \<inter> span 128 4 = {}" "span (64 :: addr) 4 \<inter> span 192 4 = {}"
    "span (128 :: addr) 4 \<inter> span 192 4 = {}"
    by (rule span_disjoint; simp)+
  have "le_word (mem_read m' 64 4) = (7 :: u32) \<and> le_word (mem_read m' 128 4) = (8 :: u32)
     \<and> le_word (mem_read m' 192 4) = (9 :: u32)"
    by (rule setresuid_getresuid[OF plain_env_ok flat_uaccess_ok _ _ _ set _ get disj])
      (simp_all add: plain_env_def)
  with get show ?thesis by blast
qed

end
