(* ===== verification/Rlimits.thy ===== *)
theory Rlimits
  imports Credentials
begin

text \<open>
  Resource limits (kernel/sys.c, \<open>do_prlimit\<close> to \<open>setrlimit\<close>): the table of limits of a
  process, the native and the 32-bit calls that read and change it, and \<open>prlimit64\<close>, which
  reaches the limits of another process.

  A task is a number; the limits belong to its thread group. Outside code, the record
  \<open>rlimit_env\<close>: the task lookup, the credentials of a task, the capability tests, the
  \<open>nr_open\<close> setting, the security hooks, and the CPU timer that is armed for \<open>RLIMIT_CPU\<close>.
\<close>

section \<open>State\<close>

record rlimit =
  rlim_cur :: u64
  rlim_max :: u64

abbreviation RLIM_NLIMITS :: u32 where "RLIM_NLIMITS \<equiv> 16"
abbreviation RLIMIT_CPU :: u32 where "RLIMIT_CPU \<equiv> 0"
abbreviation RLIMIT_NOFILE :: u32 where "RLIMIT_NOFILE \<equiv> 7"
abbreviation RLIM_INFINITY :: u64 where "RLIM_INFINITY \<equiv> - 1"
abbreviation RLIM64_INFINITY :: u64 where "RLIM64_INFINITY \<equiv> - 1"
abbreviation COMPAT_RLIM_INFINITY :: u32 where "COMPAT_RLIM_INFINITY \<equiv> 0xffffffff"
abbreviation LSM_PRLIMIT_READ :: u32 where "LSM_PRLIMIT_READ \<equiv> 1"
abbreviation LSM_PRLIMIT_WRITE :: u32 where "LSM_PRLIMIT_WRITE \<equiv> 2"

text \<open>The limits of each thread group, by its leader, and the CPU timers.\<close>

record rlimit_state =
  rlims :: "nat \<Rightarrow> rlimit list"
  cpu_timer :: "nat \<Rightarrow> u64 option"

record rlimit_env =
  rl_current :: nat
  rl_find :: "u32 \<Rightarrow> nat option"
  rl_leader :: "nat \<Rightarrow> nat"
  rl_cred :: "nat \<Rightarrow> cred"
  capable_resource :: bool
  ns_capable_resource :: "nat \<Rightarrow> bool"
  sysctl_nr_open :: u32
  security_task_setrlimit :: "nat \<Rightarrow> u32 \<Rightarrow> rlimit \<Rightarrow> int"
  security_task_prlimit :: "cred \<Rightarrow> cred \<Rightarrow> u32 \<Rightarrow> int"
  update_rlimit_cpu :: "nat \<Rightarrow> u64 \<Rightarrow> (nat \<Rightarrow> u64 option) \<Rightarrow> (nat \<Rightarrow> u64 option)"

definition rlimit_bytes :: "rlimit \<Rightarrow> u8 list" where
  "rlimit_bytes r = le_bytes (rlim_cur r) @ le_bytes (rlim_max r)"

definition read_rlimit :: "u8 list \<Rightarrow> rlimit" where
  "read_rlimit bs = \<lparr>rlim_cur = le_word (field 0 8 bs), rlim_max = le_word (field 8 8 bs)\<rparr>"

section \<open>The worker\<close>

text \<open>
  \<open>do_prlimit\<close> returns the new state, the old limit (read where the caller passed a place for
  it) and the code.
\<close>

definition do_prlimit ::
  "rlimit_env \<Rightarrow> nat \<Rightarrow> u32 \<Rightarrow> rlimit option \<Rightarrow> rlimit_state \<Rightarrow> rlimit_state \<times> rlimit option \<times> int" where
  "do_prlimit env tsk resource new_rlim s =
     (if resource \<ge> RLIM_NLIMITS then (s, None, - EINVAL)
      else if (case new_rlim of None \<Rightarrow> False | Some n \<Rightarrow> rlim_cur n > rlim_max n) then (s, None, - EINVAL)
      else if (case new_rlim of None \<Rightarrow> False | Some n \<Rightarrow>
                 resource = RLIMIT_NOFILE \<and> rlim_max n > ucast (sysctl_nr_open env)) then (s, None, - EPERM)
      else
        (let l = rl_leader env tsk;
             i = unat resource;
             rlim = rlims s l ! i;
             retval = (case new_rlim of
                None \<Rightarrow> 0
              | Some n \<Rightarrow> (if rlim_max n > rlim_max rlim \<and> \<not> capable_resource env then - EPERM
                          else security_task_setrlimit env tsk resource n));
             s1 = (if retval \<noteq> 0 then s
                   else case new_rlim of
                          None \<Rightarrow> s
                        | Some n \<Rightarrow> s\<lparr>rlims := (rlims s)(l := (rlims s l)[i := n])\<rparr>);
             s2 = (case new_rlim of
                     None \<Rightarrow> s1
                   | Some n \<Rightarrow> (if retval = 0 \<and> resource = RLIMIT_CPU \<and> rlim_cur n \<noteq> RLIM_INFINITY
                               then s1\<lparr>cpu_timer := update_rlimit_cpu env l (rlim_cur n) (cpu_timer s1)\<rparr>
                               else s1))
         in (s2, if retval = 0 then Some rlim else None, retval)))"

section \<open>The native calls\<close>

definition sys_getrlimit ::
  "uaccess \<Rightarrow> rlimit_env \<Rightarrow> u32 \<Rightarrow> addr \<Rightarrow> rlimit_state \<times> umem \<Rightarrow> (rlimit_state \<times> umem) \<times> int" where
  "sys_getrlimit ua env resource p = (\<lambda>(s, m).
     (case do_prlimit env (rl_current env) resource None s of
        (s1, Some v, ret) \<Rightarrow>
          if ret = 0
          then (let (m1, left) = copy_to_user ua m p (rlimit_bytes v)
                in ((s1, m1), if left \<noteq> 0 then - EFAULT else 0))
          else ((s1, m), ret)
      | (s1, None, ret) \<Rightarrow> ((s1, m), ret)))"

definition sys_setrlimit ::
  "uaccess \<Rightarrow> rlimit_env \<Rightarrow> u32 \<Rightarrow> addr \<Rightarrow> rlimit_state \<times> umem \<Rightarrow> (rlimit_state \<times> umem) \<times> int" where
  "sys_setrlimit ua env resource p = (\<lambda>(s, m).
     let (bs, left) = copy_from_user ua m p 16
     in if left \<noteq> 0 then ((s, m), - EFAULT)
        else (let (s1, _, ret) = do_prlimit env (rl_current env) resource (Some (read_rlimit bs)) s
              in ((s1, m), ret)))"

section \<open>The 32-bit calls\<close>

definition compat_rlimit_bytes :: "u32 \<Rightarrow> u32 \<Rightarrow> u8 list" where
  "compat_rlimit_bytes c x = le_bytes c @ le_bytes x"

definition from_compat :: "u32 \<Rightarrow> u64" where
  "from_compat v = (if v = COMPAT_RLIM_INFINITY then RLIM_INFINITY else ucast v)"

definition to_compat :: "u64 \<Rightarrow> u32" where
  "to_compat v = (if v > ucast COMPAT_RLIM_INFINITY then COMPAT_RLIM_INFINITY else ucast v)"

definition compat_sys_setrlimit ::
  "uaccess \<Rightarrow> rlimit_env \<Rightarrow> u32 \<Rightarrow> addr \<Rightarrow> rlimit_state \<times> umem \<Rightarrow> (rlimit_state \<times> umem) \<times> int" where
  "compat_sys_setrlimit ua env resource p = (\<lambda>(s, m).
     let (bs, left) = copy_from_user ua m p 8
     in if left \<noteq> 0 then ((s, m), - EFAULT)
        else (let r = \<lparr>rlim_cur = from_compat (le_word (field 0 4 bs)), rlim_max = from_compat (le_word (field 4 4 bs))\<rparr>;
                  (s1, _, ret) = do_prlimit env (rl_current env) resource (Some r) s
              in ((s1, m), ret)))"

definition compat_sys_getrlimit ::
  "uaccess \<Rightarrow> rlimit_env \<Rightarrow> u32 \<Rightarrow> addr \<Rightarrow> rlimit_state \<times> umem \<Rightarrow> (rlimit_state \<times> umem) \<times> int" where
  "compat_sys_getrlimit ua env resource p = (\<lambda>(s, m).
     (case do_prlimit env (rl_current env) resource None s of
        (s1, Some v, ret) \<Rightarrow>
          if ret = 0
          then (let (m1, left) = copy_to_user ua m p (compat_rlimit_bytes (to_compat (rlim_cur v)) (to_compat (rlim_max v)))
                in ((s1, m1), if left \<noteq> 0 then - EFAULT else ret))
          else ((s1, m), ret)
      | (s1, None, ret) \<Rightarrow> ((s1, m), ret)))"

text \<open>The oldest calls clamp both values to the largest signed 32-bit number.\<close>

definition clamp31 :: "u64 \<Rightarrow> u64" where
  "clamp31 v = (if v > 0x7FFFFFFF then 0x7FFFFFFF else v)"

definition sys_old_getrlimit ::
  "uaccess \<Rightarrow> rlimit_env \<Rightarrow> u32 \<Rightarrow> addr \<Rightarrow> rlimit_state \<times> umem \<Rightarrow> (rlimit_state \<times> umem) \<times> int" where
  "sys_old_getrlimit ua env resource p = (\<lambda>(s, m).
     if resource \<ge> RLIM_NLIMITS then ((s, m), - EINVAL)
     else (let x = rlims s (rl_leader env (rl_current env)) ! unat resource;
               x = x\<lparr>rlim_cur := clamp31 (rlim_cur x), rlim_max := clamp31 (rlim_max x)\<rparr>;
               (m1, left) = copy_to_user ua m p (rlimit_bytes x)
           in ((s, m1), if left \<noteq> 0 then - EFAULT else 0)))"

definition compat_sys_old_getrlimit ::
  "uaccess \<Rightarrow> rlimit_env \<Rightarrow> u32 \<Rightarrow> addr \<Rightarrow> rlimit_state \<times> umem \<Rightarrow> (rlimit_state \<times> umem) \<times> int" where
  "compat_sys_old_getrlimit ua env resource p = (\<lambda>(s, m).
     if resource \<ge> RLIM_NLIMITS then ((s, m), - EINVAL)
     else (let x = rlims s (rl_leader env (rl_current env)) ! unat resource;
               (m1, r) = put_user ua m p (le_bytes (ucast (clamp31 (rlim_cur x)) :: u32))
           in if r \<noteq> 0 then ((s, m1), - EFAULT)
              else (let (m2, r) = put_user ua m1 (p + 4) (le_bytes (ucast (clamp31 (rlim_max x)) :: u32))
                    in ((s, m2), if r \<noteq> 0 then - EFAULT else 0))))"

section \<open>Limits of another process\<close>

definition rlim64_is_infinity :: "u64 \<Rightarrow> bool" where
  "rlim64_is_infinity v \<longleftrightarrow> v = RLIM64_INFINITY"

definition rlim_to_rlim64 :: "rlimit \<Rightarrow> rlimit" where
  "rlim_to_rlim64 r =
     \<lparr>rlim_cur = (if rlim_cur r = RLIM_INFINITY then RLIM64_INFINITY else rlim_cur r),
      rlim_max = (if rlim_max r = RLIM_INFINITY then RLIM64_INFINITY else rlim_max r)\<rparr>"

definition rlim64_to_rlim :: "rlimit \<Rightarrow> rlimit" where
  "rlim64_to_rlim r =
     \<lparr>rlim_cur = (if rlim64_is_infinity (rlim_cur r) then RLIM_INFINITY else rlim_cur r),
      rlim_max = (if rlim64_is_infinity (rlim_max r) then RLIM_INFINITY else rlim_max r)\<rparr>"

definition check_prlimit_permission :: "rlimit_env \<Rightarrow> nat \<Rightarrow> u32 \<Rightarrow> int" where
  "check_prlimit_permission env task flags =
     (if rl_current env = task then 0
      else (let c = rl_cred env (rl_current env);
                tc = rl_cred env task;
                id_match = (uid c = euid tc \<and> uid c = suid tc \<and> uid c = uid tc \<and>
                            gid c = egid tc \<and> gid c = sgid tc \<and> gid c = gid tc)
            in if \<not> id_match \<and> \<not> ns_capable_resource env (user_ns tc) then - EPERM
               else security_task_prlimit env c tc flags))"

definition sys_prlimit64 ::
  "uaccess \<Rightarrow> rlimit_env \<Rightarrow> u32 \<Rightarrow> u32 \<Rightarrow> addr \<Rightarrow> addr \<Rightarrow> rlimit_state \<times> umem \<Rightarrow> (rlimit_state \<times> umem) \<times> int" where
  "sys_prlimit64 ua env p resource new_rlim old_rlim = (\<lambda>(s, m).
     let (bs, left) = (if new_rlim \<noteq> NULL then copy_from_user ua m new_rlim 16 else ([], 0));
         checkflags = (if old_rlim \<noteq> NULL then LSM_PRLIMIT_READ else 0) OR
                      (if new_rlim \<noteq> NULL then LSM_PRLIMIT_WRITE else 0)
     in if left \<noteq> 0 then ((s, m), - EFAULT)
        else (case (if p \<noteq> 0 then rl_find env p else Some (rl_current env)) of
                None \<Rightarrow> ((s, m), - ESRCH)
              | Some tsk \<Rightarrow>
                  (let ret = check_prlimit_permission env tsk checkflags
                   in if ret \<noteq> 0 then ((s, m), ret)
                      else (let new = (if new_rlim \<noteq> NULL then Some (rlim64_to_rlim (read_rlimit bs)) else None);
                                (s1, old, ret) = do_prlimit env tsk resource new s
                            in (case old of
                                  Some v \<Rightarrow>
                                    if ret = 0 \<and> old_rlim \<noteq> NULL
                                    then (let (m1, left) = copy_to_user ua m old_rlim (rlimit_bytes (rlim_to_rlim64 v))
                                          in ((s1, m1), if left \<noteq> 0 then - EFAULT else ret))
                                    else ((s1, m), ret)
                                | None \<Rightarrow> ((s1, m), ret))))))"

section \<open>Invariant\<close>

text \<open>
  Every table has its 16 entries and no soft limit above its hard limit. \<open>hard_below B\<close>: no
  hard limit exceeds the bound \<open>B\<close>.
\<close>

definition rlimit_inv :: "rlimit_state \<Rightarrow> bool" where
  "rlimit_inv s \<longleftrightarrow> (\<forall>l. length (rlims s l) = 16 \<and> (\<forall>r \<in> set (rlims s l). rlim_cur r \<le> rlim_max r))"

definition hard_below :: "(nat \<Rightarrow> nat \<Rightarrow> u64) \<Rightarrow> rlimit_state \<Rightarrow> bool" where
  "hard_below B s \<longleftrightarrow> (\<forall>l. \<forall>i < 16. rlim_max (rlims s l ! i) \<le> B l i)"

lemma resource_index: "\<not> RLIM_NLIMITS \<le> (r :: u32) \<Longrightarrow> unat r < 16"
  by (simp add: word_le_nat_alt)

text \<open>\<open>do_prlimit\<close> either leaves the state alone or stores a checked limit in one entry.\<close>

lemma do_prlimit_cases:
  assumes "do_prlimit env tsk resource new s = (s', old, ret)"
  obtains (same) "s' = s"
  | (stored) n where "new = Some n" "ret = 0" "rlim_cur n \<le> rlim_max n" "\<not> RLIM_NLIMITS \<le> resource"
      "rlims s' = (rlims s)(rl_leader env tsk := (rlims s (rl_leader env tsk))[unat resource := n])"
      "rlim_max n \<le> rlim_max (rlims s (rl_leader env tsk) ! unat resource) \<or> capable_resource env"
      "resource = RLIMIT_NOFILE \<Longrightarrow> rlim_max n \<le> ucast (sysctl_nr_open env)"
proof (cases "s' = s")
  case False
  obtain n where n: "new = Some n"
    using assms False by (cases new) (auto simp: do_prlimit_def Let_def split: if_splits)
  show ?thesis
    using assms False n stored[of n]
    by (auto simp: do_prlimit_def Let_def not_less split: if_splits)
qed (use same in blast)

lemma rlimit_inv_store:
  assumes "rlimit_inv s" and "rlim_cur n \<le> rlim_max n"
    and "rlims s' = (rlims s)(l := (rlims s l)[i := n])"
  shows "rlimit_inv s'"
  using assms unfolding rlimit_inv_def by (auto dest!: set_update_subset_insert[THEN subsetD])

lemma do_prlimit_inv: "rlimit_inv s \<Longrightarrow> rlimit_inv (fst (do_prlimit env tsk resource new s))"
proof -
  obtain s' old ret where r: "do_prlimit env tsk resource new s = (s', old, ret)" by (metis prod_cases3)
  have "rlimit_inv s \<Longrightarrow> rlimit_inv s'"
    by (rule do_prlimit_cases[OF r]) (blast intro: rlimit_inv_store)+
  then show "rlimit_inv s \<Longrightarrow> ?thesis" by (simp add: r)
qed

lemma do_prlimit_hard:
  assumes "\<not> capable_resource env" and "rlimit_inv s" and "hard_below B s"
  shows "hard_below B (fst (do_prlimit env tsk resource new s))"
proof -
  obtain s' old ret where r: "do_prlimit env tsk resource new s = (s', old, ret)" by (metis prod_cases3)
  show ?thesis
  proof (rule do_prlimit_cases[OF r])
    fix n
    assume st: "rlims s' = (rlims s)(rl_leader env tsk := (rlims s (rl_leader env tsk))[unat resource := n])"
      and le: "rlim_max n \<le> rlim_max (rlims s (rl_leader env tsk) ! unat resource) \<or> capable_resource env"
      and i: "\<not> RLIM_NLIMITS \<le> resource"
    have "unat resource < 16" "length (rlims s (rl_leader env tsk)) = 16"
      using resource_index[OF i] assms(2) by (simp_all add: rlimit_inv_def)
    then show ?thesis
      using assms(1,3) st le r by (auto simp: hard_below_def nth_list_update intro: order_trans)
  qed (use r assms(3) in simp)
qed

text \<open>The calls as one operation, and histories of them.\<close>

datatype rlimit_call =
  Getrlimit u32 addr | Setrlimit u32 addr | CompatSetrlimit u32 addr | CompatGetrlimit u32 addr
| OldGetrlimit u32 addr | CompatOldGetrlimit u32 addr | Prlimit64 u32 u32 addr addr

fun do_rlimit :: "uaccess \<Rightarrow> rlimit_env \<Rightarrow> rlimit_call \<Rightarrow> rlimit_state \<times> umem \<Rightarrow> (rlimit_state \<times> umem) \<times> int" where
  "do_rlimit ua env (Getrlimit r p) = sys_getrlimit ua env r p"
| "do_rlimit ua env (Setrlimit r p) = sys_setrlimit ua env r p"
| "do_rlimit ua env (CompatSetrlimit r p) = compat_sys_setrlimit ua env r p"
| "do_rlimit ua env (CompatGetrlimit r p) = compat_sys_getrlimit ua env r p"
| "do_rlimit ua env (OldGetrlimit r p) = sys_old_getrlimit ua env r p"
| "do_rlimit ua env (CompatOldGetrlimit r p) = compat_sys_old_getrlimit ua env r p"
| "do_rlimit ua env (Prlimit64 t r n q) = sys_prlimit64 ua env t r n q"

text \<open>Every call changes the limits at most through one use of the worker.\<close>

lemma do_rlimit_state:
  assumes "P s" and "\<And>tsk resource new. P (fst (do_prlimit env tsk resource new s))"
  shows "P (fst (fst (do_rlimit ua env x (s, m))))"
proof -
  have pif: "P x \<Longrightarrow> P y \<Longrightarrow> P (if b then x else y)" for x y b by simp
  show ?thesis
    using assms
    by (cases x)
      (simp_all add: sys_getrlimit_def sys_setrlimit_def compat_sys_setrlimit_def compat_sys_getrlimit_def
        sys_old_getrlimit_def compat_sys_old_getrlimit_def sys_prlimit64_def Let_def case_prod_unfold
        if_distrib[where f = fst] pif split del: if_split split: option.split)
qed

definition rlimit_step :: "(uaccess \<times> rlimit_env \<times> rlimit_call) \<Rightarrow> rlimit_state \<times> umem \<Rightarrow> rlimit_state \<times> umem" where
  "rlimit_step = (\<lambda>(ua, env, x) sm. fst (do_rlimit ua env x sm))"

lemma rlimit_step_inv: "rlimit_inv (fst sm) \<Longrightarrow> rlimit_inv (fst (rlimit_step c sm))"
proof -
  obtain ua env x s m where c: "c = (ua, env, x)" "sm = (s, m)" by (metis prod_cases3 surj_pair)
  show "rlimit_inv (fst sm) \<Longrightarrow> ?thesis"
    using do_rlimit_state[of rlimit_inv s env ua x m] do_prlimit_inv by (simp add: rlimit_step_def c)
qed

lemma rlimit_step_hard:
  assumes "\<not> capable_resource (fst (snd c))" and "rlimit_inv (fst sm)" and "hard_below B (fst sm)"
  shows "hard_below B (fst (rlimit_step c sm))"
proof -
  obtain ua env x s m where c: "c = (ua, env, x)" "sm = (s, m)" by (metis prod_cases3 surj_pair)
  show ?thesis
    using do_rlimit_state[of "hard_below B" s env ua x m] do_prlimit_hard assms by (simp add: rlimit_step_def c)
qed

interpretation lims: kept_invariant rlimit_step "\<lambda>c. \<not> capable_resource (fst (snd c))"
  "\<lambda>sm. rlimit_inv (fst sm) \<and> hard_below B (fst sm)" for B
  by unfold_locales (simp add: rlimit_step_inv rlimit_step_hard)


text \<open>A concrete environment: two processes of different users, with no capabilities.\<close>

definition plain_rlimit_env :: "bool \<Rightarrow> rlimit_env" where
  "plain_rlimit_env cap = \<lparr>rl_current = 0, rl_find = (\<lambda>p. if p = 5 then Some 5 else None), rl_leader = (\<lambda>t. t),
     rl_cred = (\<lambda>t. tcred (plain_task (if t = 0 then 1000 else 0) (if t = 0 then 1000 else 0) 0)),
     capable_resource = cap, ns_capable_resource = (\<lambda>_. cap), sysctl_nr_open = 1024,
     security_task_setrlimit = (\<lambda>_ _ _. 0), security_task_prlimit = (\<lambda>_ _ _. 0),
     update_rlimit_cpu = (\<lambda>l v f. f(l := Some v))\<rparr>"

definition plain_rlimits :: rlimit_state where
  "plain_rlimits = \<lparr>rlims = (\<lambda>_. replicate 16 \<lparr>rlim_cur = 100, rlim_max = 200\<rparr>), cpu_timer = (\<lambda>_. None)\<rparr>"

lemma plain_rlimits_inv: "rlimit_inv plain_rlimits"
  by (simp add: rlimit_inv_def plain_rlimits_def)


section \<open>What the calls deliver\<close>

lemma length_rlimit_bytes [simp]: "length (rlimit_bytes r) = 16"
  by (simp add: rlimit_bytes_def)

lemma read_rlimit_bytes [simp]: "read_rlimit (rlimit_bytes r) = r"
  by (simp add: read_rlimit_def rlimit_bytes_def layout_simps)

lemma do_prlimit_read:
  "\<not> RLIM_NLIMITS \<le> resource \<Longrightarrow>
   do_prlimit env tsk resource None s = (s, Some (rlims s (rl_leader env tsk) ! unat resource), 0)"
  by (simp add: do_prlimit_def Let_def)

lemma do_prlimit_success:
  assumes "do_prlimit env tsk resource (Some n) s = (s', old, 0)"
  shows "\<not> RLIM_NLIMITS \<le> resource" "old = Some (rlims s (rl_leader env tsk) ! unat resource)"
    "rlims s' = (rlims s)(rl_leader env tsk := (rlims s (rl_leader env tsk))[unat resource := n])"
  using assms by (auto simp: do_prlimit_def Let_def split: if_splits)

text \<open>
  C29. A limit that \<open>setrlimit\<close> accepted is the one that \<open>getrlimit\<close> reports: the user reads back
  the two numbers written before.
\<close>

theorem setrlimit_getrlimit:
  assumes "uaccess_ok ua" and "rlimit_inv s"
    and "sys_setrlimit ua env resource p (s, m) = ((s1, m1), 0)"
    and "sys_getrlimit ua env resource q (s1, m1) = ((s2, m2), 0)"
  shows "s2 = s1 \<and> read_rlimit (mem_read m2 q 16) = read_rlimit (mem_read m p 16)
    \<and> rlim_cur (read_rlimit (mem_read m p 16)) \<le> rlim_max (read_rlimit (mem_read m p 16))"
proof -
  let ?n = "read_rlimit (mem_read m p 16)" and ?l = "rl_leader env (rl_current env)"
  obtain bs where bs: "copy_from_user ua m p 16 = (bs, 0)"
    using assms(3) by (auto simp: sys_setrlimit_def Let_def split: prod.splits if_splits)
  then have b: "bs = mem_read m p 16" by (rule copy_from_user_success[OF assms(1)])
  obtain old where set: "do_prlimit env (rl_current env) resource (Some ?n) s = (s1, old, 0)"
    using assms(3) bs b by (auto simp: sys_setrlimit_def Let_def split: prod.splits)
  note st = do_prlimit_success[OF set]
  have "unat resource < 16" "length (rlims s ?l) = 16"
    using resource_index[OF st(1)] assms(2) by (simp_all add: rlimit_inv_def)
  then have now: "rlims s1 ?l ! unat resource = ?n" by (simp add: st(3))
  have le: "rlim_cur ?n \<le> rlim_max ?n"
    using set by (auto simp: do_prlimit_def Let_def not_less split: if_splits)
  have "s2 = s1 \<and> copy_to_user ua m1 q (rlimit_bytes ?n) = (m2, 0)"
    using assms(4) st(1) by (auto simp: sys_getrlimit_def do_prlimit_read now Let_def split: prod.splits if_splits)
  then show ?thesis
    using copy_to_user_success[OF assms(1)] le by fastforce
qed

theorem setrlimit_getrlimit_witness:
  "let m = (\<lambda>a. if a = 4096 then 50 else if a = 4104 then 150 else 0);
       ua = flat_uaccess (\<lambda>_. True); env = plain_rlimit_env False;
       r1 = sys_setrlimit ua env 1 4096 (plain_rlimits, m);
       r2 = sys_getrlimit ua env 1 8192 (fst r1)
   in snd r1 = 0 \<and> snd r2 = 0 \<and> read_rlimit (mem_read (snd (fst r2)) 8192 16) = \<lparr>rlim_cur = 50, rlim_max = 150\<rparr>"
proof -
  let ?m = "(\<lambda>a :: addr. if a = 4096 then 50 else if a = 4104 then 150 else 0) :: umem"
  let ?ua = "flat_uaccess (\<lambda>_. True)" and ?env = "plain_rlimit_env False"
  let ?r1 = "sys_setrlimit ?ua ?env 1 4096 (plain_rlimits, ?m)"
  let ?r2 = "sys_getrlimit ?ua ?env 1 8192 (fst ?r1)"
  have z: "snd ?r1 = 0" "snd ?r2 = 0" by code_simp+
  have r: "?r1 = ((fst (fst ?r1), snd (fst ?r1)), 0)"
    "sys_getrlimit ?ua ?env 1 8192 (fst (fst ?r1), snd (fst ?r1)) = ((fst (fst ?r2), snd (fst ?r2)), 0)"
    using z by (simp_all add: prod_eq_iff)
  have "read_rlimit (mem_read ?m 4096 16) = \<lparr>rlim_cur = 50, rlim_max = 150\<rparr>" by code_simp
  then show ?thesis
    using setrlimit_getrlimit[OF flat_uaccess_ok plain_rlimits_inv r] z by (simp add: Let_def)
qed

text \<open>
  C30. \<open>prlimit64\<close> on another process, by a task whose real ids do not match all ids of the target
  and without \<open>CAP_SYS_RESOURCE\<close> in the namespace of the target, changes no limit, writes
  nothing to user memory and returns an error.
\<close>

theorem prlimit64_foreign_refused:
  assumes "p \<noteq> 0" and "rl_find env p = Some tsk" and "tsk \<noteq> rl_current env"
    and "c = rl_cred env (rl_current env)" and "tc = rl_cred env tsk"
    and "\<not> ({euid tc, suid tc, uid tc} = {uid c} \<and> {egid tc, sgid tc, gid tc} = {gid c})"
    and "\<not> ns_capable_resource env (user_ns tc)"
  shows "fst (sys_prlimit64 ua env p resource n q (s, m)) = (s, m)
    \<and> snd (sys_prlimit64 ua env p resource n q (s, m)) \<in> {- EPERM, - EFAULT}"
proof -
  have "check_prlimit_permission env tsk f = - EPERM" for f
    using assms(3-7) by (auto simp: check_prlimit_permission_def Let_def)
  then show ?thesis
    using assms(1,2) by (simp add: sys_prlimit64_def Let_def case_prod_unfold)
qed

theorem prlimit64_foreign_refused_witness:
  "sys_prlimit64 (flat_uaccess (\<lambda>_. True)) (plain_rlimit_env False) 5 1 4096 0 (plain_rlimits, \<lambda>_. 0)
     = ((plain_rlimits, \<lambda>_. 0), - EPERM)"
proof -
  let ?run = "sys_prlimit64 (flat_uaccess (\<lambda>_. True)) (plain_rlimit_env False) 5 1 4096 0 (plain_rlimits, \<lambda>_. 0)"
  have "snd ?run = - EPERM" by code_simp
  moreover have "fst ?run = (plain_rlimits, \<lambda>_. 0)"
    using prlimit64_foreign_refused[of 5 "plain_rlimit_env False" 5]
    by (simp add: plain_rlimit_env_def plain_task_def)
  ultimately show ?thesis by (simp add: prod_eq_iff)
qed

text \<open>
  The 32-bit view of a limit: converting a 32-bit value to the native one and back is the
  identity, infinity included; the other way round it saturates, and never reports a finite
  limit above the true one.
\<close>

theorem compat_rlimit_conversion:
  "to_compat (from_compat v) = v
   \<and> (to_compat w = COMPAT_RLIM_INFINITY \<or> ucast (to_compat w) = w)
   \<and> (w = RLIM_INFINITY \<longleftrightarrow> to_compat w = COMPAT_RLIM_INFINITY \<and> from_compat (to_compat w) = w)"
proof -
  have v: "unat (ucast v :: u64) = unat v" by (rule unat_ucast_u64)
  have "to_compat (from_compat v) = v"
  proof (cases "v = COMPAT_RLIM_INFINITY")
    case False
    have lt: "unat v < 2 ^ 32" using unsigned_less[of v, where 'a = nat] by simp
    then have "\<not> ucast v > (ucast COMPAT_RLIM_INFINITY :: u64)"
      using v by (simp add: word_less_nat_alt)
    moreover have "(ucast (ucast v :: u64) :: u32) = v"
      using lt v by (simp add: word_unat_eq_iff unat_ucast_u32)
    ultimately show ?thesis using False by (simp add: to_compat_def from_compat_def)
  qed (simp add: to_compat_def from_compat_def)
  moreover have "to_compat w = COMPAT_RLIM_INFINITY \<or> ucast (to_compat w) = w"
  proof (cases "w > ucast COMPAT_RLIM_INFINITY")
    case False
    then have "unat w < 2 ^ 32" by (simp add: word_less_nat_alt)
    then have "unat (ucast (ucast w :: u32) :: u64) = unat w"
      by (simp add: unat_ucast_u64 unat_ucast_u32)
    then have "ucast (ucast w :: u32) = w" by (simp add: word_unat_eq_iff)
    with False show ?thesis by (simp add: to_compat_def)
  qed (simp add: to_compat_def)
  moreover have "w = RLIM_INFINITY \<longleftrightarrow> to_compat w = COMPAT_RLIM_INFINITY \<and> from_compat (to_compat w) = w"
    by (auto simp: to_compat_def from_compat_def)
  ultimately show ?thesis by blast
qed

end
