(* ===== verification/Sessions.thy ===== *)
theory Sessions
  imports Credentials
begin

text \<open>
  Process numbers, process groups and sessions (kernel/sys.c, \<open>getpid\<close> to \<open>setsid\<close>).

  The task list is a list of processes (thread groups), each with its number, its parent, its
  group and its session, and a list of further threads with the process each belongs to. A
  \<open>struct pid\<close> is a number; \<open>find_vpid\<close> and \<open>pid_vnr\<close> of the caller's namespace are
  parameters, as are the security hooks.
\<close>

section \<open>State\<close>

text \<open>
  \<open>sleader\<close> is \<open>signal->leader\<close>, \<open>forknoexec\<close> the flag \<open>PF_FORKNOEXEC\<close>, \<open>tty\<close> whether the
  process has a controlling terminal.
\<close>

record proc =
  pnum :: nat
  parent :: nat
  pgrp :: nat
  session :: nat
  sleader :: bool
  forknoexec :: bool
  tty :: bool

record proc_state =
  procs :: "proc list"
  threads :: "(nat \<times> nat) list"

record session_env =
  cur_thread :: nat
  cur_leader :: nat
  find_vpid :: "int \<Rightarrow> nat option"
  pid_vnr :: "nat \<Rightarrow> int"
  security_task_setpgid :: "proc \<Rightarrow> int \<Rightarrow> int"
  security_task_getpgid :: "proc \<Rightarrow> int"
  security_task_getsid :: "proc \<Rightarrow> int"

definition proc_of :: "proc_state \<Rightarrow> nat \<Rightarrow> proc option" where
  "proc_of s n = find (\<lambda>p. pnum p = n) (procs s)"

text \<open>\<open>pid_task\<close> with \<open>PIDTYPE_PGID\<close>: some process of the group.\<close>

definition pgrp_member :: "proc_state \<Rightarrow> nat \<Rightarrow> proc option" where
  "pgrp_member s g = find (\<lambda>p. pgrp p = g) (procs s)"

text \<open>
  \<open>find_task_by_vpid\<close>: the process with the flag that the task is its leader, or the process
  of a further thread.
\<close>

definition find_task :: "session_env \<Rightarrow> proc_state \<Rightarrow> int \<Rightarrow> (proc \<times> bool) option" where
  "find_task env s v =
     (case find_vpid env v of
        None \<Rightarrow> None
      | Some n \<Rightarrow>
          (case proc_of s n of
             Some p \<Rightarrow> Some (p, True)
           | None \<Rightarrow> (case map_of (threads s) n of
                        None \<Rightarrow> None
                      | Some l \<Rightarrow> map_option (\<lambda>p. (p, False)) (proc_of s l))))"

text \<open>\<open>change_pid\<close> on a process: a new group or session.\<close>

definition update_proc :: "nat \<Rightarrow> (proc \<Rightarrow> proc) \<Rightarrow> proc_state \<Rightarrow> proc_state" where
  "update_proc n f s = s\<lparr>procs := map (\<lambda>p. if pnum p = n then f p else p) (procs s)\<rparr>"

definition leader_proc :: "session_env \<Rightarrow> proc_state \<Rightarrow> proc" where
  "leader_proc env s = the (proc_of s (cur_leader env))"

section \<open>Numbers\<close>

definition sys_getpid :: "session_env \<Rightarrow> int" where
  "sys_getpid env = pid_vnr env (cur_leader env)"

definition sys_gettid :: "session_env \<Rightarrow> int" where
  "sys_gettid env = pid_vnr env (cur_thread env)"

definition sys_getppid :: "session_env \<Rightarrow> proc_state \<Rightarrow> int" where
  "sys_getppid env s = pid_vnr env (parent (leader_proc env s))"

definition sys_getuid :: "setid_env \<Rightarrow> cred \<Rightarrow> u32" where
  "sys_getuid env c = from_kuid_munged env (user_ns c) (uid c)"

definition sys_geteuid :: "setid_env \<Rightarrow> cred \<Rightarrow> u32" where
  "sys_geteuid env c = from_kuid_munged env (user_ns c) (euid c)"

definition sys_getgid :: "setid_env \<Rightarrow> cred \<Rightarrow> u32" where
  "sys_getgid env c = from_kgid_munged env (user_ns c) (gid c)"

definition sys_getegid :: "setid_env \<Rightarrow> cred \<Rightarrow> u32" where
  "sys_getegid env c = from_kgid_munged env (user_ns c) (egid c)"

section \<open>Groups and sessions\<close>

text \<open>The checks on the target, in their order; 0 when all pass.\<close>

definition setpgid_check :: "proc \<Rightarrow> proc \<Rightarrow> bool \<Rightarrow> int" where
  "setpgid_check gl p is_leader =
     (if \<not> is_leader then - EINVAL
      else if parent p = pnum gl \<and> session p \<noteq> session gl then - EPERM
      else if parent p = pnum gl \<and> \<not> forknoexec p then - EACCES
      else if parent p \<noteq> pnum gl \<and> pnum p \<noteq> pnum gl then - ESRCH
      else if sleader p then - EPERM
      else 0)"

text \<open>The group to move to: the target's own, or an existing group of the caller's session.\<close>

definition target_pgrp :: "session_env \<Rightarrow> proc_state \<Rightarrow> proc \<Rightarrow> proc \<Rightarrow> int \<Rightarrow> int \<Rightarrow> nat option" where
  "target_pgrp env s gl p v pgid =
     (if pgid = v then Some (pnum p)
      else case find_vpid env pgid of
             None \<Rightarrow> None
           | Some g \<Rightarrow> (case pgrp_member s g of
                         None \<Rightarrow> None
                       | Some q \<Rightarrow> if session q \<noteq> session gl then None else Some g))"

definition sys_setpgid :: "session_env \<Rightarrow> int \<Rightarrow> int \<Rightarrow> proc_state \<Rightarrow> proc_state \<times> int" where
  "sys_setpgid env pid0 pgid0 s =
     (let gl = leader_proc env s;
          v = (if pid0 = 0 then pid_vnr env (pnum gl) else pid0);
          pgid = (if pgid0 = 0 then v else pgid0)
      in if pgid < 0 then (s, - EINVAL)
         else case find_task env s v of
           None \<Rightarrow> (s, - ESRCH)
         | Some (p, is_leader) \<Rightarrow>
             (let err = setpgid_check gl p is_leader
              in if err \<noteq> 0 then (s, err)
                 else case target_pgrp env s gl p v pgid of
                        None \<Rightarrow> (s, - EPERM)
                      | Some g \<Rightarrow>
                          (let err = security_task_setpgid env p pgid
                           in if err \<noteq> 0 then (s, err)
                              else (if pgrp p \<noteq> g then update_proc (pnum p) (\<lambda>q. q\<lparr>pgrp := g\<rparr>) s else s, 0))))"

definition do_getpgid :: "session_env \<Rightarrow> int \<Rightarrow> proc_state \<Rightarrow> int" where
  "do_getpgid env v s =
     (if v = 0 then pid_vnr env (pgrp (leader_proc env s))
      else case find_task env s v of
        None \<Rightarrow> - ESRCH
      | Some (p, _) \<Rightarrow>
          (let retval = security_task_getpgid env p
           in if retval \<noteq> 0 then retval else pid_vnr env (pgrp p)))"

definition sys_getpgid :: "session_env \<Rightarrow> int \<Rightarrow> proc_state \<Rightarrow> int" where
  "sys_getpgid env v s = do_getpgid env v s"

definition sys_getpgrp :: "session_env \<Rightarrow> proc_state \<Rightarrow> int" where
  "sys_getpgrp env s = do_getpgid env 0 s"

definition sys_getsid :: "session_env \<Rightarrow> int \<Rightarrow> proc_state \<Rightarrow> int" where
  "sys_getsid env v s =
     (if v = 0 then pid_vnr env (session (leader_proc env s))
      else case find_task env s v of
        None \<Rightarrow> - ESRCH
      | Some (p, _) \<Rightarrow>
          (let retval = security_task_getsid env p
           in if retval \<noteq> 0 then retval else pid_vnr env (session p)))"

definition set_special_pids :: "nat \<Rightarrow> proc \<Rightarrow> proc" where
  "set_special_pids sid p =
     (let p = (if session p \<noteq> sid then p\<lparr>session := sid\<rparr> else p)
      in if pgrp p \<noteq> sid then p\<lparr>pgrp := sid\<rparr> else p)"

definition ksys_setsid :: "session_env \<Rightarrow> proc_state \<Rightarrow> proc_state \<times> int" where
  "ksys_setsid env s =
     (let gl = leader_proc env s;
          sid = pnum gl
      in if sleader gl then (s, - EPERM)
         else if pgrp_member s sid \<noteq> None then (s, - EPERM)
         else (update_proc sid (\<lambda>p. (set_special_pids sid (p\<lparr>sleader := True\<rparr>))\<lparr>tty := False\<rparr>) s, pid_vnr env sid))"

section \<open>The shape of the job control state\<close>

text \<open>
  Process numbers are distinct; two processes of one group are in one session; a process whose
  number names a group is in the session of that group; and a session leader is alone in
  naming its session and group: its number is its session and its group.
\<close>

definition session_inv :: "proc_state \<Rightarrow> bool" where
  "session_inv s \<longleftrightarrow> distinct (map pnum (procs s))
   \<and> (\<forall>p \<in> set (procs s). \<forall>q \<in> set (procs s). pgrp p = pgrp q \<longrightarrow> session p = session q)
   \<and> (\<forall>p \<in> set (procs s). \<forall>q \<in> set (procs s). pgrp p = pnum q \<longrightarrow> session p = session q)
   \<and> (\<forall>p \<in> set (procs s). sleader p \<longrightarrow> session p = pnum p \<and> pgrp p = pnum p)"

lemma find_SomeD: "find P xs = Some x \<Longrightarrow> x \<in> set xs \<and> P x"
  by (induction xs) (auto split: if_splits)

lemma find_NoneD: "find P xs = None \<Longrightarrow> x \<in> set xs \<Longrightarrow> \<not> P x"
  by (induction xs) (auto split: if_splits)

lemma proc_of_SomeD: "proc_of s n = Some p \<Longrightarrow> p \<in> set (procs s) \<and> pnum p = n"
  unfolding proc_of_def by (drule find_SomeD) simp

lemma find_task_leader: "find_task env s v = Some (p, True) \<Longrightarrow> p \<in> set (procs s)"
  by (auto simp: find_task_def split: option.splits dest: proc_of_SomeD)

lemma same_proc: "session_inv s \<Longrightarrow> p \<in> set (procs s) \<Longrightarrow> q \<in> set (procs s) \<Longrightarrow> pnum p = pnum q \<Longrightarrow> p = q"
  unfolding session_inv_def by (metis distinct_map inj_onD)

text \<open>The shape after an update of the processes that keeps their numbers.\<close>

lemma session_inv_map:
  assumes "\<And>q. pnum (F q) = pnum q"
  shows "session_inv (s\<lparr>procs := map F (procs s)\<rparr>) \<longleftrightarrow> distinct (map pnum (procs s))
   \<and> (\<forall>a \<in> set (procs s). \<forall>b \<in> set (procs s). pgrp (F a) = pgrp (F b) \<longrightarrow> session (F a) = session (F b))
   \<and> (\<forall>a \<in> set (procs s). \<forall>b \<in> set (procs s). pgrp (F a) = pnum b \<longrightarrow> session (F a) = session (F b))
   \<and> (\<forall>a \<in> set (procs s). sleader (F a) \<longrightarrow> session (F a) = pnum a \<and> pgrp (F a) = pnum a)"
  by (simp add: session_inv_def assms comp_def)

lemma session_inv_distinct: "session_inv s \<Longrightarrow> distinct (map pnum (procs s))"
  and session_inv_group: "session_inv s \<Longrightarrow> a \<in> set (procs s) \<Longrightarrow> b \<in> set (procs s) \<Longrightarrow> pgrp a = pgrp b \<Longrightarrow> session a = session b"
  and session_inv_named: "session_inv s \<Longrightarrow> a \<in> set (procs s) \<Longrightarrow> b \<in> set (procs s) \<Longrightarrow> pgrp a = pnum b \<Longrightarrow> session a = session b"
  and session_inv_leader: "session_inv s \<Longrightarrow> a \<in> set (procs s) \<Longrightarrow> sleader a \<Longrightarrow> session a = pnum a \<and> pgrp a = pnum a"
  unfolding session_inv_def by blast+

text \<open>A group change within the session keeps the shape.\<close>

lemma session_inv_pgrp:
  assumes inv: "session_inv s" and p: "p \<in> set (procs s)" and nl: "\<not> sleader p"
    and g: "\<And>q. q \<in> set (procs s) \<Longrightarrow> pgrp q = g \<Longrightarrow> session q = session p"
    and n: "\<And>q. q \<in> set (procs s) \<Longrightarrow> pnum q = g \<Longrightarrow> session q = session p"
  shows "session_inv (update_proc (pnum p) (\<lambda>q. q\<lparr>pgrp := g\<rparr>) s)"
proof -
  define F :: "proc \<Rightarrow> proc" where "F = (\<lambda>q. if pnum q = pnum p then q\<lparr>pgrp := g\<rparr> else q)"
  have f: "pnum (F q) = pnum q" "session (F q) = session q" "sleader (F q) = sleader q" for q
    by (simp_all add: F_def)
  have fp: "pgrp (F q) = (if q = p then g else pgrp q)" if "q \<in> set (procs s)" for q
    using same_proc[OF inv that p] by (auto simp: F_def)
  have k: "pgrp (F a) = pgrp (F b) \<longrightarrow> session a = session b"
    "pgrp (F a) = pnum b \<longrightarrow> session a = session b"
    "sleader a \<longrightarrow> session a = pnum a \<and> pgrp (F a) = pnum a"
    if ab: "a \<in> set (procs s)" "b \<in> set (procs s)" for a b
    using session_inv_group[OF inv ab] session_inv_named[OF inv ab] session_inv_leader[OF inv ab(1)]
      g[OF ab(1)] g[OF ab(2)] n[OF ab(2)] nl
    unfolding fp[OF ab(1)] fp[OF ab(2)] by (auto split: if_splits)
  have state: "update_proc (pnum p) (\<lambda>q. q\<lparr>pgrp := g\<rparr>) s = s\<lparr>procs := map F (procs s)\<rparr>"
    by (simp add: update_proc_def F_def)
  show ?thesis
    unfolding state session_inv_map[OF f(1)] f using session_inv_distinct[OF inv] k by blast
qed

lemma pgrp_member_None: "pgrp_member s g = None \<Longrightarrow> q \<in> set (procs s) \<Longrightarrow> pgrp q \<noteq> g"
  unfolding pgrp_member_def by (rule find_NoneD)

lemma pgrp_member_Some: "pgrp_member s g = Some q \<Longrightarrow> q \<in> set (procs s) \<and> pgrp q = g"
  unfolding pgrp_member_def by (drule find_SomeD) simp

text \<open>A new session keeps the shape, because no group of that number exists.\<close>

lemma session_inv_setsid:
  assumes inv: "session_inv s" and p: "p \<in> set (procs s)" and none: "pgrp_member s (pnum p) = None"
  shows "session_inv (update_proc (pnum p) (\<lambda>q. (set_special_pids (pnum p) (q\<lparr>sleader := True\<rparr>))\<lparr>tty := False\<rparr>) s)"
proof -
  define F :: "proc \<Rightarrow> proc" where
    "F = (\<lambda>q. if pnum q = pnum p then (set_special_pids (pnum p) (q\<lparr>sleader := True\<rparr>))\<lparr>tty := False\<rparr> else q)"
  have f: "pnum (F q) = pnum q" for q
    by (simp add: F_def set_special_pids_def Let_def)
  have fp: "pgrp (F q) = (if q = p then pnum p else pgrp q)" "session (F q) = (if q = p then pnum p else session q)"
    "sleader (F q) \<longleftrightarrow> q = p \<or> sleader q" if "q \<in> set (procs s)" for q
    using same_proc[OF inv that p] by (auto simp: F_def set_special_pids_def Let_def)
  have k: "pgrp (F a) = pgrp (F b) \<longrightarrow> session (F a) = session (F b)"
    "pgrp (F a) = pnum b \<longrightarrow> session (F a) = session (F b)"
    "sleader (F a) \<longrightarrow> session (F a) = pnum a \<and> pgrp (F a) = pnum a"
    if ab: "a \<in> set (procs s)" "b \<in> set (procs s)" for a b
    using session_inv_group[OF inv ab] session_inv_named[OF inv ab] session_inv_leader[OF inv ab(1)]
      pgrp_member_None[OF none ab(1)] pgrp_member_None[OF none ab(2)] same_proc[OF inv ab(2) p] same_proc[OF inv ab(1) p]
    unfolding fp[OF ab(1)] fp[OF ab(2)] by (auto split: if_splits)
  have state: "update_proc (pnum p) (\<lambda>q. (set_special_pids (pnum p) (q\<lparr>sleader := True\<rparr>))\<lparr>tty := False\<rparr>) s
      = s\<lparr>procs := map F (procs s)\<rparr>"
    by (simp add: update_proc_def F_def)
  show ?thesis
    unfolding state session_inv_map[OF f] using session_inv_distinct[OF inv] k by blast
qed

section \<open>What the calls do\<close>

lemma leader_proc_in:
  "proc_of s (cur_leader env) \<noteq> None \<Longrightarrow> leader_proc env s \<in> set (procs s) \<and> pnum (leader_proc env s) = cur_leader env"
  using proc_of_SomeD by (auto simp: leader_proc_def)

lemma setpgid_fails: "sys_setpgid env v g s = (s', r) \<Longrightarrow> r \<noteq> 0 \<Longrightarrow> s' = s"
  by (auto simp: sys_setpgid_def Let_def split: if_splits option.splits prod.splits)

lemma setpgid_succeeds:
  assumes "sys_setpgid env v0 g0 s = (s', 0)"
    and "v = (if v0 = 0 then pid_vnr env (pnum (leader_proc env s)) else v0)" and "pg = (if g0 = 0 then v else g0)"
  obtains p is_leader g where "find_task env s v = Some (p, is_leader)" "setpgid_check (leader_proc env s) p is_leader = 0"
    "target_pgrp env s (leader_proc env s) p v pg = Some g" "0 \<le> pg"
    "s' = (if pgrp p \<noteq> g then update_proc (pnum p) (\<lambda>q. q\<lparr>pgrp := g\<rparr>) s else s)"
  using assms(1) unfolding sys_setpgid_def Let_def assms(2,3)[symmetric]
  by (auto split: if_splits option.splits prod.splits)

lemma setpgid_check_ok:
  "setpgid_check gl p is_leader = 0 \<Longrightarrow> is_leader \<and> \<not> sleader p \<and> (session p = session gl \<or> pnum p = pnum gl)"
  by (auto simp: setpgid_check_def split: if_splits)

lemma target_pgrp_session:
  assumes inv: "session_inv s" and p: "p \<in> set (procs s)" and ses: "session p = session gl"
    and t: "target_pgrp env s gl p v pg = Some g" and q: "q \<in> set (procs s)"
  shows "pgrp q = g \<or> pnum q = g \<Longrightarrow> session q = session p"
proof (cases "pg = v")
  case True
  then have "g = pnum p" using t by (simp add: target_pgrp_def)
  then show "pgrp q = g \<or> pnum q = g \<Longrightarrow> session q = session p"
    using session_inv_named[OF inv q p] same_proc[OF inv q p] by auto
next
  case False
  then obtain m where "pgrp_member s g = Some m" and m: "session m = session gl"
    using t by (auto simp: target_pgrp_def split: option.splits if_splits)
  then have "m \<in> set (procs s)" "pgrp m = g" by (auto dest: pgrp_member_Some)
  then show "pgrp q = g \<or> pnum q = g \<Longrightarrow> session q = session p"
    using session_inv_group[OF inv q] session_inv_named[OF inv _ q] m ses by auto
qed

lemma setpgid_inv:
  assumes inv: "session_inv s" and cur: "proc_of s (cur_leader env) \<noteq> None"
  shows "session_inv (fst (sys_setpgid env v0 g0 s))"
proof (cases "snd (sys_setpgid env v0 g0 s) = 0")
  case False
  then show ?thesis using setpgid_fails[of env v0 g0 s] inv by (metis prod.collapse)
next
  case True
  then have run: "sys_setpgid env v0 g0 s = (fst (sys_setpgid env v0 g0 s), 0)" by (metis prod.collapse)
  obtain p l g v pg where t: "find_task env s v = Some (p, l)" "setpgid_check (leader_proc env s) p l = 0"
    "target_pgrp env s (leader_proc env s) p v pg = Some g"
    "fst (sys_setpgid env v0 g0 s) = (if pgrp p \<noteq> g then update_proc (pnum p) (\<lambda>q. q\<lparr>pgrp := g\<rparr>) s else s)"
    by (rule setpgid_succeeds[OF run refl refl])
  note c = setpgid_check_ok[OF t(2)]
  have p: "p \<in> set (procs s)" using t(1) c find_task_leader[of env s v p] by (cases l) auto
  have ses: "session p = session (leader_proc env s)"
    using c same_proc[OF inv p] leader_proc_in[OF cur] by blast
  show ?thesis
    unfolding t(4)
    using inv session_inv_pgrp[OF inv p, of g] target_pgrp_session[OF inv p ses t(3)] c by simp
qed

lemma setsid_inv:
  assumes inv: "session_inv s" and cur: "proc_of s (cur_leader env) \<noteq> None"
  shows "session_inv (fst (ksys_setsid env s))"
  using inv session_inv_setsid[OF inv, of "leader_proc env s"] leader_proc_in[OF cur]
  by (auto simp: ksys_setsid_def Let_def)

lemma pnum_update_proc:
  "(\<And>q. pnum (f q) = pnum q) \<Longrightarrow> map pnum (procs (update_proc n f s)) = map pnum (procs s)"
  by (simp add: update_proc_def)

lemma setpgid_pnums: "map pnum (procs (fst (sys_setpgid env v g s))) = map pnum (procs s)"
proof (cases "snd (sys_setpgid env v g s) = 0")
  case False
  then show ?thesis using setpgid_fails[of env v g s] by (metis prod.collapse)
next
  case True
  then have run: "sys_setpgid env v g s = (fst (sys_setpgid env v g s), 0)" by (metis prod.collapse)
  show ?thesis
    by (rule setpgid_succeeds[OF run refl refl]) (simp add: pnum_update_proc)
qed

lemma setsid_pnums: "map pnum (procs (fst (ksys_setsid env s))) = map pnum (procs s)"
  by (simp add: ksys_setsid_def Let_def pnum_update_proc set_special_pids_def)

lemma proc_of_iff: "proc_of s n \<noteq> None \<longleftrightarrow> n \<in> set (map pnum (procs s))"
  by (auto simp: proc_of_def find_None_iff)

datatype session_call = Setpgid int int | Setsid

fun session_step :: "session_env \<times> session_call \<Rightarrow> proc_state \<Rightarrow> proc_state" where
  "session_step (env, Setpgid v g) s = fst (sys_setpgid env v g s)"
| "session_step (env, Setsid) s = fst (ksys_setsid env s)"

interpretation jobs: kept_invariant session_step "\<lambda>x. cur_leader (fst x) \<in> N"
  "\<lambda>s. session_inv s \<and> N = set (map pnum (procs s))" for N
proof
  fix x :: "session_env \<times> session_call" and s
  assume a: "cur_leader (fst x) \<in> N" "session_inv s \<and> N = set (map pnum (procs s))"
  then have cur: "proc_of s (cur_leader (fst x)) \<noteq> None" using proc_of_iff by blast
  obtain env c where x: "x = (env, c)" by fastforce
  have "session_inv (session_step x s)"
    using a cur setpgid_inv[of s env] setsid_inv[of s env] by (cases c) (simp_all add: x)
  moreover have "map pnum (procs (session_step x s)) = map pnum (procs s)"
    by (cases c) (simp_all add: x setpgid_pnums setsid_pnums)
  ultimately show "session_inv (session_step x s) \<and> N = set (map pnum (procs (session_step x s)))"
    using a by simp
qed

text \<open>
  C31. Job control keeps its shape under every sequence of \<open>setpgid\<close> and \<open>setsid\<close> calls by any
  of the processes: no process group ever spans two sessions, and a session leader keeps its
  own number as session and group.
\<close>

theorem groups_stay_in_one_session:
  assumes "session_inv s" and "list_all (\<lambda>x. cur_leader (fst x) \<in> pnum ` set (procs s)) xs"
    and "s' = fold session_step xs s" and "p \<in> set (procs s')" and "q \<in> set (procs s')" and "pgrp p = pgrp q"
  shows "session p = session q \<and> (sleader p \<longrightarrow> session p = pnum p \<and> pgrp p = pnum p)"
proof -
  have "session_inv (fold session_step xs s) \<and> pnum ` set (procs s) = set (map pnum (procs (fold session_step xs s)))"
    by (rule jobs.run_inv[OF assms(2)]) (use assms(1) in simp)
  then have "session_inv s'" unfolding assms(3) by blast
  then show ?thesis
    using session_inv_group[OF _ assms(4,5,6)] session_inv_leader[OF _ assms(4)] by blast
qed

text \<open>A small system: a shell that leads its session and two of its children.\<close>

definition plain_session_env :: "nat \<Rightarrow> session_env" where
  "plain_session_env me = \<lparr>cur_thread = me, cur_leader = me,
     find_vpid = (\<lambda>v. if 0 < v \<and> v < 100 then Some (nat v) else None), pid_vnr = int,
     security_task_setpgid = (\<lambda>_ _. 0), security_task_getpgid = (\<lambda>_. 0), security_task_getsid = (\<lambda>_. 0)\<rparr>"

definition plain_procs :: proc_state where
  "plain_procs = \<lparr>procs =
     [\<lparr>pnum = 10, parent = 1, pgrp = 10, session = 10, sleader = True, forknoexec = False, tty = True\<rparr>,
      \<lparr>pnum = 11, parent = 10, pgrp = 10, session = 10, sleader = False, forknoexec = True, tty = True\<rparr>,
      \<lparr>pnum = 12, parent = 10, pgrp = 10, session = 10, sleader = False, forknoexec = True, tty = True\<rparr>],
     threads = [(13, 12)]\<rparr>"

lemma plain_procs_inv: "session_inv plain_procs"
  by (simp add: session_inv_def plain_procs_def)

theorem groups_stay_in_one_session_witness:
  "let sh = plain_session_env 10;
       s' = fold session_step [(sh, Setpgid 11 11), (sh, Setpgid 12 11), (plain_session_env 12, Setsid)] plain_procs
   in \<forall>p \<in> set (procs s'). \<forall>q \<in> set (procs s'). pgrp p = pgrp q \<longrightarrow> session p = session q"
proof -
  let ?xs = "[(plain_session_env 10, Setpgid 11 11), (plain_session_env 10, Setpgid 12 11), (plain_session_env 12, Setsid)]"
  have "list_all (\<lambda>x. cur_leader (fst x) \<in> pnum ` set (procs plain_procs)) ?xs"
    by (simp add: plain_session_env_def plain_procs_def)
  from groups_stay_in_one_session[OF plain_procs_inv this refl] show ?thesis
    unfolding Let_def by blast
qed

section \<open>Reading back\<close>

lemma find_map_pnum:
  "(\<And>q. pnum (f q) = pnum q) \<Longrightarrow>
   find (\<lambda>p. pnum p = n) (map f ps) = map_option f (find (\<lambda>p. pnum p = n) ps)"
  by (induction ps) auto

lemma proc_of_update:
  assumes "\<And>q. pnum (f q) = pnum q"
  shows "proc_of (update_proc k f s) n = (if n = k then map_option f (proc_of s n) else proc_of s n)"
proof -
  have "proc_of (update_proc k f s) n = map_option (\<lambda>p. if pnum p = k then f p else p) (proc_of s n)"
    unfolding proc_of_def update_proc_def using assms by (simp add: find_map_pnum)
  then show ?thesis
    using proc_of_SomeD[of s n] by (cases "proc_of s n") auto
qed

lemma find_task_leaderE:
  assumes "find_task env s v = Some (p, True)"
  shows "find_vpid env v = Some (pnum p)" "proc_of s (pnum p) = Some p"
  using assms proc_of_SomeD[of s] by (auto simp: find_task_def split: option.splits)

text \<open>
  \<open>setpgid\<close> puts the target where it says: after it returned 0, \<open>getpgid\<close> of the target
  reports the group asked for (the number of the target itself when 0 was passed), the
  target is in the session of the caller, and every other process is as before.
\<close>

theorem setpgid_getpgid:
  assumes inv: "session_inv s" and cur: "proc_of s (cur_leader env) \<noteq> None"
    and inverse: "\<And>v n. find_vpid env v = Some n \<Longrightarrow> pid_vnr env n = v"
    and hook: "\<And>p. security_task_getpgid env p = 0"
    and v: "v \<noteq> 0" and run: "sys_setpgid env v g s = (s', 0)"
  shows "sys_getpgid env v s' = (if g = 0 then v else g)
    \<and> sys_getsid env 0 s' = pid_vnr env (session (leader_proc env s))
    \<and> (\<exists>p. find_task env s v = Some (p, True) \<and> session p = session (leader_proc env s)
         \<and> (\<forall>n. n \<noteq> pnum p \<longrightarrow> proc_of s' n = proc_of s n))"
proof -
  let ?gl = "leader_proc env s" and ?pg = "if g = 0 then v else g"
  have vv: "v = (if v = 0 then pid_vnr env (pnum ?gl) else v)" using v by simp
  obtain p l k where t: "find_task env s v = Some (p, l)" "setpgid_check ?gl p l = 0"
    "target_pgrp env s ?gl p v ?pg = Some k"
    "s' = (if pgrp p \<noteq> k then update_proc (pnum p) (\<lambda>q. q\<lparr>pgrp := k\<rparr>) s else s)"
    by (rule setpgid_succeeds[OF run vv refl])
  note c = setpgid_check_ok[OF t(2)]
  then have tl: "find_task env s v = Some (p, True)" using t(1) by simp
  note fp = find_task_leaderE[OF tl]
  have p: "p \<in> set (procs s)" by (rule find_task_leader[OF tl])
  have ses: "session p = session ?gl"
    using c same_proc[OF inv p] leader_proc_in[OF cur] by blast
  have k: "pid_vnr env k = ?pg"
  proof (cases "?pg = v")
    case True
    then show ?thesis using t(3) inverse[OF fp(1)] by (simp add: target_pgrp_def)
  next
    case False
    then have "find_vpid env ?pg = Some k"
      using t(3) by (simp add: target_pgrp_def split: option.splits if_split_asm)
    then show ?thesis by (rule inverse)
  qed
  have look: "proc_of s' n = (if n = pnum p then Some (p\<lparr>pgrp := k\<rparr>) else proc_of s n)" for n
    using fp(2) by (cases "pgrp p = k") (simp_all add: t(4) proc_of_update)
  have "find_task env s' v = Some (p\<lparr>pgrp := k\<rparr>, True)"
    using fp(1) by (simp add: find_task_def look)
  then have "sys_getpgid env v s' = ?pg"
    using v hook k by (simp add: sys_getpgid_def do_getpgid_def Let_def)
  moreover have "session (leader_proc env s') = session ?gl"
    using fp(2) by (simp add: leader_proc_def look)
  ultimately show ?thesis
    using tl ses by (simp add: look sys_getsid_def)
qed

theorem setpgid_getpgid_witness:
  "let env = plain_session_env 10; s' = fst (sys_setpgid env 11 0 plain_procs)
   in snd (sys_setpgid env 11 0 plain_procs) = 0 \<and> sys_getpgid env 11 s' = 11 \<and> sys_getsid env 0 s' = 10"
proof -
  let ?env = "plain_session_env 10"
  have z: "snd (sys_setpgid ?env 11 0 plain_procs) = 0" by code_simp
  then have run: "sys_setpgid ?env 11 0 plain_procs = (fst (sys_setpgid ?env 11 0 plain_procs), 0)"
    by (metis prod.collapse)
  have h: "proc_of plain_procs (cur_leader ?env) \<noteq> None"
    "\<And>v n. find_vpid ?env v = Some n \<Longrightarrow> pid_vnr ?env n = v" "\<And>p. security_task_getpgid ?env p = 0"
    by (simp_all add: plain_session_env_def plain_procs_def proc_of_def split: if_splits)
  have "pid_vnr ?env (session (leader_proc ?env plain_procs)) = 10" by code_simp
  then show ?thesis
    using setpgid_getpgid[OF plain_procs_inv h _ run] z by (simp add: Let_def)
qed

text \<open>
  \<open>setsid\<close> succeeds exactly when the caller leads no session and no group has its number.
  It then is alone in a new session and group of its own number, without a terminal; every
  other process is as before; and a second call fails.
\<close>

theorem setsid_new_session:
  assumes cur: "proc_of s (cur_leader env) = Some me"
    and pos: "0 < pid_vnr env (cur_leader env)" and run: "ksys_setsid env s = (s', r)"
  shows "r = (if sleader me \<or> pgrp_member s (pnum me) \<noteq> None then - EPERM else sys_getpid env)
    \<and> (r > 0 \<longrightarrow> proc_of s' (pnum me) = Some (me\<lparr>session := pnum me, pgrp := pnum me, sleader := True, tty := False\<rparr>)
         \<and> (\<forall>n. n \<noteq> pnum me \<longrightarrow> proc_of s' n = proc_of s n)
         \<and> sys_getsid env 0 s' = sys_getpid env \<and> sys_getpgrp env s' = sys_getpid env
         \<and> ksys_setsid env s' = (s', - EPERM))
    \<and> (r \<le> 0 \<longrightarrow> s' = s)"
proof -
  have me: "leader_proc env s = me" "pnum me = cur_leader env"
    using cur proc_of_SomeD[OF cur] by (simp_all add: leader_proc_def)
  show ?thesis
  proof (cases "sleader me \<or> pgrp_member s (pnum me) \<noteq> None")
    case True
    then have "ksys_setsid env s = (s, - EPERM)"
      unfolding ksys_setsid_def me(1) Let_def by auto
    then have "s' = s" "r = - EPERM" using run by simp_all
    with True show ?thesis by simp
  next
    case False
    let ?f = "\<lambda>p. (set_special_pids (pnum me) (p\<lparr>sleader := True\<rparr>))\<lparr>tty := False\<rparr>"
    let ?new = "me\<lparr>session := pnum me, pgrp := pnum me, sleader := True, tty := False\<rparr>"
    have s': "s' = update_proc (pnum me) ?f s" "r = sys_getpid env"
      using run False by (simp_all add: ksys_setsid_def me Let_def sys_getpid_def)
    have f: "pnum (?f p) = pnum p" for p by (simp add: set_special_pids_def Let_def)
    have new: "?f me = ?new" by (auto simp: set_special_pids_def Let_def)
    have look: "proc_of s' n = (if n = pnum me then Some ?new else proc_of s n)" for n
      unfolding s'(1) proc_of_update[OF f] using cur me(2) new by simp
    have gl: "leader_proc env s' = ?new" using me(2) by (simp add: leader_proc_def look)
    have "sys_getsid env 0 s' = sys_getpid env" "sys_getpgrp env s' = sys_getpid env" "ksys_setsid env s' = (s', - EPERM)"
      by (simp_all add: sys_getsid_def sys_getpgrp_def do_getpgid_def gl sys_getpid_def me(2) ksys_setsid_def Let_def)
    then show ?thesis
      using False pos s'(2) by (simp add: look sys_getpid_def me(2))
  qed
qed

theorem setsid_new_session_witness:
  "let env = plain_session_env 12; r = ksys_setsid env plain_procs
   in snd r = 12 \<and> ksys_setsid env (fst r) = (fst r, - EPERM)"
proof -
  let ?env = "plain_session_env 12" and ?me = "\<lparr>pnum = 12, parent = 10, pgrp = 10, session = 10, sleader = False, forknoexec = True, tty = True\<rparr>"
  have h: "proc_of plain_procs (cur_leader ?env) = Some ?me" "0 < pid_vnr ?env (cur_leader ?env)"
    by (simp_all add: plain_session_env_def plain_procs_def proc_of_def)
  have "snd (ksys_setsid ?env plain_procs) = 12" by code_simp
  then show ?thesis
    using setsid_new_session[OF h prod.collapse[symmetric]] by (simp add: Let_def)
qed

end
