(* ===== verification/Uts_Names.thy ===== *)
theory Uts_Names
  imports Kernel_Prelude
begin

text \<open>
  The names of the system (kernel/sys.c, \<open>override_release\<close> to \<open>setdomainname\<close>): the calls that
  report them in three layouts, and the calls that change the host and the domain name.

  Outside code and generated text, the record \<open>uts_env\<close>: the capability test, the
  personality of the task, the release string, the patch level and the machine name reported
  to 32-bit programs. The entropy pool and the sysctl notification are left out.
\<close>

section \<open>State\<close>

text \<open>Every name is an array of 65 bytes.\<close>

record new_utsname =
  sysname :: "u8 list"
  nodename :: "u8 list"
  release :: "u8 list"
  version :: "u8 list"
  machine :: "u8 list"
  domainname :: "u8 list"

record uts_env =
  uts_capable :: bool
  personality :: u32
  UTS_RELEASE :: "u8 list"
  PATCHLEVEL :: nat
  COMPAT_UTS_MACHINE :: "u8 list"

abbreviation NEW_UTS_LEN :: nat where "NEW_UTS_LEN \<equiv> 64"
abbreviation OLD_UTS_LEN :: nat where "OLD_UTS_LEN \<equiv> 8"
abbreviation UNAME26 :: u32 where "UNAME26 \<equiv> 0x0020000"
abbreviation PER_MASK :: u32 where "PER_MASK \<equiv> 0xff"
abbreviation PER_LINUX32 :: u32 where "PER_LINUX32 \<equiv> 8"

definition utsname_bytes :: "new_utsname \<Rightarrow> u8 list" where
  "utsname_bytes u = sysname u @ nodename u @ release u @ version u @ machine u @ domainname u"

section \<open>Overrides\<close>

text \<open>The loop over the release string: skip digits and dots, up to the third dot.\<close>

definition isdigit :: "u8 \<Rightarrow> bool" where
  "isdigit c \<longleftrightarrow> 48 \<le> c \<and> c \<le> 57"

fun skip_release :: "nat \<Rightarrow> u8 list \<Rightarrow> u8 list" where
  "skip_release ndots [] = []"
| "skip_release ndots (c # rest) =
     (if c = 46 \<and> Suc ndots \<ge> 3 then c # rest
      else if \<not> isdigit c \<and> c \<noteq> 46 then c # rest
      else skip_release (if c = 46 then Suc ndots else ndots) rest)"

text \<open>The conversion \<open>%u\<close>.\<close>

fun decimal :: "nat \<Rightarrow> u8 list" where
  "decimal n = (if n < 10 then [of_nat (48 + n)] else decimal (n div 10) @ [of_nat (48 + n mod 10)])"

declare decimal.simps [simp del]

text \<open>
  The text for a field of \<open>len\<close> bytes: \<open>scnprintf\<close> keeps what fits with its terminating zero,
  and one byte more than it reports is copied out.
\<close>

definition release26 :: "uts_env \<Rightarrow> nat \<Rightarrow> u8 list" where
  "release26 env len =
     (let copy = max 1 (min len 65);
          text = [50, 46, 54, 46] @ decimal (PATCHLEVEL env + 60) @ skip_release 0 (UTS_RELEASE env)
      in take (copy - 1) text @ [0])"

definition override_release :: "uaccess \<Rightarrow> uts_env \<Rightarrow> addr \<Rightarrow> nat \<Rightarrow> umem \<Rightarrow> umem \<times> nat" where
  "override_release ua env p len m =
     (if personality env AND UNAME26 \<noteq> 0 then copy_to_user ua m p (release26 env len) else (m, 0))"

definition override_architecture :: "uaccess \<Rightarrow> uts_env \<Rightarrow> addr \<Rightarrow> umem \<Rightarrow> umem \<times> nat" where
  "override_architecture ua env p m =
     (if personality env AND PER_MASK = PER_LINUX32 then copy_to_user ua m p (COMPAT_UTS_MACHINE env) else (m, 0))"

section \<open>Reporting the names\<close>

definition sys_newuname :: "uaccess \<Rightarrow> uts_env \<Rightarrow> addr \<Rightarrow> new_utsname \<Rightarrow> umem \<Rightarrow> umem \<times> int" where
  "sys_newuname ua env p u m =
     (let (m1, left) = copy_to_user ua m p (utsname_bytes u)
      in if left \<noteq> 0 then (m1, - EFAULT)
         else (let (m2, left) = override_release ua env (p + 130) 65 m1
               in if left \<noteq> 0 then (m2, - EFAULT)
                  else (let (m3, left) = override_architecture ua env (p + 260) m2
                        in (m3, if left \<noteq> 0 then - EFAULT else 0))))"

text \<open>The older layout has no domain name.\<close>

definition sys_uname :: "uaccess \<Rightarrow> uts_env \<Rightarrow> addr \<Rightarrow> new_utsname \<Rightarrow> umem \<Rightarrow> umem \<times> int" where
  "sys_uname ua env p u m =
     (if p = NULL then (m, - EFAULT)
      else (let (m1, left) = copy_to_user ua m p (take 325 (utsname_bytes u))
            in if left \<noteq> 0 then (m1, - EFAULT)
               else (let (m2, left) = override_release ua env (p + 130) 65 m1
                     in if left \<noteq> 0 then (m2, - EFAULT)
                        else (let (m3, left) = override_architecture ua env (p + 260) m2
                              in (m3, if left \<noteq> 0 then - EFAULT else 0)))))"

text \<open>The oldest layout: five fields of nine bytes, eight of them copied.\<close>

definition oldold :: "u8 list \<Rightarrow> u8 list" where
  "oldold name = take OLD_UTS_LEN name @ [0]"

definition sys_olduname :: "uaccess \<Rightarrow> uts_env \<Rightarrow> addr \<Rightarrow> new_utsname \<Rightarrow> umem \<Rightarrow> umem \<times> int" where
  "sys_olduname ua env p u m =
     (if p = NULL then (m, - EFAULT)
      else (let (m1, left) = copy_to_user ua m p
                  (oldold (sysname u) @ oldold (nodename u) @ oldold (release u) @ oldold (version u) @ oldold (machine u))
            in if left \<noteq> 0 then (m1, - EFAULT)
               else (let (m2, left) = override_architecture ua env (p + 36) m1
                     in if left \<noteq> 0 then (m2, - EFAULT)
                        else (let (m3, left) = override_release ua env (p + 18) 9 m2
                              in (m3, if left \<noteq> 0 then - EFAULT else 0)))))"

section \<open>Changing the names\<close>

definition sys_sethostname :: "uaccess \<Rightarrow> uts_env \<Rightarrow> addr \<Rightarrow> int \<Rightarrow> new_utsname \<Rightarrow> umem \<Rightarrow> new_utsname \<times> int" where
  "sys_sethostname ua env p len u m =
     (if \<not> uts_capable env then (u, - EPERM)
      else if len < 0 \<or> len > int NEW_UTS_LEN then (u, - EINVAL)
      else (let (tmp, left) = copy_from_user ua m p (nat len)
            in if left = 0 then (u\<lparr>nodename := tmp @ replicate (65 - nat len) 0\<rparr>, 0) else (u, - EFAULT)))"

definition sys_setdomainname :: "uaccess \<Rightarrow> uts_env \<Rightarrow> addr \<Rightarrow> int \<Rightarrow> new_utsname \<Rightarrow> umem \<Rightarrow> new_utsname \<times> int" where
  "sys_setdomainname ua env p len u m =
     (if \<not> uts_capable env then (u, - EPERM)
      else if len < 0 \<or> len > int NEW_UTS_LEN then (u, - EINVAL)
      else (let (tmp, left) = copy_from_user ua m p (nat len)
            in if left = 0 then (u\<lparr>domainname := tmp @ replicate (65 - nat len) 0\<rparr>, 0) else (u, - EFAULT)))"

definition strlen :: "u8 list \<Rightarrow> nat" where
  "strlen bs = length (takeWhile (\<lambda>b. b \<noteq> 0) bs)"

definition sys_gethostname :: "uaccess \<Rightarrow> addr \<Rightarrow> int \<Rightarrow> new_utsname \<Rightarrow> umem \<Rightarrow> umem \<times> int" where
  "sys_gethostname ua p len u m =
     (if len < 0 then (m, - EINVAL)
      else (let i = 1 + strlen (nodename u);
                i = (if int i > len then nat len else i);
                (m1, left) = copy_to_user ua m p (take i (nodename u))
            in (m1, if left \<noteq> 0 then - EFAULT else 0)))"

section \<open>Well-formed names\<close>

text \<open>A name has 65 bytes and ends with a zero.\<close>

definition name_ok :: "u8 list \<Rightarrow> bool" where
  "name_ok bs \<longleftrightarrow> length bs = 65 \<and> bs ! 64 = 0"

definition uts_ok :: "new_utsname \<Rightarrow> bool" where
  "uts_ok u \<longleftrightarrow> name_ok (sysname u) \<and> name_ok (nodename u) \<and> name_ok (release u) \<and> name_ok (version u)
     \<and> name_ok (machine u) \<and> name_ok (domainname u)"

datatype uts_call = Sethostname addr int umem | Setdomainname addr int umem

fun uts_step :: "(uaccess \<times> uts_env) \<times> uts_call \<Rightarrow> new_utsname \<Rightarrow> new_utsname" where
  "uts_step ((ua, env), Sethostname p len m) u = fst (sys_sethostname ua env p len u m)"
| "uts_step ((ua, env), Setdomainname p len m) u = fst (sys_setdomainname ua env p len u m)"

lemma name_ok_padded: "length bs \<le> 64 \<Longrightarrow> name_ok (bs @ replicate (65 - length bs) 0)"
  by (simp add: name_ok_def nth_append)

lemma uts_step_ok:
  assumes "uaccess_ok (fst (fst x))" and "uts_ok u"
  shows "uts_ok (uts_step x u)"
proof -
  obtain ua env c where x: "x = ((ua, env), c)" by (metis prod.collapse)
  have pad: "name_ok (bs @ replicate (65 - nat n) 0)"
    if "copy_from_user ua m p (nat n) = (bs, 0)" "\<not> n < 0" "\<not> n > 64" for m p n bs
  proof -
    have "length bs = nat n"
      using that(1) copy_from_user_success[of ua m p "nat n" bs] assms(1) x by simp
    then show ?thesis using name_ok_padded[of bs] that(2,3) by simp
  qed
  show ?thesis
    using assms(2) pad by (cases c)
      (auto simp: x sys_sethostname_def sys_setdomainname_def uts_ok_def Let_def split: prod.split)
qed

interpretation names: kept_invariant uts_step "\<lambda>x. uaccess_ok (fst (fst x))" uts_ok
  by unfold_locales (rule uts_step_ok)

lemma strlen_name_ok: "name_ok bs \<Longrightarrow> strlen bs \<le> 64"
proof (rule ccontr)
  let ?t = "takeWhile (\<lambda>b. b \<noteq> 0) bs"
  assume b: "name_ok bs" and "\<not> strlen bs \<le> 64"
  then have l: "64 < length ?t" by (simp add: strlen_def)
  then have "?t ! 64 \<in> set ?t" by (rule nth_mem)
  then have "?t ! 64 \<noteq> 0" by (auto dest: set_takeWhileD)
  then show False using b l by (simp add: takeWhile_nth name_ok_def)
qed

text \<open>
  C32. The names keep their type: after every sequence of \<open>sethostname\<close> and \<open>setdomainname\<close>
  calls, with any lengths and any user memory, each name is an array of 65 bytes that ends in
  a zero, so \<open>strlen\<close> stays inside it.
\<close>

theorem uts_names_terminated:
  assumes "uts_ok u" and "list_all (\<lambda>x. uaccess_ok (fst (fst x))) xs"
  shows "uts_ok (fold uts_step xs u) \<and> strlen (nodename (fold uts_step xs u)) \<le> 64"
proof -
  have ok: "uts_ok (fold uts_step xs u)" by (rule names.run_inv[OF assms(2,1)])
  then show ?thesis using strlen_name_ok by (simp add: uts_ok_def)
qed

text \<open>The names of this tree (include/linux/uts.h), as bytes.\<close>

definition cstring :: "string \<Rightarrow> u8 list" where
  "cstring t = map (\<lambda>c. of_nat (of_char c)) t @ replicate (65 - length t) 0"

definition UTS_SYSNAME :: string where
  "UTS_SYSNAME = ''Linux sopesOS''"

definition UTS_DOMAINNAME :: string where
  "UTS_DOMAINNAME = ''(none)''"

text \<open>A concrete state; the release, the version and the machine come from the build.\<close>

definition init_uts :: new_utsname where
  "init_uts = \<lparr>sysname = cstring UTS_SYSNAME, nodename = cstring ''(none)'', release = cstring ''6.8.0'',
     version = cstring ''#1'', machine = cstring ''x86_64'', domainname = cstring UTS_DOMAINNAME\<rparr>"

definition plain_uts_env :: "u32 \<Rightarrow> uts_env" where
  "plain_uts_env pers = \<lparr>uts_capable = True, personality = pers, UTS_RELEASE = [54, 46, 56, 46, 48, 45, 97],
     PATCHLEVEL = 8, COMPAT_UTS_MACHINE = [105, 54, 56, 54, 0]\<rparr>"

lemma init_uts_ok: "uts_ok init_uts"
  by (simp add: uts_ok_def name_ok_def init_uts_def cstring_def nth_append UTS_SYSNAME_def UTS_DOMAINNAME_def)

theorem uts_names_terminated_witness:
  "let u = fold uts_step [((flat_uaccess (\<lambda>_. True), plain_uts_env 0), Sethostname 4096 64 (\<lambda>_. 97)),
       ((flat_uaccess (\<lambda>_. True), plain_uts_env 0), Setdomainname 4096 65 (\<lambda>_. 97))] init_uts
   in uts_ok u \<and> strlen (nodename u) \<le> 64"
  unfolding Let_def
  by (rule uts_names_terminated[OF init_uts_ok]) (simp add: flat_uaccess_ok)

section \<open>Round trip\<close>

lemma takeWhile_padded: "0 \<notin> set bs \<Longrightarrow> takeWhile (\<lambda>b. b \<noteq> 0) (bs @ replicate n 0) = (bs :: u8 list)"
  by (subst takeWhile_append2) (auto simp: takeWhile_replicate)

text \<open>
  The host name round trip: a name without zero bytes that \<open>sethostname\<close> accepted is what
  \<open>gethostname\<close> delivers, with its terminating zero, cut to the size of the buffer.
\<close>

theorem sethostname_gethostname:
  assumes ua: "uaccess_ok ua" and set: "sys_sethostname ua env p len u m = (u', 0)"
    and bs: "bs = mem_read m p (nat len)" "0 \<notin> set bs"
    and get: "sys_gethostname ua q n u' m1 = (m', 0)"
  shows "mem_read m' q (min (Suc (nat len)) (nat n)) = take (nat n) (bs @ [0])"
proof -
  have len: "0 \<le> len" "len \<le> 64" and cp: "copy_from_user ua m p (nat len) = (bs, 0)"
    and u': "nodename u' = bs @ replicate (65 - nat len) 0"
    using set copy_from_user_success[OF ua, of m p "nat len"] bs(1)
    by (auto simp: sys_sethostname_def Let_def split: if_splits prod.splits)
  have l: "length bs = nat len" by (simp add: bs(1))
  have st: "strlen (nodename u') = nat len"
    using takeWhile_padded[OF bs(2)] l by (simp add: strlen_def u')
  define i where "i = min (Suc (nat len)) (nat n)"
  have "65 - nat len = Suc (64 - nat len)" using len by simp
  then have "replicate (65 - nat len) 0 = (0 :: u8) # replicate (64 - nat len) 0" by simp
  then have "take (Suc (nat len)) (nodename u') = bs @ [0]" using l by (simp add: u')
  then have out: "take i (nodename u') = take (nat n) (bs @ [0])"
    using l unfolding i_def by (metis min.commute take_take)
  have "n \<ge> 0" and c: "copy_to_user ua m1 q (take i (nodename u')) = (m', 0)"
    using get by (auto simp: sys_gethostname_def Let_def st i_def min_def split: if_splits prod.splits)
  have "m' = mem_write m1 q (take i (nodename u'))"
    by (rule copy_to_user_success[OF ua c])
  moreover have "length (take i (nodename u')) = i" "i \<le> 65"
    unfolding out using l len by (auto simp: i_def min_def)
  ultimately show ?thesis
    using out by (simp flip: i_def)
qed

theorem sethostname_gethostname_witness:
  "let ua = flat_uaccess (\<lambda>_. True); m = (\<lambda>a. if a = 4096 then 115 else if a = 4097 then 111 else 50);
       u' = fst (sys_sethostname ua (plain_uts_env 0) 4096 3 init_uts m);
       m' = fst (sys_gethostname ua 8192 10 u' m)
   in mem_read m' 8192 4 = [115, 111, 50, 0]"
proof -
  let ?ua = "flat_uaccess (\<lambda>_. True)" and ?m = "(\<lambda>a. if a = 4096 then 115 else if a = 4097 then 111 else 50) :: umem"
  let ?set = "sys_sethostname ?ua (plain_uts_env 0) 4096 3 init_uts ?m"
  let ?get = "sys_gethostname ?ua 8192 10 (fst ?set) ?m"
  have "snd (sys_gethostname ?ua 8192 10 u ?m) = 0" for u
    by (simp add: sys_gethostname_def Let_def flat_uaccess_total)
  moreover have "snd ?set = 0"
    by (simp add: sys_sethostname_def flat_uaccess_total plain_uts_env_def)
  ultimately have z: "snd ?set = 0" "snd ?get = 0" by blast+
  have r: "?set = (fst ?set, 0)" "?get = (fst ?get, 0)" by (simp_all only: prod_eq_iff fst_conv snd_conv z)
  have b: "mem_read ?m 4096 (nat 3) = [115, 111, 50]" by (simp add: mem_read_def upt_rec)
  have "mem_read (fst ?get) 8192 (min (Suc (nat 3)) (nat 10)) = take (nat 10) (mem_read ?m 4096 (nat 3) @ [0])"
    by (rule sethostname_gethostname[OF flat_uaccess_ok r(1) refl _ r(2)]) (simp only: b, simp)
  moreover have "min (Suc (nat 3)) (nat 10) = 4" by simp
  ultimately show ?thesis
    unfolding Let_def b by simp
qed

section \<open>Nothing outside the buffer\<close>

lemma span_sub: "off + n \<le> k \<Longrightarrow> k \<le> 2 ^ 63 \<Longrightarrow> span (p + of_nat off) n \<subseteq> span p k"
proof
  fix x assume a: "off + n \<le> k" "k \<le> 2 ^ 63" and "x \<in> span (p + of_nat off) n"
  then have "unat (x - p - of_nat off) < n" by (simp add: span_def algebra_simps)
  moreover have "x - p = (x - p - of_nat off) + of_nat off" by simp
  moreover have "unat ((x - p - of_nat off) + of_nat off) = unat (x - p - of_nat off) + off"
    using calculation(1) a by (subst unat_add_64) (simp_all add: unat_of_nat_64)
  ultimately show "x \<in> span p k" using a by (simp add: span_def)
qed

lemma length_release26: "1 \<le> len \<Longrightarrow> len \<le> 65 \<Longrightarrow> length (release26 env len) \<le> len"
  by (simp add: release26_def Let_def)

lemma override_frame:
  assumes ua: "uaccess_ok ua"
  shows "1 \<le> len \<Longrightarrow> len \<le> 65 \<Longrightarrow> override_release ua env a len m = (m', l) \<Longrightarrow> x \<notin> span a len \<Longrightarrow> m' x = m x"
    and "length (COMPAT_UTS_MACHINE env) \<le> k \<Longrightarrow> override_architecture ua env a m = (m', l) \<Longrightarrow> x \<notin> span a k \<Longrightarrow> m' x = m x"
proof -
  have out: "x \<notin> span a n \<Longrightarrow> j \<le> n \<Longrightarrow> x \<notin> span a j" for j n by (auto simp: span_def)
  show "1 \<le> len \<Longrightarrow> len \<le> 65 \<Longrightarrow> override_release ua env a len m = (m', l) \<Longrightarrow> x \<notin> span a len \<Longrightarrow> m' x = m x"
    using copy_to_user_frame[OF ua] out length_release26[of len env] by (auto simp: override_release_def split: if_splits)
  show "length (COMPAT_UTS_MACHINE env) \<le> k \<Longrightarrow> override_architecture ua env a m = (m', l) \<Longrightarrow> x \<notin> span a k \<Longrightarrow> m' x = m x"
    using copy_to_user_frame[OF ua] out by (auto simp: override_architecture_def split: if_splits)
qed

text \<open>
  The three calls that report the names write only inside the structure of the caller
  (390, 325 and 45 bytes), whatever the personality of the task and however long the release
  string is, and whether or not they fail.
\<close>

theorem uname_stays_in_buffer:
  assumes ua: "uaccess_ok ua" and u: "uts_ok u" and mach: "length (COMPAT_UTS_MACHINE env) \<le> 9"
  shows "(x \<notin> span p 390 \<longrightarrow> fst (sys_newuname ua env p u m) x = m x)
    \<and> (x \<notin> span p 325 \<longrightarrow> fst (sys_uname ua env p u m) x = m x)
    \<and> (x \<notin> span p 45 \<longrightarrow> fst (sys_olduname ua env p u m) x = m x)"
proof -
  have out: "x \<notin> span p k \<Longrightarrow> off + n \<le> k \<Longrightarrow> k \<le> 2 ^ 63 \<Longrightarrow> x \<notin> span (p + of_nat off) n" for k off n
    using span_sub[of off n k p] by blast
  note cp = copy_to_user_frame[OF ua] and ov = override_frame[OF ua]
  have new: "m3 x = m x"
    if "x \<notin> span p k" "325 \<le> k" "k \<le> 390" "copy_to_user ua m p bs = (m1, l1)" "length bs = k"
      "override_release ua env (p + 130) 65 m1 = (m2, l2)" "override_architecture ua env (p + 260) m2 = (m3, l3)
       \<or> m3 = m1 \<or> m3 = m2" for k bs m1 m2 m3 l1 l2 l3
  proof -
    have "m1 x = m x" using cp[OF that(4)] that(1,5) by simp
    moreover have "m2 x = m1 x" using ov(1)[OF _ _ that(6)] out[OF that(1), of 130 65] that(2,3) by simp
    moreover have "m3 x \<in> {m1 x, m2 x}"
      using ov(2)[of env 65 "p + 260" m2 m3 l3 x] that(7) out[OF that(1), of 260 65] that(2,3) mach by auto
    ultimately show ?thesis by auto
  qed
  have old: "m3 x = m x"
    if "x \<notin> span p 45" "copy_to_user ua m p bs = (m1, l1)" "length bs = 45"
      "override_architecture ua env (p + 36) m1 = (m2, l2)" "override_release ua env (p + 18) 9 m2 = (m3, l3)
       \<or> m3 = m1 \<or> m3 = m2" for bs m1 m2 m3 l1 l2 l3
  proof -
    have "m1 x = m x" using cp[OF that(2)] that(1,3) by simp
    moreover have "m2 x = m1 x" using ov(2)[OF mach that(4)] out[OF that(1), of 36 9] by simp
    moreover have "m3 x \<in> {m1 x, m2 x}"
      using ov(1)[of 9 env "p + 18" m2 m3 l3 x] that(5) out[OF that(1), of 18 9] by auto
    ultimately show ?thesis by auto
  qed
  have len: "length (utsname_bytes u) = 390" "length (take 325 (utsname_bytes u)) = 325"
    "length (oldold (sysname u) @ oldold (nodename u) @ oldold (release u) @ oldold (version u) @ oldold (machine u)) = 45"
    using u by (simp_all add: uts_ok_def name_ok_def utsname_bytes_def oldold_def)
  have "fst (sys_newuname ua env p u m) x = m x" if x: "x \<notin> span p 390"
  proof -
    obtain m1 l1 where 1: "copy_to_user ua m p (utsname_bytes u) = (m1, l1)" by fastforce
    obtain m2 l2 where 2: "override_release ua env (p + 130) 65 m1 = (m2, l2)" by fastforce
    obtain m3 l3 where 3: "override_architecture ua env (p + 260) m2 = (m3, l3)" by fastforce
    show ?thesis
      using new[OF x _ _ 1 len(1) 2, of m1 l3] new[OF x _ _ 1 len(1) 2, of m2 l3] new[OF x _ _ 1 len(1) 2, of m3 l3]
      by (simp add: sys_newuname_def 1 2 3)
  qed
  moreover have "fst (sys_uname ua env p u m) x = m x" if x: "x \<notin> span p 325"
  proof -
    obtain m1 l1 where 1: "copy_to_user ua m p (take 325 (utsname_bytes u)) = (m1, l1)" by fastforce
    obtain m2 l2 where 2: "override_release ua env (p + 130) 65 m1 = (m2, l2)" by fastforce
    obtain m3 l3 where 3: "override_architecture ua env (p + 260) m2 = (m3, l3)" by fastforce
    show ?thesis
      using new[OF x _ _ 1 len(2) 2, of m1 l3] new[OF x _ _ 1 len(2) 2, of m2 l3] new[OF x _ _ 1 len(2) 2, of m3 l3]
      by (simp add: sys_uname_def 1 2 3)
  qed
  moreover have "fst (sys_olduname ua env p u m) x = m x" if x: "x \<notin> span p 45"
  proof -
    obtain m1 l1 where 1: "copy_to_user ua m p (oldold (sysname u) @ oldold (nodename u) @ oldold (release u)
        @ oldold (version u) @ oldold (machine u)) = (m1, l1)" by fastforce
    obtain m2 l2 where 2: "override_architecture ua env (p + 36) m1 = (m2, l2)" by fastforce
    obtain m3 l3 where 3: "override_release ua env (p + 18) 9 m2 = (m3, l3)" by fastforce
    show ?thesis
      using old[OF x 1 len(3) 2, of m1 l3] old[OF x 1 len(3) 2, of m2 l3] old[OF x 1 len(3) 2, of m3 l3]
      by (simp add: sys_olduname_def 1 2 3)
  qed
  ultimately show ?thesis by blast
qed

theorem uname_stays_in_buffer_witness:
  "fst (sys_olduname (flat_uaccess (\<lambda>_. True)) (plain_uts_env 0x20008) 4096 init_uts (\<lambda>_. 7)) 4141 = 7"
proof -
  have "length (COMPAT_UTS_MACHINE (plain_uts_env 0x20008)) \<le> 9" by (simp add: plain_uts_env_def)
  from uname_stays_in_buffer[OF flat_uaccess_ok init_uts_ok this, of 4141 4096 "\<lambda>_. True" "\<lambda>_. 7"]
  show ?thesis by (simp add: span_def)
qed

end
