(* ===== verification/Priorities.thy ===== *)
theory Priorities
  imports Credentials
begin

text \<open>
  \<open>setpriority\<close> and \<open>getpriority\<close> (kernel/sys.c): nice values of a task, of a process group
  or of all tasks of a user.

  Outside code, the record \<open>prio_env\<close>: the number of the caller, the lookup of numbers and of
  users, the capability test, \<open>can_nice\<close>, the security hook and the scheduler's
  \<open>set_user_nice\<close>. \<open>prio_env_ok\<close> states what the scheduler promises.
\<close>

section \<open>State\<close>

text \<open>A thread: its number, its process group, its credentials, its nice value.\<close>

record thread =
  tno :: nat
  tgrp :: nat
  thcred :: cred
  nice :: int

text \<open>The threads of the system, in the order of the task list.\<close>

type_synonym threads = "thread list"

record prio_env =
  current :: nat
  find_vpid :: "int \<Rightarrow> nat option"
  task_pid_vnr :: "nat \<Rightarrow> int"
  make_kuid_int :: "nat \<Rightarrow> int \<Rightarrow> u32"
  find_user :: "u32 \<Rightarrow> bool"
  nice_capable :: "nat \<Rightarrow> bool"
  can_nice :: "thread \<Rightarrow> int \<Rightarrow> bool"
  security_task_setnice :: "thread \<Rightarrow> int \<Rightarrow> int"
  set_user_nice :: "int \<Rightarrow> thread \<Rightarrow> thread"

abbreviation PRIO_PROCESS :: int where "PRIO_PROCESS \<equiv> 0"
abbreviation PRIO_PGRP :: int where "PRIO_PGRP \<equiv> 1"
abbreviation PRIO_USER :: int where "PRIO_USER \<equiv> 2"
abbreviation MIN_NICE :: int where "MIN_NICE \<equiv> - 20"
abbreviation MAX_NICE :: int where "MAX_NICE \<equiv> 19"

definition task_no :: "threads \<Rightarrow> nat \<Rightarrow> thread option" where
  "task_no ts n = find (\<lambda>t. tno t = n) ts"

definition current_thread :: "prio_env \<Rightarrow> threads \<Rightarrow> thread" where
  "current_thread env ts = the (task_no ts (current env))"

text \<open>
  The set of tasks that \<open>which\<close> and \<open>who\<close> name, as the switch of both calls computes it: one
  task, the members of a group, or the threads of a user that have a number in the caller's
  namespace. A user that \<open>find_user\<close> does not know has no tasks.
\<close>

definition prio_targets :: "prio_env \<Rightarrow> threads \<Rightarrow> int \<Rightarrow> int \<Rightarrow> thread \<Rightarrow> bool" where
  "prio_targets env ts which who =
     (let cur = current_thread env ts; c = thcred cur
      in if which = PRIO_PROCESS
         then (let n = (if who \<noteq> 0 then find_vpid env who else Some (current env))
               in (\<lambda>t. n = Some (tno t)))
         else if which = PRIO_PGRP
         then (let g = (if who \<noteq> 0 then find_vpid env who else Some (tgrp cur))
               in (\<lambda>t. g = Some (tgrp t)))
         else (let k = (if who = 0 then uid c else make_kuid_int env (user_ns c) who)
               in if who \<noteq> 0 \<and> k \<noteq> uid c \<and> \<not> find_user env k then (\<lambda>t. False)
                  else (\<lambda>t. uid (thcred t) = k \<and> task_pid_vnr env (tno t) \<noteq> 0)))"

section \<open>Setting\<close>

definition set_one_prio_perm :: "prio_env \<Rightarrow> cred \<Rightarrow> thread \<Rightarrow> bool" where
  "set_one_prio_perm env c t \<longleftrightarrow>
     uid (thcred t) = euid c \<or> euid (thcred t) = euid c \<or> nice_capable env (user_ns (thcred t))"

definition set_one_prio :: "prio_env \<Rightarrow> cred \<Rightarrow> thread \<Rightarrow> int \<Rightarrow> int \<Rightarrow> thread \<times> int" where
  "set_one_prio env c t niceval err =
     (if \<not> set_one_prio_perm env c t then (t, - EPERM)
      else if niceval < nice t \<and> \<not> can_nice env t niceval then (t, - EACCES)
      else (let no_nice = security_task_setnice env t niceval
            in if no_nice \<noteq> 0 then (t, no_nice)
               else (set_user_nice env niceval t, if err = - ESRCH then 0 else err)))"

fun set_prio_loop :: "prio_env \<Rightarrow> cred \<Rightarrow> (thread \<Rightarrow> bool) \<Rightarrow> int \<Rightarrow> threads \<Rightarrow> int \<Rightarrow> threads \<times> int" where
  "set_prio_loop env c sel niceval [] err = ([], err)"
| "set_prio_loop env c sel niceval (t # ts) err =
     (let (t', err) = (if sel t then set_one_prio env c t niceval err else (t, err));
          (ts', err) = set_prio_loop env c sel niceval ts err
      in (t' # ts', err))"

definition clamp_nice :: "int \<Rightarrow> int" where
  "clamp_nice n = (let n = (if n < MIN_NICE then MIN_NICE else n) in if n > MAX_NICE then MAX_NICE else n)"

definition sys_setpriority :: "prio_env \<Rightarrow> int \<Rightarrow> int \<Rightarrow> int \<Rightarrow> threads \<Rightarrow> threads \<times> int" where
  "sys_setpriority env which who niceval ts =
     (if which > PRIO_USER \<or> which < PRIO_PROCESS then (ts, - EINVAL)
      else set_prio_loop env (thcred (current_thread env ts)) (prio_targets env ts which who)
             (clamp_nice niceval) ts (- ESRCH))"

section \<open>Getting\<close>

text \<open>Nice values \<open>-20 .. 19\<close> are reported as \<open>40 .. 1\<close>.\<close>

definition nice_to_rlimit :: "int \<Rightarrow> int" where
  "nice_to_rlimit n = MAX_NICE - n + 1"

fun get_prio_loop :: "(thread \<Rightarrow> bool) \<Rightarrow> threads \<Rightarrow> int \<Rightarrow> int" where
  "get_prio_loop sel [] retval = retval"
| "get_prio_loop sel (t # ts) retval =
     get_prio_loop sel ts (if sel t \<and> nice_to_rlimit (nice t) > retval then nice_to_rlimit (nice t) else retval)"

definition sys_getpriority :: "prio_env \<Rightarrow> int \<Rightarrow> int \<Rightarrow> threads \<Rightarrow> int" where
  "sys_getpriority env which who ts =
     (if which > PRIO_USER \<or> which < PRIO_PROCESS then - EINVAL
      else get_prio_loop (prio_targets env ts which who) ts (- ESRCH))"

section \<open>What the scheduler promises\<close>

text \<open>For a value in range, \<open>set_user_nice\<close> sets it and nothing else of the thread.\<close>

definition prio_env_ok :: "prio_env \<Rightarrow> bool" where
  "prio_env_ok env \<longleftrightarrow>
     (\<forall>n t. MIN_NICE \<le> n \<longrightarrow> n \<le> MAX_NICE \<longrightarrow> set_user_nice env n t = t\<lparr>nice := n\<rparr>)"

lemma clamp_range [simp]: "MIN_NICE \<le> clamp_nice n" "clamp_nice n \<le> MAX_NICE"
  by (simp_all add: clamp_nice_def Let_def)

lemma prio_env_set: "prio_env_ok env \<Longrightarrow> set_user_nice env (clamp_nice n) t = t\<lparr>nice := clamp_nice n\<rparr>"
  using clamp_range[of n] unfolding prio_env_ok_def by blast

section \<open>Who can change whose priority\<close>

text \<open>The changes that one thread may see from a call with credentials \<open>c\<close>.\<close>

definition prio_change_ok :: "prio_env \<Rightarrow> cred \<Rightarrow> (thread \<Rightarrow> bool) \<Rightarrow> int \<Rightarrow> thread \<Rightarrow> thread \<Rightarrow> bool" where
  "prio_change_ok env c sel n t t' \<longleftrightarrow>
     t' = t \<or> t' = t\<lparr>nice := n\<rparr> \<and> sel t \<and> set_one_prio_perm env c t \<and> (nice t \<le> n \<or> can_nice env t n)
       \<and> security_task_setnice env t n = 0"

lemma set_one_prio_ok:
  "prio_env_ok env \<Longrightarrow> sel t \<Longrightarrow> prio_change_ok env c sel (clamp_nice n) t (fst (set_one_prio env c t (clamp_nice n) err))"
  by (auto simp: set_one_prio_def prio_change_ok_def prio_env_set Let_def not_less)

lemma set_prio_loop_ok:
  "prio_env_ok env \<Longrightarrow>
     list_all2 (prio_change_ok env c sel (clamp_nice n)) ts (fst (set_prio_loop env c sel (clamp_nice n) ts err))"
proof (induction ts arbitrary: err)
  case (Cons t ts)
  show ?case
  proof (cases "sel t")
    case True
    then show ?thesis using Cons set_one_prio_ok[of env sel t, OF Cons.prems True]
      by (simp add: case_prod_unfold Let_def)
  next
    case False
    have "prio_change_ok env c sel (clamp_nice n) t t" by (simp add: prio_change_ok_def)
    with False Cons show ?thesis by (simp add: case_prod_unfold Let_def)
  qed
qed simp

text \<open>
  C33. \<open>setpriority\<close> changes only nice values, only of tasks that its arguments name, and only
  where it may: of a task whose real or effective user is the caller's effective user, or
  with the capability over that task's namespace; a nice value is lowered only where
  \<open>can_nice\<close> allows it. The new value is the requested one, clamped to \<open>-20 .. 19\<close>.
\<close>

theorem setpriority_confined:
  assumes "prio_env_ok env"
  shows "list_all2 (\<lambda>t t'. t' = t
       \<or> (t' = t\<lparr>nice := max (- 20) (min 19 niceval)\<rparr> \<and> prio_targets env ts which who t
          \<and> (uid (thcred t) = euid (thcred (current_thread env ts)) \<or> euid (thcred t) = euid (thcred (current_thread env ts))
             \<or> nice_capable env (user_ns (thcred t)))
          \<and> (nice t \<le> nice t' \<or> can_nice env t (nice t'))))
     ts (fst (sys_setpriority env which who niceval ts))"
proof (cases "which > PRIO_USER \<or> which < PRIO_PROCESS")
  case True
  then show ?thesis by (auto simp: sys_setpriority_def list_all2_refl)
next
  case False
  have cl: "clamp_nice niceval = max (- 20) (min 19 niceval)" by (simp add: clamp_nice_def Let_def)
  have "fst (sys_setpriority env which who niceval ts)
      = fst (set_prio_loop env (thcred (current_thread env ts)) (prio_targets env ts which who) (clamp_nice niceval) ts (- ESRCH))"
    using False by (simp add: sys_setpriority_def)
  then show ?thesis
    by (simp only:) (rule list_all2_mono[OF set_prio_loop_ok[OF assms]],
      auto simp: prio_change_ok_def set_one_prio_perm_def cl)
qed

section \<open>Round trip\<close>

lemma get_prio_loop_uniform:
  assumes "\<And>t. t \<in> set ts \<Longrightarrow> sel t \<Longrightarrow> nice_to_rlimit (nice t) = v"
  shows "get_prio_loop sel ts r = (if \<exists>t\<in>set ts. sel t then max r v else r)"
  using assms
proof (induction ts arbitrary: r)
  case (Cons t ts)
  then have "get_prio_loop sel ts r' = (if \<exists>t\<in>set ts. sel t then max r' v else r')" for r' by simp
  moreover have "sel t \<Longrightarrow> nice_to_rlimit (nice t) = v" using Cons.prems by simp
  ultimately show ?case by (auto simp: max_def)
qed simp

text \<open>
  An error other than \<open>-ESRCH\<close> is kept to the end, so a result of 0 means that every named
  task was set.
\<close>

lemma set_one_prio_err:
  assumes "\<And>t n. security_task_setnice env t n \<noteq> - ESRCH"
  shows "snd (set_one_prio env c t n err) \<noteq> - ESRCH"
    and "snd (set_one_prio env c t n err) = 0 \<Longrightarrow>
      fst (set_one_prio env c t n err) = set_user_nice env n t \<and> (err = 0 \<or> err = - ESRCH)"
  using assms by (auto simp: set_one_prio_def Let_def split: if_splits)

lemma set_prio_loop_err:
  assumes "\<And>t n. security_task_setnice env t n \<noteq> - ESRCH"
    and "snd (set_prio_loop env c sel n ts err) = 0"
  shows "fst (set_prio_loop env c sel n ts err) = map (\<lambda>t. if sel t then set_user_nice env n t else t) ts
    \<and> (err = 0 \<or> err = - ESRCH \<and> (\<exists>t\<in>set ts. sel t))"
  using assms(2)
proof (induction ts arbitrary: err)
  case (Cons t ts)
  show ?case
  proof (cases "sel t")
    case True
    let ?r = "set_one_prio env c t n err"
    have z: "snd (set_prio_loop env c sel n ts (snd ?r)) = 0"
      using Cons.prems True by (simp add: case_prod_unfold Let_def)
    note ih = Cons.IH[OF z]
    then have "snd ?r = 0" using set_one_prio_err(1)[OF assms(1)] by blast
    from set_one_prio_err(2)[OF assms(1) this] ih True show ?thesis
      by (auto simp: case_prod_unfold Let_def)
  next
    case False
    have "snd (set_prio_loop env c sel n ts err) = 0"
      using Cons.prems False by (simp add: case_prod_unfold Let_def)
    from Cons.IH[OF this] False show ?thesis by (auto simp: case_prod_unfold Let_def)
  qed
qed simp

text \<open>What the arguments name does not depend on nice values.\<close>

lemma find_map_same: "(\<And>x. P (f x) = P x) \<Longrightarrow> find P (map f xs) = map_option f (find P xs)"
  by (induction xs) simp_all

lemma prio_targets_nice:
  assumes f: "\<And>t. f t = t \<or> f t = t\<lparr>nice := n\<rparr>" and cur: "task_no ts (current env) \<noteq> None"
  shows "prio_targets env (map f ts) which who = prio_targets env ts which who"
    and "prio_targets env us which who (f t) = prio_targets env us which who t"
proof -
  have keep: "tno (f t) = tno t \<and> tgrp (f t) = tgrp t \<and> thcred (f t) = thcred t" for t
    using f[of t] by (elim disjE) simp_all
  obtain u where u: "task_no ts (current env) = Some u" using cur by blast
  then have "task_no (map f ts) (current env) = Some (f u)"
    using keep by (simp add: task_no_def find_map_same)
  with u show "prio_targets env (map f ts) which who = prio_targets env ts which who"
    using keep[of u] by (simp add: prio_targets_def current_thread_def Let_def)
  show "prio_targets env us which who (f t) = prio_targets env us which who t"
    using keep[of t] by (simp add: prio_targets_def Let_def)
qed

text \<open>
  When \<open>setpriority\<close> reports success it has set every task that its arguments name, and
  there is one; \<open>getpriority\<close> with the same arguments then reports the clamped value, as
  \<open>20 - nice\<close>, a number from 1 to 40. The security hook is assumed not to answer \<open>-ESRCH\<close>,
  which the loop would take for its own initial value.
\<close>

theorem setpriority_getpriority:
  assumes "prio_env_ok env" and "\<And>t n. security_task_setnice env t n \<noteq> - ESRCH"
    and "task_no ts (current env) \<noteq> None"
    and "sys_setpriority env which who niceval ts = (ts', 0)"
  shows "sys_getpriority env which who ts' = 20 - max (- 20) (min 19 niceval)
    \<and> (\<forall>t\<in>set ts'. prio_targets env ts' which who t \<longrightarrow> nice t = max (- 20) (min 19 niceval))"
proof -
  let ?sel = "prio_targets env ts which who" and ?n = "clamp_nice niceval"
  let ?f = "\<lambda>t. if ?sel t then t\<lparr>nice := ?n\<rparr> else t"
  have cl: "?n = max (- 20) (min 19 niceval)" by (simp add: clamp_nice_def Let_def)
  have valid: "\<not> (which > PRIO_USER \<or> which < PRIO_PROCESS)"
    using assms(4) by (auto simp: sys_setpriority_def)
  then have run: "set_prio_loop env (thcred (current_thread env ts)) ?sel ?n ts (- ESRCH) = (ts', 0)"
    using assms(4) by (simp only: sys_setpriority_def if_False)
  then have "snd (set_prio_loop env (thcred (current_thread env ts)) ?sel ?n ts (- ESRCH)) = 0" by simp
  from set_prio_loop_err[OF assms(2) this] run
  have ts': "ts' = map ?f ts" and some: "\<exists>t\<in>set ts. ?sel t"
    by (simp_all add: prio_env_set[OF assms(1)])
  have same: "prio_targets env ts' which who = ?sel" "?sel (?f t) = ?sel t" for t
    unfolding ts' by (rule prio_targets_nice[where n = ?n], simp, rule assms(3))
      (rule prio_targets_nice[where n = ?n], simp, rule assms(3))
  have all: "nice t = ?n" if "t \<in> set ts'" "?sel t" for t
    using that same(2) unfolding ts' by force
  have "\<exists>t\<in>set ts'. ?sel t" using some same(2) unfolding ts' by force
  moreover have "get_prio_loop ?sel ts' (- ESRCH)
      = (if \<exists>t\<in>set ts'. ?sel t then max (- ESRCH) (nice_to_rlimit ?n) else - ESRCH)"
    by (rule get_prio_loop_uniform) (simp add: all)
  moreover have "- ESRCH \<le> nice_to_rlimit ?n" using clamp_range(2)[of niceval] unfolding nice_to_rlimit_def by linarith
  ultimately have "sys_getpriority env which who ts' = nice_to_rlimit ?n"
    using valid by (simp only: sys_getpriority_def same(1) if_False if_True max_def)
  then show ?thesis using all by (simp add: same(1) cl nice_to_rlimit_def)
qed

section \<open>A concrete system\<close>

text \<open>Two users; the caller has number 10 and user 1000 and no capability.\<close>

definition plain_prio_env :: prio_env where
  "plain_prio_env = \<lparr>current = 10, find_vpid = (\<lambda>v. if v < 0 then None else Some (nat v)), task_pid_vnr = int,
     make_kuid_int = (\<lambda>_ v. word_of_int v), find_user = (\<lambda>_. True), nice_capable = (\<lambda>_. False),
     can_nice = (\<lambda>_ _. False), security_task_setnice = (\<lambda>_ _. 0), set_user_nice = (\<lambda>n t. t\<lparr>nice := n\<rparr>)\<rparr>"

definition plain_cred :: "u32 \<Rightarrow> cred" where
  "plain_cred u = \<lparr>uid = u, gid = u, suid = u, sgid = u, euid = u, egid = u, fsuid = u, fsgid = u,
     cap_permitted = 0, cap_effective = 0, user = 0, ucounts = 0, user_ns = 0\<rparr>"

definition plain_threads :: threads where
  "plain_threads = [\<lparr>tno = 10, tgrp = 10, thcred = plain_cred 1000, nice = 0\<rparr>,
     \<lparr>tno = 11, tgrp = 10, thcred = plain_cred 1000, nice = 3\<rparr>, \<lparr>tno = 12, tgrp = 10, thcred = plain_cred 1001, nice = 0\<rparr>]"

lemma plain_prio_env_ok: "prio_env_ok plain_prio_env"
  by (simp add: prio_env_ok_def plain_prio_env_def)

theorem setpriority_confined_witness:
  "prio_env_ok plain_prio_env
   \<and> nice (fst (sys_setpriority plain_prio_env PRIO_PGRP 10 50 plain_threads) ! 2) = 0"
proof -
  let ?ts' = "fst (sys_setpriority plain_prio_env PRIO_PGRP 10 50 plain_threads)"
  have "(2 :: nat) < length plain_threads" by (simp add: plain_threads_def)
  from list_all2_nthD[OF setpriority_confined[OF plain_prio_env_ok, of 50 plain_threads PRIO_PGRP 10] this]
  have "?ts' ! 2 = plain_threads ! 2"
    by (simp add: plain_threads_def current_thread_def task_no_def plain_prio_env_def plain_cred_def)
  then show ?thesis using plain_prio_env_ok by (simp add: plain_threads_def)
qed

theorem setpriority_getpriority_witness:
  "sys_getpriority plain_prio_env PRIO_USER 0 (fst (sys_setpriority plain_prio_env PRIO_USER 0 7 plain_threads)) = 13"
proof -
  have 1: "sys_setpriority plain_prio_env PRIO_USER 0 7 plain_threads
      = (fst (sys_setpriority plain_prio_env PRIO_USER 0 7 plain_threads), 0)" by code_simp
  have 2: "task_no plain_threads (current plain_prio_env) \<noteq> None" by code_simp
  have 3: "security_task_setnice plain_prio_env t n \<noteq> - ESRCH" for t n by (simp add: plain_prio_env_def)
  show ?thesis using setpriority_getpriority[OF plain_prio_env_ok 3 2 1] by simp
qed

end
