(* ===== verification/Time_Usage.thy ===== *)
theory Time_Usage
  imports Kernel_Prelude
begin

text \<open>
  \<open>times\<close>, \<open>getrusage\<close> and \<open>umask\<close> (kernel/sys.c).

  Outside code, the record \<open>time_env\<close>: the adjusted cpu times of the thread and of its group,
  the conversions between clock units, the clock, the high-water mark of the memory map
  (\<open>None\<close> when the task has none) and the 32-bit layout of the usage structure.
\<close>

section \<open>State\<close>

record thread_stats =
  t_nvcsw :: u64
  t_nivcsw :: u64
  t_min_flt :: u64
  t_maj_flt :: u64
  t_inblock :: u64
  t_oublock :: u64

text \<open>
  The statistics in \<open>signal_struct\<close>: of the exited threads of the process, of its reaped
  children (\<open>c...\<close>), and the live threads.
\<close>

record signal_stats =
  exited :: thread_stats
  reaped :: thread_stats
  cutime :: u64
  cstime :: u64
  maxrss :: u64
  cmaxrss :: u64
  live :: "thread_stats list"

record rusage =
  ru_utime :: "u64 \<times> u64"
  ru_stime :: "u64 \<times> u64"
  ru_maxrss :: u64
  ru_minflt :: u64
  ru_majflt :: u64
  ru_inblock :: u64
  ru_oublock :: u64
  ru_nvcsw :: u64
  ru_nivcsw :: u64

record time_env =
  thread_group_cputime_adjusted :: "u64 \<times> u64"
  task_cputime_adjusted :: "u64 \<times> u64"
  nsec_to_clock_t :: "u64 \<Rightarrow> u64"
  jiffies_64_to_clock_t :: "u64 \<Rightarrow> u64"
  clock_t_to_jiffies :: "u64 \<Rightarrow> u64"
  compat_jiffies_to_clock_t :: "u64 \<Rightarrow> u32"
  jiffies :: u64
  ns_to_kernel_old_timeval :: "u64 \<Rightarrow> u64 \<times> u64"
  mm_hiwater_rss :: "u64 option"
  compat_rusage_bytes :: "rusage \<Rightarrow> u8 list"

section \<open>times\<close>

definition do_sys_times :: "time_env \<Rightarrow> signal_stats \<Rightarrow> u64 \<times> u64 \<times> u64 \<times> u64" where
  "do_sys_times env sig =
     (case thread_group_cputime_adjusted env of (tgutime, tgstime) \<Rightarrow>
        (nsec_to_clock_t env tgutime, nsec_to_clock_t env tgstime,
         nsec_to_clock_t env (cutime sig), nsec_to_clock_t env (cstime sig)))"

definition sys_times :: "uaccess \<Rightarrow> time_env \<Rightarrow> signal_stats \<Rightarrow> addr \<Rightarrow> umem \<Rightarrow> umem \<times> int" where
  "sys_times ua env sig tbuf m =
     (if tbuf \<noteq> NULL
      then (case do_sys_times env sig of (u, s, cu, cs) \<Rightarrow>
              (let (m1, left) = copy_to_user ua m tbuf (le_bytes u @ le_bytes s @ le_bytes cu @ le_bytes cs)
               in if left \<noteq> 0 then (m1, - EFAULT) else (m1, sint (jiffies_64_to_clock_t env (jiffies env)))))
      else (m, sint (jiffies_64_to_clock_t env (jiffies env))))"

definition clock_t_to_compat_clock_t :: "time_env \<Rightarrow> u64 \<Rightarrow> u32" where
  "clock_t_to_compat_clock_t env x = compat_jiffies_to_clock_t env (clock_t_to_jiffies env x)"

definition compat_sys_times :: "uaccess \<Rightarrow> time_env \<Rightarrow> signal_stats \<Rightarrow> addr \<Rightarrow> umem \<Rightarrow> umem \<times> int" where
  "compat_sys_times ua env sig tbuf m =
     (if tbuf \<noteq> NULL
      then (case do_sys_times env sig of (u, s, cu, cs) \<Rightarrow>
              (let c = clock_t_to_compat_clock_t env;
                   (m1, left) = copy_to_user ua m tbuf (le_bytes (c u) @ le_bytes (c s) @ le_bytes (c cu) @ le_bytes (c cs))
               in if left \<noteq> 0 then (m1, - EFAULT) else (m1, sint (compat_jiffies_to_clock_t env (jiffies env)))))
      else (m, sint (compat_jiffies_to_clock_t env (jiffies env))))"

section \<open>getrusage\<close>

abbreviation RUSAGE_SELF :: int where "RUSAGE_SELF \<equiv> 0"
abbreviation RUSAGE_CHILDREN :: int where "RUSAGE_CHILDREN \<equiv> - 1"
abbreviation RUSAGE_BOTH :: int where "RUSAGE_BOTH \<equiv> - 2"
abbreviation RUSAGE_THREAD :: int where "RUSAGE_THREAD \<equiv> 1"

definition zero_rusage :: rusage where
  "zero_rusage = \<lparr>ru_utime = (0, 0), ru_stime = (0, 0), ru_maxrss = 0, ru_minflt = 0, ru_majflt = 0,
     ru_inblock = 0, ru_oublock = 0, ru_nvcsw = 0, ru_nivcsw = 0\<rparr>"

text \<open>The fields the kernel does not measure are 0.\<close>

definition rusage_bytes :: "rusage \<Rightarrow> u8 list" where
  "rusage_bytes r = le_bytes (fst (ru_utime r)) @ le_bytes (snd (ru_utime r))
     @ le_bytes (fst (ru_stime r)) @ le_bytes (snd (ru_stime r)) @ le_bytes (ru_maxrss r)
     @ replicate 24 0 @ le_bytes (ru_minflt r) @ le_bytes (ru_majflt r) @ replicate 8 0
     @ le_bytes (ru_inblock r) @ le_bytes (ru_oublock r) @ replicate 24 0
     @ le_bytes (ru_nvcsw r) @ le_bytes (ru_nivcsw r)"

definition accumulate_thread_rusage :: "thread_stats \<Rightarrow> rusage \<Rightarrow> rusage" where
  "accumulate_thread_rusage t r =
     r\<lparr>ru_nvcsw := ru_nvcsw r + t_nvcsw t, ru_nivcsw := ru_nivcsw r + t_nivcsw t,
       ru_minflt := ru_minflt r + t_min_flt t, ru_majflt := ru_majflt r + t_maj_flt t,
       ru_inblock := ru_inblock r + t_inblock t, ru_oublock := ru_oublock r + t_oublock t\<rparr>"

text \<open>
  One pass over the statistics, from the label \<open>retry\<close> to the check of the sequence lock:
  the structure, the two times and the memory mark. \<open>None\<close> is \<open>BUG()\<close>.
\<close>

definition rusage_pass :: "int \<Rightarrow> signal_stats \<Rightarrow> (rusage \<times> u64 \<times> u64 \<times> u64) option" where
  "rusage_pass who sig =
     (if who = RUSAGE_BOTH \<or> who = RUSAGE_CHILDREN \<or> who = RUSAGE_SELF then
        (let (r, utime, stime, mr) =
               (if who = RUSAGE_BOTH \<or> who = RUSAGE_CHILDREN
                then (zero_rusage\<lparr>ru_nvcsw := t_nvcsw (reaped sig), ru_nivcsw := t_nivcsw (reaped sig),
                        ru_minflt := t_min_flt (reaped sig), ru_majflt := t_maj_flt (reaped sig),
                        ru_inblock := t_inblock (reaped sig), ru_oublock := t_oublock (reaped sig)\<rparr>,
                      cutime sig, cstime sig, cmaxrss sig)
                else (zero_rusage, 0, 0, 0))
         in if who = RUSAGE_CHILDREN then Some (r, utime, stime, mr)
            else (let r = r\<lparr>ru_nvcsw := ru_nvcsw r + t_nvcsw (exited sig), ru_nivcsw := ru_nivcsw r + t_nivcsw (exited sig),
                        ru_minflt := ru_minflt r + t_min_flt (exited sig), ru_majflt := ru_majflt r + t_maj_flt (exited sig),
                        ru_inblock := ru_inblock r + t_inblock (exited sig), ru_oublock := ru_oublock r + t_oublock (exited sig)\<rparr>;
                      mr = (if mr < maxrss sig then maxrss sig else mr)
                  in Some (fold accumulate_thread_rusage (live sig) r, utime, stime, mr)))
      else None)"

text \<open>The part from \<open>out_children\<close> on.\<close>

definition finish_rusage :: "time_env \<Rightarrow> rusage \<Rightarrow> u64 \<Rightarrow> u64 \<Rightarrow> u64 \<Rightarrow> rusage" where
  "finish_rusage env r utime stime mr =
     r\<lparr>ru_maxrss := mr * (PAGE_SIZE div 1024), ru_utime := ns_to_kernel_old_timeval env utime,
       ru_stime := ns_to_kernel_old_timeval env stime\<rparr>"

definition setmax_mm_hiwater_rss :: "time_env \<Rightarrow> u64 \<Rightarrow> u64" where
  "setmax_mm_hiwater_rss env mr =
     (case mm_hiwater_rss env of None \<Rightarrow> mr | Some h \<Rightarrow> if mr < h then h else mr)"

text \<open>
  The statistics are read without the lock first (\<open>sig0\<close>); if a writer was active
  (\<open>need_seqretry\<close>) they are read again under the lock (\<open>sig1\<close>). \<open>self\<close> are the counters of the task.
\<close>

definition getrusage :: "time_env \<Rightarrow> thread_stats \<Rightarrow> signal_stats \<Rightarrow> bool \<Rightarrow> signal_stats \<Rightarrow> int \<Rightarrow> rusage option" where
  "getrusage env self sig0 need_seqretry sig1 who =
     (if who = RUSAGE_THREAD
      then (case task_cputime_adjusted env of (utime, stime) \<Rightarrow>
              Some (finish_rusage env (accumulate_thread_rusage self zero_rusage) utime stime
                      (setmax_mm_hiwater_rss env (maxrss sig0))))
      else case rusage_pass who sig0 of
             None \<Rightarrow> None
           | Some pass0 \<Rightarrow>
               (case (if need_seqretry then rusage_pass who sig1 else Some pass0) of
                  None \<Rightarrow> None
                | Some (r, utime, stime, mr) \<Rightarrow>
                    if who = RUSAGE_CHILDREN then Some (finish_rusage env r utime stime mr)
                    else (case thread_group_cputime_adjusted env of (tgutime, tgstime) \<Rightarrow>
                            Some (finish_rusage env r (utime + tgutime) (stime + tgstime)
                                    (setmax_mm_hiwater_rss env mr)))))"

definition sys_getrusage :: "uaccess \<Rightarrow> time_env \<Rightarrow> thread_stats \<Rightarrow> signal_stats \<Rightarrow> bool \<Rightarrow> signal_stats \<Rightarrow> int \<Rightarrow> addr
    \<Rightarrow> umem \<Rightarrow> (umem \<times> int) option" where
  "sys_getrusage ua env self sig0 need_seqretry sig1 who ru m =
     (if who \<noteq> RUSAGE_SELF \<and> who \<noteq> RUSAGE_CHILDREN \<and> who \<noteq> RUSAGE_THREAD then Some (m, - EINVAL)
      else map_option (\<lambda>r. let (m1, left) = copy_to_user ua m ru (rusage_bytes r)
                           in (m1, if left \<noteq> 0 then - EFAULT else 0))
             (getrusage env self sig0 need_seqretry sig1 who))"

definition compat_sys_getrusage :: "uaccess \<Rightarrow> time_env \<Rightarrow> thread_stats \<Rightarrow> signal_stats \<Rightarrow> bool \<Rightarrow> signal_stats \<Rightarrow> int
    \<Rightarrow> addr \<Rightarrow> umem \<Rightarrow> (umem \<times> int) option" where
  "compat_sys_getrusage ua env self sig0 need_seqretry sig1 who ru m =
     (if who \<noteq> RUSAGE_SELF \<and> who \<noteq> RUSAGE_CHILDREN \<and> who \<noteq> RUSAGE_THREAD then Some (m, - EINVAL)
      else map_option (\<lambda>r. let (m1, left) = copy_to_user ua m ru (compat_rusage_bytes env r)
                           in (m1, if left \<noteq> 0 then - EFAULT else 0))
             (getrusage env self sig0 need_seqretry sig1 who))"

section \<open>umask\<close>

abbreviation S_IRWXUGO :: u32 where "S_IRWXUGO \<equiv> 0x1FF"

text \<open>The new mask and the result, the old mask.\<close>

definition sys_umask :: "u32 \<Rightarrow> u32 \<Rightarrow> u32 \<times> int" where
  "sys_umask new old = (new AND S_IRWXUGO, sint old)"

section \<open>The counters add up\<close>

text \<open>The counters of the structure as a list, and their sums.\<close>

definition counters :: "rusage \<Rightarrow> u64 list" where
  "counters r = [ru_nvcsw r, ru_nivcsw r, ru_minflt r, ru_majflt r, ru_inblock r, ru_oublock r]"

definition tcounters :: "thread_stats \<Rightarrow> u64 list" where
  "tcounters t = [t_nvcsw t, t_nivcsw t, t_min_flt t, t_maj_flt t, t_inblock t, t_oublock t]"

lemma counters_accumulate: "counters (accumulate_thread_rusage t r) = map2 (+) (counters r) (tcounters t)"
  by (simp add: accumulate_thread_rusage_def counters_def tcounters_def)

lemma length_counters [simp]: "length (counters r) = 6" "length (tcounters t) = 6"
  by (simp_all add: counters_def tcounters_def)

text \<open>The sums over a list of threads.\<close>

definition tsum :: "thread_stats list \<Rightarrow> u64 list" where
  "tsum ts = map (\<lambda>j. \<Sum>t\<leftarrow>ts. tcounters t ! j) [0..<6]"

lemma counters_fold:
  "counters (fold accumulate_thread_rusage ts r) = map2 (+) (counters r) (tsum ts)"
proof (rule nth_equalityI)
  fix j assume "j < length (counters (fold accumulate_thread_rusage ts r))"
  then have j: "j < 6" by simp
  then have "counters (fold accumulate_thread_rusage ts r) ! j = counters r ! j + (\<Sum>t\<leftarrow>ts. tcounters t ! j)"
    by (induction ts arbitrary: r) (simp_all add: counters_accumulate add.assoc)
  then show "counters (fold accumulate_thread_rusage ts r) ! j = map2 (+) (counters r) (tsum ts) ! j"
    using j by (simp add: tsum_def)
qed (simp add: tsum_def)

lemma counters_finish [simp]: "counters (finish_rusage env r u s mr) = counters r"
  by (simp add: counters_def finish_rusage_def)

text \<open>The statistics that count: those of the second pass after a retry.\<close>

abbreviation sample :: "signal_stats \<Rightarrow> bool \<Rightarrow> signal_stats \<Rightarrow> signal_stats" where
  "sample sig0 need_seqretry sig1 \<equiv> (if need_seqretry then sig1 else sig0)"

text \<open>What one pass yields, for the three questions.\<close>

lemma pass_self:
  "\<exists>r. rusage_pass RUSAGE_SELF sig = Some (r, 0, 0, maxrss sig)
     \<and> counters r = map2 (+) (tcounters (exited sig)) (tsum (live sig))"
  by (simp add: rusage_pass_def Let_def counters_fold)
    (simp add: counters_def tcounters_def zero_rusage_def word_gt_0)

lemma pass_children:
  "\<exists>r. rusage_pass RUSAGE_CHILDREN sig = Some (r, cutime sig, cstime sig, cmaxrss sig)
     \<and> counters r = tcounters (reaped sig)"
  by (simp add: rusage_pass_def Let_def) (simp add: counters_def tcounters_def)

lemma pass_both:
  "\<exists>r. rusage_pass RUSAGE_BOTH sig = Some (r, cutime sig, cstime sig, max (cmaxrss sig) (maxrss sig))
     \<and> counters r = map2 (+) (map2 (+) (tcounters (exited sig)) (tsum (live sig))) (tcounters (reaped sig))"
  by (simp add: rusage_pass_def Let_def counters_fold max_def not_less)
    (auto simp: counters_def tcounters_def tsum_def upt_rec ac_simps)

lemma setmax_eq: "setmax_mm_hiwater_rss env mr = (case mm_hiwater_rss env of None \<Rightarrow> mr | Some h \<Rightarrow> max h mr)"
  by (auto simp: setmax_mm_hiwater_rss_def max_def split: option.split)

lemma ru_maxrss_finish [simp]: "ru_maxrss (finish_rusage env r u s mr) = 4 * mr"
  by (simp add: finish_rusage_def)

lemma getrusage_sample:
  assumes "\<And>sig. rusage_pass who sig \<noteq> None" and "who \<noteq> RUSAGE_THREAD"
    and "rusage_pass who (sample sig0 b sig1) = Some (r, u, s, mr)"
  shows "getrusage env self sig0 b sig1 who =
     Some (if who = RUSAGE_CHILDREN then finish_rusage env r u s mr
           else finish_rusage env r (u + fst (thread_group_cputime_adjusted env))
                  (s + snd (thread_group_cputime_adjusted env)) (setmax_mm_hiwater_rss env mr))"
proof -
  obtain p0 where p0: "rusage_pass who sig0 = Some p0" using assms(1) by blast
  have "(if b then rusage_pass who sig1 else Some p0) = Some (r, u, s, mr)"
    using p0 assms(3) by (cases b) simp_all
  then show ?thesis using assms(2) p0 by (simp add: getrusage_def case_prod_unfold)
qed


end
