(* ===== verification/Sysinfo.thy ===== *)
theory Sysinfo
  imports Kernel_Prelude
begin

text \<open>
  \<open>getcpu\<close> and \<open>sysinfo\<close> (kernel/sys.c): the memory figures of the system, scaled to bytes when
  they fit, and the 32-bit layout, which scales them back to pages.

  Outside code, the record \<open>sysinfo_env\<close>: the boot time, the load averages, the number of
  threads, and the functions that fill in the memory and swap figures.
\<close>

section \<open>Structures\<close>

record sysinfo =
  uptime :: u64
  load0 :: u64
  load1 :: u64
  load2 :: u64
  totalram :: u64
  freeram :: u64
  sharedram :: u64
  bufferram :: u64
  totalswap :: u64
  freeswap :: u64
  nprocs :: u16
  totalhigh :: u64
  freehigh :: u64
  mem_unit :: u32

record sysinfo_env =
  boot_sec :: u64
  boot_nsec :: u64
  avenrun :: "u64 \<times> u64 \<times> u64"
  nr_threads :: u32
  si_meminfo :: "sysinfo \<Rightarrow> sysinfo"
  si_swapinfo :: "sysinfo \<Rightarrow> sysinfo"

definition zero_sysinfo :: sysinfo where
  "zero_sysinfo = \<lparr>uptime = 0, load0 = 0, load1 = 0, load2 = 0, totalram = 0, freeram = 0, sharedram = 0, bufferram = 0,
     totalswap = 0, freeswap = 0, nprocs = 0, totalhigh = 0, freehigh = 0, mem_unit = 0\<rparr>"

text \<open>The 112 bytes of the structure; 6 bytes of padding after \<open>procs\<close>, 4 at the end.\<close>

definition sysinfo_bytes :: "sysinfo \<Rightarrow> u8 list" where
  "sysinfo_bytes i = le_bytes (uptime i) @ le_bytes (load0 i) @ le_bytes (load1 i) @ le_bytes (load2 i)
     @ le_bytes (totalram i) @ le_bytes (freeram i) @ le_bytes (sharedram i) @ le_bytes (bufferram i)
     @ le_bytes (totalswap i) @ le_bytes (freeswap i) @ le_bytes (nprocs i) @ replicate 6 0
     @ le_bytes (totalhigh i) @ le_bytes (freehigh i) @ le_bytes (mem_unit i) @ replicate 4 0"

section \<open>getcpu\<close>

definition sys_getcpu :: "uaccess \<Rightarrow> (u32 \<Rightarrow> u32) \<Rightarrow> u32 \<Rightarrow> addr \<Rightarrow> addr \<Rightarrow> umem \<Rightarrow> umem \<times> int" where
  "sys_getcpu ua cpu_to_node cpu cpup nodep m =
     (let (m1, e1) = (if cpup \<noteq> NULL then put_user ua m cpup (le_bytes cpu) else (m, 0));
          (m2, e2) = (if nodep \<noteq> NULL then put_user ua m1 nodep (le_bytes (cpu_to_node cpu)) else (m1, 0))
      in (m2, if e1 \<noteq> 0 \<or> e2 \<noteq> 0 then - EFAULT else 0))"

section \<open>sysinfo\<close>

text \<open>
  The loop that looks for the shift: how often the unit can be halved down to 1 while the total
  is doubled without overflow. \<open>None\<close> is the jump to \<open>out\<close>.
\<close>

function scale_loop :: "u32 \<Rightarrow> u64 \<Rightarrow> nat \<Rightarrow> nat option" where
  "scale_loop unit mem_total bitcount =
     (if unit > 1
      then (if push_bit 1 mem_total < mem_total then None
            else scale_loop (drop_bit 1 unit) (push_bit 1 mem_total) (bitcount + 1))
      else Some bitcount)"
  by pat_completeness auto
termination
proof (relation "measure (\<lambda>(unit, _, _). unat unit)")
  fix unit :: u32 and mem_total :: u64 and bitcount :: nat
  assume "1 < unit"
  then have "0 < unat unit" by (simp add: word_less_nat_alt)
  then show "((drop_bit 1 unit, push_bit 1 mem_total, bitcount + 1), (unit, mem_total, bitcount))
      \<in> measure (\<lambda>(unit, _, _). unat unit)"
    by (simp add: drop_bit_eq_div unat_div)
qed simp

declare scale_loop.simps [simp del]

definition shift_up :: "nat \<Rightarrow> sysinfo \<Rightarrow> sysinfo" where
  "shift_up b i = i\<lparr>mem_unit := 1, totalram := push_bit b (totalram i), freeram := push_bit b (freeram i),
     sharedram := push_bit b (sharedram i), bufferram := push_bit b (bufferram i),
     totalswap := push_bit b (totalswap i), freeswap := push_bit b (freeswap i),
     totalhigh := push_bit b (totalhigh i), freehigh := push_bit b (freehigh i)\<rparr>"

definition scale_sysinfo :: "sysinfo \<Rightarrow> sysinfo" where
  "scale_sysinfo i =
     (let mem_total = totalram i + totalswap i
      in if mem_total < totalram i \<or> mem_total < totalswap i then i
         else case scale_loop (mem_unit i) mem_total 0 of
                None \<Rightarrow> i
              | Some b \<Rightarrow> shift_up b i)"

text \<open>The figures before scaling.\<close>

definition raw_sysinfo :: "sysinfo_env \<Rightarrow> sysinfo" where
  "raw_sysinfo env =
     (let i = zero_sysinfo\<lparr>uptime := boot_sec env + (if boot_nsec env \<noteq> 0 then 1 else 0)\<rparr>;
          i = (case avenrun env of (a, b, c) \<Rightarrow> i\<lparr>load0 := a, load1 := b, load2 := c\<rparr>);
          i = i\<lparr>nprocs := ucast (nr_threads env)\<rparr>
      in si_swapinfo env (si_meminfo env i))"

definition do_sysinfo :: "sysinfo_env \<Rightarrow> sysinfo" where
  "do_sysinfo env = scale_sysinfo (raw_sysinfo env)"

definition sys_sysinfo :: "uaccess \<Rightarrow> sysinfo_env \<Rightarrow> addr \<Rightarrow> umem \<Rightarrow> umem \<times> int" where
  "sys_sysinfo ua env p m =
     (let (m1, left) = copy_to_user ua m p (sysinfo_bytes (do_sysinfo env))
      in (m1, if left \<noteq> 0 then - EFAULT else 0))"

section \<open>The 32-bit layout\<close>

text \<open>The loop doubles the unit up to a page; it does not end when the unit is 0.\<close>

partial_function (option) unit_loop :: "u32 \<Rightarrow> nat \<Rightarrow> (u32 \<times> nat) option" where
  "unit_loop unit bitcount =
     (if unit < 4096 then unit_loop (push_bit 1 unit) (bitcount + 1) else Some (unit, bitcount))"

definition shift_down :: "u32 \<Rightarrow> nat \<Rightarrow> sysinfo \<Rightarrow> sysinfo" where
  "shift_down unit b i = i\<lparr>mem_unit := unit, totalram := drop_bit b (totalram i), freeram := drop_bit b (freeram i),
     sharedram := drop_bit b (sharedram i), bufferram := drop_bit b (bufferram i),
     totalswap := drop_bit b (totalswap i), freeswap := drop_bit b (freeswap i),
     totalhigh := drop_bit b (totalhigh i), freehigh := drop_bit b (freehigh i)\<rparr>"

definition upper_32_bits :: "u64 \<Rightarrow> u32" where
  "upper_32_bits x = ucast (drop_bit 32 x)"

definition compat_scale :: "sysinfo \<Rightarrow> sysinfo option" where
  "compat_scale i =
     (if upper_32_bits (totalram i) \<noteq> 0 \<or> upper_32_bits (totalswap i) \<noteq> 0
      then map_option (\<lambda>(u, b). shift_down u b i) (unit_loop (mem_unit i) 0)
      else Some i)"

text \<open>The structure has no trailing bytes: \<open>_f\<close> is \<open>20 - 2 * 4 - 4 = 8\<close> bytes long.\<close>

definition compat_sysinfo_bytes :: "sysinfo \<Rightarrow> u8 list" where
  "compat_sysinfo_bytes i =
     le_bytes (ucast (uptime i) :: u32) @ le_bytes (ucast (load0 i) :: u32) @ le_bytes (ucast (load1 i) :: u32)
     @ le_bytes (ucast (load2 i) :: u32) @ le_bytes (ucast (totalram i) :: u32) @ le_bytes (ucast (freeram i) :: u32)
     @ le_bytes (ucast (sharedram i) :: u32) @ le_bytes (ucast (bufferram i) :: u32) @ le_bytes (ucast (totalswap i) :: u32)
     @ le_bytes (ucast (freeswap i) :: u32) @ le_bytes (nprocs i) @ le_bytes (0 :: u16)
     @ le_bytes (ucast (totalhigh i) :: u32) @ le_bytes (ucast (freehigh i) :: u32) @ le_bytes (mem_unit i) @ replicate 8 0"

definition compat_sys_sysinfo :: "uaccess \<Rightarrow> sysinfo_env \<Rightarrow> addr \<Rightarrow> umem \<Rightarrow> (umem \<times> int) option" where
  "compat_sys_sysinfo ua env p m =
     (case compat_scale (do_sysinfo env) of
        None \<Rightarrow> None
      | Some s \<Rightarrow>
          (let (m1, left) = copy_to_user ua m p (compat_sysinfo_bytes s)
           in Some (m1, if left \<noteq> 0 then - EFAULT else 0)))"

section \<open>Scaling is exact\<close>

lemma unat_lt_64: "unat (x :: u64) < 2 ^ 64"
  using unat_less_64[of x] by simp

lemma unat_push_bit_64: "unat (push_bit b (x :: u64)) = (unat x * 2 ^ b) mod 2 ^ 64"
  unfolding unsigned_push_bit_eq by (simp add: push_bit_eq_mult take_bit_eq_mod)

lemma push_1_less: "push_bit 1 (x :: u64) < x \<longleftrightarrow> 2 ^ 64 \<le> unat x * 2"
proof -
  have x: "unat x < 2 ^ 64" by (rule unat_lt_64)
  have "(unat x * 2) mod 2 ^ 64 = (if 2 ^ 64 \<le> unat x * 2 then unat x * 2 - 2 ^ 64 else unat x * 2)"
    using x by (simp add: mod_if)
  then show ?thesis
    using x unfolding word_less_nat_alt unat_push_bit_64 by auto
qed

text \<open>For a unit that is a power of two the loop finds its exponent, or the total overflows.\<close>

lemma scale_loop_power:
  assumes "unat unit = 2 ^ k" and "k < 32"
  shows "scale_loop unit mem_total b = (if unat mem_total * 2 ^ k < 2 ^ 64 then Some (b + k) else None)"
  using assms
proof (induction k arbitrary: unit mem_total b)
  case 0
  have "unat mem_total < 2 ^ 64" by (rule unat_lt_64)
  moreover have "\<not> 1 < unit" using 0 by (simp add: word_less_nat_alt)
  ultimately show ?case by (simp add: scale_loop.simps)
next
  case (Suc k)
  have "1 < (2 :: nat) ^ Suc k" by (rule one_less_power) simp_all
  then have gt: "1 < unit" using Suc.prems(1) by (simp add: word_less_nat_alt)
  have half: "unat (drop_bit 1 unit) = 2 ^ k"
    using Suc.prems(1) by (simp add: drop_bit_eq_div unat_div)
  have x: "unat mem_total < 2 ^ 64" by (rule unat_lt_64)
  show ?case
  proof (cases "2 ^ 64 \<le> unat mem_total * 2")
    case True
    then have "\<not> unat mem_total * 2 ^ Suc k < 2 ^ 64"
      using mult_le_mono2[of 2 "2 ^ Suc k" "unat mem_total"] by (auto simp: not_less intro: order_trans)
    moreover have "push_bit 1 mem_total < mem_total" using True by (simp only: push_1_less)
    ultimately show ?thesis using gt by (simp only: scale_loop.simps[of unit] if_True if_False)
  next
    case False
    then have dbl: "unat (push_bit 1 mem_total) = unat mem_total * 2"
      unfolding unat_push_bit_64 by simp
    have "scale_loop (drop_bit 1 unit) (push_bit 1 mem_total) (b + 1)
        = (if unat (push_bit 1 mem_total) * 2 ^ k < 2 ^ 64 then Some (b + 1 + k) else None)"
      by (rule Suc.IH[OF half]) (use Suc.prems(2) in simp)
    moreover have "\<not> push_bit 1 mem_total < mem_total" using False by (simp only: push_1_less) simp
    ultimately have "scale_loop unit mem_total b
        = (if unat mem_total * 2 * 2 ^ k < 2 ^ 64 then Some (b + 1 + k) else None)"
      using gt unfolding dbl by (simp only: scale_loop.simps[of unit] if_True if_False)
    then show ?thesis by (simp add: mult.assoc)
  qed
qed

lemma scale_sysinfo_exact:
  assumes "unat (mem_unit i) = 2 ^ k" and "k < 32"
  shows "if (unat (totalram i) + unat (totalswap i)) * 2 ^ k < 2 ^ 64
    then mem_unit (scale_sysinfo i) = 1
      \<and> unat (totalram (scale_sysinfo i)) = unat (totalram i) * 2 ^ k
      \<and> unat (totalswap (scale_sysinfo i)) = unat (totalswap i) * 2 ^ k
      \<and> (freeram i \<le> totalram i \<longrightarrow> unat (freeram (scale_sysinfo i)) = unat (freeram i) * 2 ^ k)
      \<and> (freeswap i \<le> totalswap i \<longrightarrow> unat (freeswap (scale_sysinfo i)) = unat (freeswap i) * 2 ^ k)
    else scale_sysinfo i = i"
proof -
  have r: "unat (totalram i) < 2 ^ 64" "unat (totalswap i) < 2 ^ 64" by (rule unat_lt_64)+
  have wrap: "totalram i + totalswap i < totalram i \<or> totalram i + totalswap i < totalswap i
      \<longleftrightarrow> 2 ^ 64 \<le> unat (totalram i) + unat (totalswap i)"
    using r by (auto simp: word_less_nat_alt unat_plus_if')
  show ?thesis
  proof (cases "(unat (totalram i) + unat (totalswap i)) * 2 ^ k < 2 ^ 64")
    case True
    have one: "(1 :: nat) \<le> 2 ^ k" by simp
    have "unat (totalram i) + unat (totalswap i) < 2 ^ 64"
      by (rule le_less_trans[OF _ True]) (use mult_le_mono2[OF one] in fastforce)
    then have sum: "unat (totalram i + totalswap i) = unat (totalram i) + unat (totalswap i)"
      by (simp add: unat_add_64)
    then have "scale_sysinfo i = shift_up k i"
      using True wrap \<open>unat (totalram i) + unat (totalswap i) < 2 ^ 64\<close> assms
      by (simp add: scale_sysinfo_def Let_def scale_loop_power)
    moreover have "unat (push_bit k x) = unat x * 2 ^ k"
      if "unat x \<le> unat (totalram i) + unat (totalswap i)" for x :: u64
    proof -
      have "unat x * 2 ^ k < 2 ^ 64" by (rule le_less_trans[OF mult_le_mono1[OF that] True])
      then show ?thesis unfolding unat_push_bit_64 by simp
    qed
    ultimately show ?thesis
      using True by (simp add: shift_up_def word_le_nat_alt)
  next
    case False
    have "scale_sysinfo i = i"
    proof (cases "2 ^ 64 \<le> unat (totalram i) + unat (totalswap i)")
      case True
      then show ?thesis using wrap by (simp add: scale_sysinfo_def Let_def)
    next
      case no: False
      then have "unat (totalram i + totalswap i) = unat (totalram i) + unat (totalswap i)"
        by (simp add: unat_add_64)
      then show ?thesis
        using False wrap no assms by (simp add: scale_sysinfo_def Let_def scale_loop_power)
    qed
    with False show ?thesis by simp
  qed
qed


definition plain_sysinfo_env :: sysinfo_env where
  "plain_sysinfo_env = \<lparr>boot_sec = 100, boot_nsec = 5, avenrun = (1, 2, 3), nr_threads = 70000,
     si_meminfo = (\<lambda>i. i\<lparr>totalram := 2000000, freeram := 500000, mem_unit := 4096\<rparr>),
     si_swapinfo = (\<lambda>i. i\<lparr>totalswap := 1000000, freeswap := 900000\<rparr>)\<rparr>"

text \<open>
  \<open>sysinfo\<close> converts to bytes exactly when that is exact: for a unit of \<open>2 ^ k\<close> bytes the
  figures are multiplied by it and the unit becomes 1 if the sum of memory and swap stays
  below \<open>2 ^ 64\<close> bytes, and then no figure that is at most the total memory wraps around;
  otherwise everything is left in units.
\<close>

theorem sysinfo_scaling_exact:
  assumes "unat (mem_unit (raw_sysinfo env)) = 2 ^ k" and "k < 32"
  shows "if (unat (totalram (raw_sysinfo env)) + unat (totalswap (raw_sysinfo env))) * 2 ^ k < 2 ^ 64
    then mem_unit (do_sysinfo env) = 1
      \<and> unat (totalram (do_sysinfo env)) = unat (totalram (raw_sysinfo env)) * 2 ^ k
      \<and> unat (totalswap (do_sysinfo env)) = unat (totalswap (raw_sysinfo env)) * 2 ^ k
      \<and> (freeram (raw_sysinfo env) \<le> totalram (raw_sysinfo env) \<longrightarrow>
           unat (freeram (do_sysinfo env)) = unat (freeram (raw_sysinfo env)) * 2 ^ k)
      \<and> (freeswap (raw_sysinfo env) \<le> totalswap (raw_sysinfo env) \<longrightarrow>
           unat (freeswap (do_sysinfo env)) = unat (freeswap (raw_sysinfo env)) * 2 ^ k)
    else do_sysinfo env = raw_sysinfo env"
  using scale_sysinfo_exact[OF assms] by (simp only: do_sysinfo_def)

theorem sysinfo_scaling_exact_witness:
  "mem_unit (do_sysinfo plain_sysinfo_env) = 1
   \<and> unat (totalram (do_sysinfo plain_sysinfo_env)) = 2000000 * 4096
   \<and> unat (freeswap (do_sysinfo plain_sysinfo_env)) = 900000 * 4096"
  using sysinfo_scaling_exact[of plain_sysinfo_env 12]
  by (simp add: raw_sysinfo_def plain_sysinfo_env_def word_le_nat_alt)

section \<open>The 32-bit call returns\<close>

lemma unit_loop_returns:
  assumes "unat unit \<noteq> 0"
  shows "\<exists>u c. unit_loop unit b = Some (u, b + c) \<and> unat u = unat unit * 2 ^ c \<and> 4096 \<le> unat u"
  using assms
proof (induction "4096 - unat unit" arbitrary: unit b rule: less_induct)
  case less
  show ?case
  proof (cases "unit < 4096")
    case False
    then have "unit_loop unit b = Some (unit, b + 0)"
      by (simp add: unit_loop.simps)
    moreover have "4096 \<le> unat unit" using False by (simp add: word_less_nat_alt)
    ultimately show ?thesis by (intro exI[of _ unit] exI[of _ 0]) simp
  next
    case True
    then have lt: "unat unit < 4096" by (simp add: word_less_nat_alt)
    have "unat (push_bit 1 unit) = (unat unit * 2) mod 2 ^ 32"
      unfolding unsigned_push_bit_eq by (simp add: push_bit_eq_mult take_bit_eq_mod)
    then have dbl: "unat (push_bit 1 unit) = unat unit * 2" using lt by simp
    then have "4096 - unat (push_bit 1 unit) < 4096 - unat unit" "unat (push_bit 1 unit) \<noteq> 0"
      using lt less.prems by linarith+
    from less.hyps[OF this, of "b + 1"] obtain u c
      where "unit_loop (push_bit 1 unit) (b + 1) = Some (u, b + 1 + c)"
        and "unat u = unat unit * 2 * 2 ^ c" and "4096 \<le> unat u"
      unfolding dbl by blast
    moreover have "unit_loop unit b = unit_loop (push_bit 1 unit) (b + 1)"
      using True by (simp add: unit_loop.simps[of unit])
    ultimately show ?thesis by (intro exI[of _ u] exI[of _ "c + 1"]) simp
  qed
qed

lemma unit_loop_zero: "unit_loop 0 b = None"
proof -
  have "u \<noteq> 0" if "unit_loop u b = Some r" for u b r
  proof (rule unit_loop.raw_induct[where P = "\<lambda>u b r. u \<noteq> 0", OF _ that])
    fix f and u :: u32 and b :: nat and r
    assume ih: "\<And>u b r. f u b = Some r \<Longrightarrow> u \<noteq> 0"
      and run: "(if u < 4096 then f (push_bit 1 u) (b + 1) else Some (u, b)) = Some r"
    show "u \<noteq> 0"
    proof
      assume "u = 0"
      then have "f 0 (b + 1) = Some r" using run by simp
      then show False using ih by blast
    qed
  qed
  then show ?thesis by (cases "unit_loop 0 b") blast+
qed

lemma unat_drop_bit_64: "unat (drop_bit b (x :: u64)) = unat x div 2 ^ b"
  unfolding unsigned_drop_bit_eq by (simp add: drop_bit_eq_div take_bit_nat_eq_self[OF unat_lt_64])



end
