(* ===== verification/Prctl_Mm.thy ===== *)
theory Prctl_Mm
  imports Kernel_Prelude
begin

text \<open>
  The memory-map options of \<open>prctl\<close> (kernel/sys.c, \<open>prctl_set_mm_exe_file\<close> to
  \<open>prctl_get_auxv\<close>): the recorded boundaries of a process image, its auxiliary vector, its
  executable file, the names of anonymous mappings, and the flags that deny memory which is
  both writable and executable (MDWE).

  Constants of the build are the record \<open>mm_config\<close>. Outside code, the record \<open>mm_env\<close>: the
  data limit, files, capability tests, the lookup of mappings and names. Locks are left out:
  each call runs with the locks of the source held.
\<close>

section \<open>State\<close>

text \<open>The boundaries, the common part of \<open>struct prctl_mm_map\<close> and \<open>mm_struct\<close>.\<close>

record layout =
  start_code :: u64
  end_code :: u64
  start_data :: u64
  end_data :: u64
  start_brk :: u64
  brk :: u64
  start_stack :: u64
  arg_start :: u64
  arg_end :: u64
  env_start :: u64
  env_end :: u64

record prctl_mm_map =
  map_layout :: layout
  auxv :: addr
  auxv_size :: u32
  exe_fd :: u32

text \<open>
  \<open>dumpable\<close> is the value that \<open>get_dumpable\<close> reads from the flags; \<open>vma_names\<close> the names
  that were given to anonymous mappings.
\<close>

record mm_struct =
  lay :: layout
  saved_auxv :: "u8 list"
  exe_file :: nat
  mm_flags :: u64
  dumpable :: u64
  vma_names :: "(u64 \<times> u64 \<times> u8 list option) list"

record mm_config =
  TASK_SIZE :: u64
  mmap_min_addr :: u64
  AT_VECTOR_SIZE :: nat
  CONFIG_CHECKPOINT_RESTORE :: bool
  CONFIG_ANON_VMA_NAME :: bool

record mm_env =
  check_data_rlimit :: "u64 \<Rightarrow> u64 \<Rightarrow> u64 \<Rightarrow> u64 \<Rightarrow> int"
  fdget :: "u32 \<Rightarrow> nat option"
  file_isreg :: "nat \<Rightarrow> bool"
  path_noexec :: "nat \<Rightarrow> bool"
  file_permission_exec :: "nat \<Rightarrow> int"
  replace_mm_exe_file :: "nat \<Rightarrow> mm_struct \<Rightarrow> mm_struct \<times> int"
  checkpoint_restore_capable :: bool
  capable_resource :: bool
  find_vma :: "u64 \<Rightarrow> bool"
  strndup_user :: "umem \<Rightarrow> addr \<Rightarrow> nat \<Rightarrow> int + u8 list"
  anon_vma_name_alloc :: "u8 list \<Rightarrow> bool"
  madvise_set_anon_name :: "u64 \<Rightarrow> u64 \<Rightarrow> u8 list option \<Rightarrow> mm_struct \<Rightarrow> mm_struct \<times> int"

abbreviation (input) PR_SET_MM_START_CODE :: u32 where "PR_SET_MM_START_CODE \<equiv> 1"
abbreviation (input) PR_SET_MM_END_CODE :: u32 where "PR_SET_MM_END_CODE \<equiv> 2"
abbreviation (input) PR_SET_MM_START_DATA :: u32 where "PR_SET_MM_START_DATA \<equiv> 3"
abbreviation (input) PR_SET_MM_END_DATA :: u32 where "PR_SET_MM_END_DATA \<equiv> 4"
abbreviation (input) PR_SET_MM_START_STACK :: u32 where "PR_SET_MM_START_STACK \<equiv> 5"
abbreviation (input) PR_SET_MM_START_BRK :: u32 where "PR_SET_MM_START_BRK \<equiv> 6"
abbreviation (input) PR_SET_MM_BRK :: u32 where "PR_SET_MM_BRK \<equiv> 7"
abbreviation (input) PR_SET_MM_ARG_START :: u32 where "PR_SET_MM_ARG_START \<equiv> 8"
abbreviation (input) PR_SET_MM_ARG_END :: u32 where "PR_SET_MM_ARG_END \<equiv> 9"
abbreviation (input) PR_SET_MM_ENV_START :: u32 where "PR_SET_MM_ENV_START \<equiv> 10"
abbreviation (input) PR_SET_MM_ENV_END :: u32 where "PR_SET_MM_ENV_END \<equiv> 11"
abbreviation (input) PR_SET_MM_AUXV :: u32 where "PR_SET_MM_AUXV \<equiv> 12"
abbreviation (input) PR_SET_MM_EXE_FILE :: u32 where "PR_SET_MM_EXE_FILE \<equiv> 13"
abbreviation (input) PR_SET_MM_MAP :: u32 where "PR_SET_MM_MAP \<equiv> 14"
abbreviation (input) PR_SET_MM_MAP_SIZE :: u32 where "PR_SET_MM_MAP_SIZE \<equiv> 15"
abbreviation (input) PR_SET_VMA_ANON_NAME :: u64 where "PR_SET_VMA_ANON_NAME \<equiv> 0"
abbreviation (input) PR_MDWE_REFUSE_EXEC_GAIN :: u64 where "PR_MDWE_REFUSE_EXEC_GAIN \<equiv> 1"
abbreviation (input) PR_MDWE_NO_INHERIT :: u64 where "PR_MDWE_NO_INHERIT \<equiv> 2"
abbreviation (input) MMF_DISABLE_THP :: nat where "MMF_DISABLE_THP \<equiv> 24"
abbreviation (input) MMF_HAS_MDWE :: nat where "MMF_HAS_MDWE \<equiv> 28"
abbreviation (input) MMF_VM_MERGE_ANY :: nat where "MMF_VM_MERGE_ANY \<equiv> 29"
abbreviation (input) MMF_HAS_MDWE_NO_INHERIT :: nat where "MMF_HAS_MDWE_NO_INHERIT \<equiv> 30"
abbreviation (input) ANON_VMA_NAME_MAX_LEN :: nat where "ANON_VMA_NAME_MAX_LEN \<equiv> 80"

section \<open>The executable file\<close>

definition prctl_set_mm_exe_file :: "mm_env \<Rightarrow> u32 \<Rightarrow> mm_struct \<Rightarrow> mm_struct \<times> int" where
  "prctl_set_mm_exe_file env fd mm =
     (case fdget env fd of
        None \<Rightarrow> (mm, - EBADF)
      | Some f \<Rightarrow>
          if \<not> file_isreg env f \<or> path_noexec env f then (mm, - EACCES)
          else (let err = file_permission_exec env f
                in if err \<noteq> 0 then (mm, err) else replace_mm_exe_file env f mm))"

section \<open>The boundaries\<close>

definition layout_fields :: "layout \<Rightarrow> u64 list" where
  "layout_fields l = [start_code l, end_code l, start_data l, end_data l, start_brk l, brk l, start_stack l,
     arg_start l, arg_end l, env_start l, env_end l]"

definition validate_prctl_map_addr :: "mm_config \<Rightarrow> mm_env \<Rightarrow> layout \<Rightarrow> int" where
  "validate_prctl_map_addr cfg env l =
     (if list_ex (\<lambda>v. v \<ge> TASK_SIZE cfg \<or> v < mmap_min_addr cfg) (layout_fields l) then - EINVAL
      else if \<not> (start_code l < end_code l) \<or> \<not> (start_data l \<le> end_data l) \<or> \<not> (start_brk l \<le> brk l)
           \<or> \<not> (arg_start l \<le> arg_end l) \<or> \<not> (env_start l \<le> env_end l) then - EINVAL
      else if check_data_rlimit env (brk l) (start_brk l) (end_data l) (start_data l) \<noteq> 0 then - EINVAL
      else 0)"

text \<open>The 104 bytes of \<open>struct prctl_mm_map\<close>.\<close>

definition word_at :: "u8 list \<Rightarrow> nat \<Rightarrow> u64" where
  "word_at bs i = le_word (field (8 * i) 8 bs)"

definition read_prctl_mm_map :: "u8 list \<Rightarrow> prctl_mm_map" where
  "read_prctl_mm_map bs =
     \<lparr>map_layout = \<lparr>start_code = word_at bs 0, end_code = word_at bs 1, start_data = word_at bs 2,
        end_data = word_at bs 3, start_brk = word_at bs 4, brk = word_at bs 5, start_stack = word_at bs 6,
        arg_start = word_at bs 7, arg_end = word_at bs 8, env_start = word_at bs 9, env_end = word_at bs 10\<rparr>,
      auxv = word_at bs 11, auxv_size = le_word (field 96 4 bs), exe_fd = le_word (field 100 4 bs)\<rparr>"

text \<open>The vector in a zeroed buffer, with its last entry forced to \<open>AT_NULL\<close>.\<close>

definition auxv_size_bytes :: "mm_config \<Rightarrow> nat" where
  "auxv_size_bytes cfg = 8 * AT_VECTOR_SIZE cfg"

definition user_auxv :: "mm_config \<Rightarrow> u8 list \<Rightarrow> u8 list" where
  "user_auxv cfg bs = take (auxv_size_bytes cfg - 16) (bs @ replicate (auxv_size_bytes cfg) 0) @ replicate 16 0"

text \<open>The part from the check of \<open>exe_fd\<close> on.\<close>

definition set_mm_map_commit :: "mm_env \<Rightarrow> prctl_mm_map \<Rightarrow> u8 list option \<Rightarrow> mm_struct \<Rightarrow> mm_struct \<times> int" where
  "set_mm_map_commit env pm vec mm =
     (let (mm1, err) = (if exe_fd pm \<noteq> - 1
                        then (if \<not> checkpoint_restore_capable env then (mm, - EPERM)
                              else prctl_set_mm_exe_file env (exe_fd pm) mm)
                        else (mm, 0))
      in if err \<noteq> 0 then (mm1, err)
         else (let mm2 = mm1\<lparr>lay := map_layout pm\<rparr>
               in (case vec of None \<Rightarrow> mm2 | Some v \<Rightarrow> mm2\<lparr>saved_auxv := v\<rparr>, 0)))"

definition prctl_set_mm_map :: "uaccess \<Rightarrow> mm_config \<Rightarrow> mm_env \<Rightarrow> u32 \<Rightarrow> addr \<Rightarrow> u64 \<Rightarrow> mm_struct \<Rightarrow> umem
    \<Rightarrow> mm_struct \<times> umem \<times> int" where
  "prctl_set_mm_map ua cfg env opt a data_size mm m =
     (if opt = PR_SET_MM_MAP_SIZE then (let (m1, e) = put_user ua m a (le_bytes (104 :: u32)) in (mm, m1, e))
      else if data_size \<noteq> 104 then (mm, m, - EINVAL)
      else (let (bs, left) = copy_from_user ua m a 104
            in if left \<noteq> 0 then (mm, m, - EFAULT)
               else (let pm = read_prctl_mm_map bs; err = validate_prctl_map_addr cfg env (map_layout pm)
                     in if err \<noteq> 0 then (mm, m, err)
                        else if auxv_size pm \<noteq> 0
                        then (if auxv pm = NULL \<or> unat (auxv_size pm) > auxv_size_bytes cfg then (mm, m, - EINVAL)
                              else (let (vs, left) = copy_from_user ua m (auxv pm) (unat (auxv_size pm))
                                    in if left \<noteq> 0 then (mm, m, - EFAULT)
                                       else (let (mm1, e) = set_mm_map_commit env pm (Some (user_auxv cfg vs)) mm
                                             in (mm1, m, e))))
                        else (let (mm1, e) = set_mm_map_commit env pm None mm in (mm1, m, e)))))"

definition prctl_set_auxv :: "uaccess \<Rightarrow> mm_config \<Rightarrow> addr \<Rightarrow> u64 \<Rightarrow> mm_struct \<Rightarrow> umem \<Rightarrow> mm_struct \<times> umem \<times> int" where
  "prctl_set_auxv ua cfg a len mm m =
     (if unat len > auxv_size_bytes cfg then (mm, m, - EINVAL)
      else (let (bs, left) = copy_from_user ua m a (unat len)
            in if left \<noteq> 0 then (mm, m, - EFAULT)
               else (mm\<lparr>saved_auxv := take (unat len) (user_auxv cfg bs) @ drop (unat len) (saved_auxv mm)\<rparr>, m, 0)))"

text \<open>The first switch: the boundary that is replaced. \<open>None\<close> is the default case.\<close>

definition set_boundary :: "u32 \<Rightarrow> u64 \<Rightarrow> layout \<Rightarrow> layout option" where
  "set_boundary opt a l =
     (if opt = PR_SET_MM_START_CODE then Some (l\<lparr>start_code := a\<rparr>)
      else if opt = PR_SET_MM_END_CODE then Some (l\<lparr>end_code := a\<rparr>)
      else if opt = PR_SET_MM_START_DATA then Some (l\<lparr>start_data := a\<rparr>)
      else if opt = PR_SET_MM_END_DATA then Some (l\<lparr>end_data := a\<rparr>)
      else if opt = PR_SET_MM_START_STACK then Some (l\<lparr>start_stack := a\<rparr>)
      else if opt = PR_SET_MM_START_BRK then Some (l\<lparr>start_brk := a\<rparr>)
      else if opt = PR_SET_MM_BRK then Some (l\<lparr>brk := a\<rparr>)
      else if opt = PR_SET_MM_ARG_START then Some (l\<lparr>arg_start := a\<rparr>)
      else if opt = PR_SET_MM_ARG_END then Some (l\<lparr>arg_end := a\<rparr>)
      else if opt = PR_SET_MM_ENV_START then Some (l\<lparr>env_start := a\<rparr>)
      else if opt = PR_SET_MM_ENV_END then Some (l\<lparr>env_end := a\<rparr>)
      else None)"

definition prctl_set_mm :: "uaccess \<Rightarrow> mm_config \<Rightarrow> mm_env \<Rightarrow> u32 \<Rightarrow> u64 \<Rightarrow> u64 \<Rightarrow> u64 \<Rightarrow> mm_struct \<Rightarrow> umem
    \<Rightarrow> mm_struct \<times> umem \<times> int" where
  "prctl_set_mm ua cfg env opt a arg4 arg5 mm m =
     (if arg5 \<noteq> 0 \<or> arg4 \<noteq> 0 \<and> opt \<noteq> PR_SET_MM_AUXV \<and> opt \<noteq> PR_SET_MM_MAP \<and> opt \<noteq> PR_SET_MM_MAP_SIZE
      then (mm, m, - EINVAL)
      else if CONFIG_CHECKPOINT_RESTORE cfg \<and> (opt = PR_SET_MM_MAP \<or> opt = PR_SET_MM_MAP_SIZE)
      then prctl_set_mm_map ua cfg env opt a arg4 mm m
      else if \<not> capable_resource env then (mm, m, - EPERM)
      else if opt = PR_SET_MM_EXE_FILE
      then (let (mm1, e) = prctl_set_mm_exe_file env (ucast a) mm in (mm1, m, e))
      else if opt = PR_SET_MM_AUXV then prctl_set_auxv ua cfg a arg4 mm m
      else if a \<ge> TASK_SIZE cfg \<or> a < mmap_min_addr cfg then (mm, m, - EINVAL)
      else (case set_boundary opt a (lay mm) of
              None \<Rightarrow> (mm, m, - EINVAL)
            | Some l \<Rightarrow>
                (let err = validate_prctl_map_addr cfg env l
                 in if err \<noteq> 0 then (mm, m, err)
                    else if opt \<in> {PR_SET_MM_START_STACK, PR_SET_MM_ARG_START, PR_SET_MM_ARG_END,
                                   PR_SET_MM_ENV_START, PR_SET_MM_ENV_END} \<and> \<not> find_vma env a
                    then (mm, m, - EFAULT)
                    else (mm\<lparr>lay := l\<rparr>, m, 0))))"

section \<open>Names of mappings\<close>

text \<open>The excluded characters (backslash, backquote, dollar, brackets) by their codes.\<close>

definition is_valid_name_char :: "u8 \<Rightarrow> bool" where
  "is_valid_name_char ch \<longleftrightarrow> sint ch > 0x1f \<and> sint ch < 0x7f \<and> ch \<notin> {0x5c, 0x60, 0x24, 0x5b, 0x5d}"

definition prctl_set_vma :: "mm_config \<Rightarrow> mm_env \<Rightarrow> u64 \<Rightarrow> u64 \<Rightarrow> u64 \<Rightarrow> u64 \<Rightarrow> umem \<Rightarrow> mm_struct \<Rightarrow> mm_struct \<times> int" where
  "prctl_set_vma cfg env opt a len arg m mm =
     (if \<not> CONFIG_ANON_VMA_NAME cfg then (mm, - EINVAL)
      else if opt = PR_SET_VMA_ANON_NAME
      then (if arg \<noteq> NULL
            then (case strndup_user env m arg ANON_VMA_NAME_MAX_LEN of
                    Inl e \<Rightarrow> (mm, e)
                  | Inr name \<Rightarrow>
                      if \<not> list_all is_valid_name_char name then (mm, - EINVAL)
                      else if \<not> anon_vma_name_alloc env name then (mm, - ENOMEM)
                      else madvise_set_anon_name env a len (Some name) mm)
            else madvise_set_anon_name env a len None mm)
      else (mm, - EINVAL))"

section \<open>Memory-deny-write-execute\<close>

definition get_current_mdwe :: "mm_struct \<Rightarrow> u64" where
  "get_current_mdwe mm =
     (if bit (mm_flags mm) MMF_HAS_MDWE then PR_MDWE_REFUSE_EXEC_GAIN else 0)
     OR (if bit (mm_flags mm) MMF_HAS_MDWE_NO_INHERIT then PR_MDWE_NO_INHERIT else 0)"

definition set_mdwe_bits :: "u64 \<Rightarrow> mm_struct \<Rightarrow> mm_struct" where
  "set_mdwe_bits bits mm =
     (let mm1 = (if bits AND PR_MDWE_NO_INHERIT \<noteq> 0
                 then mm\<lparr>mm_flags := set_bit MMF_HAS_MDWE_NO_INHERIT (mm_flags mm)\<rparr> else mm)
      in if bits AND PR_MDWE_REFUSE_EXEC_GAIN \<noteq> 0
         then mm1\<lparr>mm_flags := set_bit MMF_HAS_MDWE (mm_flags mm1)\<rparr> else mm1)"

definition prctl_set_mdwe :: "u64 \<Rightarrow> u64 \<Rightarrow> u64 \<Rightarrow> u64 \<Rightarrow> mm_struct \<Rightarrow> mm_struct \<times> int" where
  "prctl_set_mdwe bits arg3 arg4 arg5 mm =
     (if arg3 \<noteq> 0 \<or> arg4 \<noteq> 0 \<or> arg5 \<noteq> 0 then (mm, - EINVAL)
      else if bits AND NOT (PR_MDWE_REFUSE_EXEC_GAIN OR PR_MDWE_NO_INHERIT) \<noteq> 0 then (mm, - EINVAL)
      else if bits AND PR_MDWE_NO_INHERIT \<noteq> 0 \<and> bits AND PR_MDWE_REFUSE_EXEC_GAIN = 0 then (mm, - EINVAL)
      else if get_current_mdwe mm \<noteq> 0 \<and> get_current_mdwe mm \<noteq> bits then (mm, - EPERM)
      else (set_mdwe_bits bits mm, 0))"

definition prctl_get_mdwe :: "u64 \<Rightarrow> u64 \<Rightarrow> u64 \<Rightarrow> u64 \<Rightarrow> mm_struct \<Rightarrow> int" where
  "prctl_get_mdwe arg2 arg3 arg4 arg5 mm =
     (if arg2 \<noteq> 0 \<or> arg3 \<noteq> 0 \<or> arg4 \<noteq> 0 \<or> arg5 \<noteq> 0 then - EINVAL else int (unat (get_current_mdwe mm)))"

definition prctl_get_auxv :: "uaccess \<Rightarrow> mm_config \<Rightarrow> addr \<Rightarrow> u64 \<Rightarrow> mm_struct \<Rightarrow> umem \<Rightarrow> umem \<times> int" where
  "prctl_get_auxv ua cfg a len mm m =
     (let size = min (auxv_size_bytes cfg) (unat len)
      in if size \<noteq> 0
         then (let (m1, left) = copy_to_user ua m a (take size (saved_auxv mm))
               in (m1, if left \<noteq> 0 then - EFAULT else int (auxv_size_bytes cfg)))
         else (m, int (auxv_size_bytes cfg)))"

section \<open>The invariant of the recorded image\<close>

definition layout_ok :: "mm_config \<Rightarrow> layout \<Rightarrow> bool" where
  "layout_ok cfg l \<longleftrightarrow>
     list_all (\<lambda>v. mmap_min_addr cfg \<le> v \<and> v < TASK_SIZE cfg) (layout_fields l)
     \<and> start_code l < end_code l \<and> start_data l \<le> end_data l \<and> start_brk l \<le> brk l
     \<and> arg_start l \<le> arg_end l \<and> env_start l \<le> env_end l"

text \<open>The vector has its size, and its last entry, of two words, is \<open>AT_NULL\<close>.\<close>

definition auxv_ok :: "mm_config \<Rightarrow> u8 list \<Rightarrow> bool" where
  "auxv_ok cfg v \<longleftrightarrow> length v = auxv_size_bytes cfg
     \<and> (\<forall>i. auxv_size_bytes cfg \<le> i + 16 \<longrightarrow> i < auxv_size_bytes cfg \<longrightarrow> v ! i = 0)"

definition mm_ok :: "mm_config \<Rightarrow> mm_struct \<Rightarrow> bool" where
  "mm_ok cfg mm \<longleftrightarrow> layout_ok cfg (lay mm) \<and> auxv_ok cfg (saved_auxv mm)"

text \<open>
  What the called code promises: \<open>replace_mm_exe_file\<close> changes the file only, and only on
  success; \<open>madvise_set_anon_name\<close> changes names only. Error results are negative.
\<close>

definition mm_env_ok :: "mm_env \<Rightarrow> bool" where
  "mm_env_ok env \<longleftrightarrow>
     (\<forall>f mm. \<exists>x. replace_mm_exe_file env f mm = (mm\<lparr>exe_file := x\<rparr>, 0)
        \<or> (\<exists>e. replace_mm_exe_file env f mm = (mm, e) \<and> e < 0))
     \<and> (\<forall>f. file_permission_exec env f \<le> 0)
     \<and> (\<forall>a l n mm. \<exists>ns e. madvise_set_anon_name env a l n mm = (mm\<lparr>vma_names := ns\<rparr>, e) \<and> e \<le> 0)"

lemma validate_layout_ok: "validate_prctl_map_addr cfg env l = 0 \<longleftrightarrow>
    layout_ok cfg l \<and> check_data_rlimit env (brk l) (start_brk l) (end_data l) (start_data l) = 0"
  by (auto simp: validate_prctl_map_addr_def layout_ok_def list_ex_iff list_all_iff not_less not_le)

lemma validate_nonpos: "validate_prctl_map_addr cfg env l \<le> 0"
  by (simp add: validate_prctl_map_addr_def)

lemma user_auxv_ok:
  assumes "2 \<le> AT_VECTOR_SIZE cfg"
  shows "auxv_ok cfg (user_auxv cfg bs)"
proof -
  define front where "front = take (auxv_size_bytes cfg - 16) (bs @ replicate (auxv_size_bytes cfg) 0)"
  have "16 \<le> auxv_size_bytes cfg" using assms by (simp add: auxv_size_bytes_def)
  moreover have "length front = auxv_size_bytes cfg - 16" by (simp add: front_def)
  ultimately show ?thesis
    unfolding auxv_ok_def user_auxv_def front_def[symmetric] by (auto simp: nth_append)
qed

lemma auxv_ok_mix:
  assumes "auxv_ok cfg u" and "auxv_ok cfg v" and "n \<le> auxv_size_bytes cfg"
  shows "auxv_ok cfg (take n u @ drop n v)"
  using assms by (auto simp: auxv_ok_def nth_append min_def)

text \<open>The outcomes of replacing the file.\<close>

lemma set_mm_exe_file_cases:
  assumes "mm_env_ok env"
  obtains x where "prctl_set_mm_exe_file env fd mm = (mm\<lparr>exe_file := x\<rparr>, 0)"
  | e where "prctl_set_mm_exe_file env fd mm = (mm, e)" "e < 0"
proof (cases "fdget env fd")
  case None
  then show ?thesis by (intro that(2)[of "- EBADF"]) (simp_all add: prctl_set_mm_exe_file_def)
next
  case (Some f)
  have p: "file_permission_exec env f \<le> 0" using assms by (simp add: mm_env_ok_def)
  consider x where "replace_mm_exe_file env f mm = (mm\<lparr>exe_file := x\<rparr>, 0)"
    | e where "replace_mm_exe_file env f mm = (mm, e)" "e < 0"
    using assms unfolding mm_env_ok_def by blast
  then show ?thesis
  proof cases
    case 1
    show ?thesis
      by (cases "\<not> file_isreg env f \<or> path_noexec env f"; cases "file_permission_exec env f = 0")
        (use p in \<open>auto intro: that simp: prctl_set_mm_exe_file_def Some 1\<close>)
  next
    case 2
    show ?thesis
      by (rule that(2)[of "if \<not> file_isreg env f \<or> path_noexec env f then - EACCES
            else if file_permission_exec env f \<noteq> 0 then file_permission_exec env f else e"])
        (use p 2 in \<open>auto simp: prctl_set_mm_exe_file_def Some\<close>)
  qed
qed

lemma set_mm_exe_file_image:
  assumes "mm_env_ok env"
  shows "lay (fst (prctl_set_mm_exe_file env fd mm)) = lay mm"
    "saved_auxv (fst (prctl_set_mm_exe_file env fd mm)) = saved_auxv mm"
    "mm_flags (fst (prctl_set_mm_exe_file env fd mm)) = mm_flags mm"
  by (rule set_mm_exe_file_cases[OF assms, of fd mm]; simp)+

lemma set_mm_map_commit_cases:
  assumes "mm_env_ok env"
  obtains x where "set_mm_map_commit env pm vec mm = (mm\<lparr>exe_file := x, lay := map_layout pm,
      saved_auxv := (case vec of None \<Rightarrow> saved_auxv mm | Some v \<Rightarrow> v)\<rparr>, 0)"
  | e where "set_mm_map_commit env pm vec mm = (mm, e)" "e < 0"
proof (cases "exe_fd pm = - 1")
  case True
  show ?thesis by (rule that(1)[of "exe_file mm"]) (simp add: set_mm_map_commit_def True split: option.split)
next
  case False
  show ?thesis
  proof (cases "checkpoint_restore_capable env")
    case True
    show ?thesis
    proof (rule set_mm_exe_file_cases[OF assms, of "exe_fd pm" mm])
      fix x assume "prctl_set_mm_exe_file env (exe_fd pm) mm = (mm\<lparr>exe_file := x\<rparr>, 0)"
      then show thesis using False True
        by (intro that(1)[of x]) (simp add: set_mm_map_commit_def split: option.split)
    next
      fix e assume "prctl_set_mm_exe_file env (exe_fd pm) mm = (mm, e)" "e < 0"
      then show thesis using False True by (intro that(2)[of e]) (simp_all add: set_mm_map_commit_def)
    qed
  qed (rule that(2)[of "- EPERM"], simp_all add: set_mm_map_commit_def False)
qed

section \<open>What the calls do to the image\<close>

text \<open>
  The outcomes of a call on the image, as a predicate to push through its branches: the
  image is sound afterwards, its flags are untouched, and an error changed nothing.
\<close>

definition sound :: "mm_config \<Rightarrow> mm_struct \<Rightarrow> mm_struct \<times> umem \<times> int \<Rightarrow> bool" where
  "sound cfg mm r \<longleftrightarrow> (mm_ok cfg mm \<longrightarrow> mm_ok cfg (fst r)) \<and> mm_flags (fst r) = mm_flags mm
     \<and> (snd (snd r) < 0 \<longrightarrow> fst r = mm) \<and> snd (snd r) \<le> 0"

lemma sound_intros:
  "e \<le> 0 \<Longrightarrow> sound cfg mm (mm, m, e)"
  "(c \<Longrightarrow> sound cfg mm r) \<Longrightarrow> (\<not> c \<Longrightarrow> sound cfg mm r') \<Longrightarrow> sound cfg mm (if c then r else r')"
  "layout_ok cfg l \<Longrightarrow> sound cfg mm (mm\<lparr>lay := l\<rparr>, m, 0)"
  by (simp_all add: sound_def mm_ok_def)

lemma sound_exe:
  assumes "mm_env_ok env"
  shows "sound cfg mm (let (mm1, e) = prctl_set_mm_exe_file env fd mm in (mm1, m, e))"
  by (rule set_mm_exe_file_cases[OF assms, of fd mm]) (simp_all add: sound_def mm_ok_def)

lemma sound_commit:
  assumes "mm_env_ok env" and "layout_ok cfg (map_layout pm)" and "\<And>v. vec = Some v \<Longrightarrow> auxv_ok cfg v"
  shows "sound cfg mm (let (mm1, e) = set_mm_map_commit env pm vec mm in (mm1, m, e))"
  by (rule set_mm_map_commit_cases[OF assms(1), of pm vec mm])
    (use assms(2,3) in \<open>simp_all add: sound_def mm_ok_def split: option.split\<close>)

lemma sound_map:
  assumes "uaccess_ok ua" and "mm_env_ok env" and "2 \<le> AT_VECTOR_SIZE cfg"
  shows "sound cfg mm (prctl_set_mm_map ua cfg env opt a data_size mm m)"
proof -
  obtain m1 e1 where p: "put_user ua m a (le_bytes (104 :: u32)) = (m1, e1)" by (rule prod.exhaust)
  obtain bs l1 where c: "copy_from_user ua m a 104 = (bs, l1)" by (rule prod.exhaust)
  define pm where "pm = read_prctl_mm_map bs"
  obtain vs l2 where v: "copy_from_user ua m (auxv pm) (unat (auxv_size pm)) = (vs, l2)" by (rule prod.exhaust)
  have e1: "e1 \<le> 0" by (rule put_user_cases[OF assms(1) p]) simp_all
  have lay: "layout_ok cfg (map_layout pm)" if "\<not> validate_prctl_map_addr cfg env (map_layout pm) \<noteq> 0"
    using that by (simp add: validate_layout_ok)
  have vec: "auxv_ok cfg w" if "Some (user_auxv cfg vs) = Some w" for w
    using that user_auxv_ok[OF assms(3)] by auto
  have eq: "prctl_set_mm_map ua cfg env opt a data_size mm m =
     (if opt = PR_SET_MM_MAP_SIZE then (mm, m1, e1)
      else if data_size \<noteq> 104 then (mm, m, - EINVAL)
      else if l1 \<noteq> 0 then (mm, m, - EFAULT)
      else if validate_prctl_map_addr cfg env (map_layout pm) \<noteq> 0
      then (mm, m, validate_prctl_map_addr cfg env (map_layout pm))
      else if auxv_size pm \<noteq> 0
      then (if auxv pm = NULL \<or> unat (auxv_size pm) > auxv_size_bytes cfg then (mm, m, - EINVAL)
            else if l2 \<noteq> 0 then (mm, m, - EFAULT)
            else (let (mm1, e) = set_mm_map_commit env pm (Some (user_auxv cfg vs)) mm in (mm1, m, e)))
      else (let (mm1, e) = set_mm_map_commit env pm None mm in (mm1, m, e)))"
    unfolding prctl_set_mm_map_def p c pm_def[symmetric]
    by (simp only: prod.case Let_def pm_def[symmetric] v)
  show ?thesis
    unfolding eq
    by (intro sound_intros(2)) (rule sound_intros(1) sound_commit[OF assms(2)]; use e1 validate_nonpos lay vec in simp)+
qed

lemma sound_auxv:
  assumes "2 \<le> AT_VECTOR_SIZE cfg"
  shows "sound cfg mm (prctl_set_auxv ua cfg a len mm m)"
proof -
  obtain bs left where c: "copy_from_user ua m a (unat len) = (bs, left)" by (rule prod.exhaust)
  have "mm_ok cfg (mm\<lparr>saved_auxv := take (unat len) (user_auxv cfg bs) @ drop (unat len) (saved_auxv mm)\<rparr>)"
    if "\<not> unat len > auxv_size_bytes cfg" "mm_ok cfg mm"
    using that auxv_ok_mix[OF user_auxv_ok[OF assms]] by (simp add: mm_ok_def)
  then show ?thesis by (simp add: prctl_set_auxv_def c sound_def)
qed

lemma sound_set_mm:
  assumes "uaccess_ok ua" and "mm_env_ok env" and "2 \<le> AT_VECTOR_SIZE cfg"
  shows "sound cfg mm (prctl_set_mm ua cfg env opt a arg4 arg5 mm m)"
proof (cases "set_boundary opt a (lay mm)")
  case None
  show ?thesis
    unfolding prctl_set_mm_def None option.case
    by (intro sound_intros(2)) (rule sound_intros(1) sound_map[OF assms] sound_exe[OF assms(2)] sound_auxv[OF assms(3)]; simp)+
next
  case (Some l)
  have "layout_ok cfg l" if "\<not> validate_prctl_map_addr cfg env l \<noteq> 0"
    using that by (simp add: validate_layout_ok)
  then show ?thesis
    unfolding prctl_set_mm_def Some option.case Let_def
    by (intro sound_intros(2))
      (rule sound_intros(1,3) sound_map[OF assms] sound_exe[OF assms(2), unfolded Let_def] sound_auxv[OF assms(3)] validate_nonpos; simp)+
qed

section \<open>MDWE\<close>

lemma mdwe_bits:
  assumes "bits AND NOT (PR_MDWE_REFUSE_EXEC_GAIN OR PR_MDWE_NO_INHERIT) = 0"
    and "\<not> (bits AND PR_MDWE_NO_INHERIT \<noteq> 0 \<and> bits AND PR_MDWE_REFUSE_EXEC_GAIN = 0)"
  shows "bits \<in> {0, 1, 3}"
proof -
  have "bits = bits AND 3 OR bits AND NOT 3" by (rule bit_eqI) (auto simp: bit_simps)
  then have "bits = bits AND mask 2" using assms(1) by (simp add: mask_eq_exp_minus_1)
  then have "bits = take_bit 2 bits" by (simp add: take_bit_eq_mask)
  then have "unat bits = unat (take_bit 2 bits)" by (rule arg_cong)
  also have "\<dots> = unat bits mod 4" by (simp add: take_bit_eq_mod unat_mod)
  finally have "unat bits < 4" using mod_less_divisor[of 4 "unat bits"] by linarith
  then have "unat bits \<in> {0, 1, 2, 3}" by auto
  then have "bits \<in> {0, 1, 2, 3}" by (auto simp: word_unat_eq_iff)
  moreover have "bits \<noteq> 2" using assms(2) by auto
  ultimately show ?thesis by auto
qed

lemma get_mdwe_eq:
  "get_current_mdwe mm = (if bit (mm_flags mm) MMF_HAS_MDWE
     then (if bit (mm_flags mm) MMF_HAS_MDWE_NO_INHERIT then 3 else 1)
     else (if bit (mm_flags mm) MMF_HAS_MDWE_NO_INHERIT then 2 else 0))"
  by (simp add: get_current_mdwe_def)

lemma set_bit_same: "bit (w :: u64) n \<Longrightarrow> set_bit n w = w"
  by (rule bit_eqI) (auto simp: bit_simps)

lemma set_mdwe_outcome:
  "prctl_set_mdwe bits arg3 arg4 arg5 mm = (mm', e) \<Longrightarrow>
     (e < 0 \<and> mm' = mm) \<or>
     (e = 0 \<and> mm' = mm\<lparr>mm_flags := mm_flags mm'\<rparr> \<and> get_current_mdwe mm' = bits \<and> (get_current_mdwe mm \<noteq> 0 \<longrightarrow> mm' = mm))"
proof (cases "arg3 \<noteq> 0 \<or> arg4 \<noteq> 0 \<or> arg5 \<noteq> 0
    \<or> bits AND NOT (PR_MDWE_REFUSE_EXEC_GAIN OR PR_MDWE_NO_INHERIT) \<noteq> 0
    \<or> (bits AND PR_MDWE_NO_INHERIT \<noteq> 0 \<and> bits AND PR_MDWE_REFUSE_EXEC_GAIN = 0)
    \<or> (get_current_mdwe mm \<noteq> 0 \<and> get_current_mdwe mm \<noteq> bits)")
  case True
  then have "fst (prctl_set_mdwe bits arg3 arg4 arg5 mm) = mm \<and> snd (prctl_set_mdwe bits arg3 arg4 arg5 mm) < 0"
    unfolding prctl_set_mdwe_def by auto
  moreover assume "prctl_set_mdwe bits arg3 arg4 arg5 mm = (mm', e)"
  ultimately show ?thesis by simp
next
  case False
  then have b: "bits \<in> {0, 1, 3}" by (intro mdwe_bits) blast+
  have r: "prctl_set_mdwe bits arg3 arg4 arg5 mm = (set_mdwe_bits bits mm, 0)"
    using False unfolding prctl_set_mdwe_def by (simp only: simp_thms if_False de_Morgan_disj)
  moreover have "set_mdwe_bits bits mm = mm" if "get_current_mdwe mm \<noteq> 0"
  proof -
    have "get_current_mdwe mm = bits" using that False by blast
    then show ?thesis
      using b that by (auto simp: set_mdwe_bits_def get_mdwe_eq set_bit_same split: if_splits)
  qed
  moreover have "get_current_mdwe (set_mdwe_bits bits mm) = bits"
  proof (cases "get_current_mdwe mm = 0")
    case True
    then have "\<not> bit (mm_flags mm) MMF_HAS_MDWE" "\<not> bit (mm_flags mm) MMF_HAS_MDWE_NO_INHERIT"
      by (auto simp: get_mdwe_eq split: if_splits)
    then show ?thesis using b by (auto simp: set_mdwe_bits_def get_mdwe_eq bit_simps)
  next
    case nz: False
    then show ?thesis using calculation(2) False by simp
  qed
  moreover have "set_mdwe_bits bits mm = mm\<lparr>mm_flags := mm_flags (set_mdwe_bits bits mm)\<rparr>"
    by (simp add: set_mdwe_bits_def)
  moreover assume "prctl_set_mdwe bits arg3 arg4 arg5 mm = (mm', e)"
  ultimately show ?thesis by simp
qed

end
