(* ===== verification/Prctl.thy ===== *)
theory Prctl
  imports Prctl_Mm
begin

text \<open>
  The call \<open>prctl\<close> (kernel/sys.c) with every option of its switch, and
  \<open>walk_process_tree\<close> (kernel/fork.c), by which the subreaper flag reaches the descendants.

  Outside code, the record \<open>prctl_env\<close>: the security hook, the primitives on strings and
  names, the macros that an architecture may define, and the subsystems that \<open>prctl\<close> passes
  its arguments on to. These keep state of their own, which is not part of \<open>ptask\<close>.
\<close>

section \<open>State\<close>

text \<open>
  A process below the caller's, with the processes below it; \<open>reaper\<close> is \<open>is_child_reaper\<close>,
  the first process of a number namespace.
\<close>

record pnode =
  has_child_subreaper :: bool
  reaper :: bool

datatype ptree = PNode (info: pnode) (subs: "ptree list")

record ptask =
  pdeath_signal :: u32
  comm :: "u8 list"
  timer_slack_ns :: u64
  default_timer_slack_ns :: u64
  pflags :: u32
  no_new_privs :: bool
  clear_child_tid :: u64
  is_child_subreaper :: bool
  children :: "ptree list"
  pmm :: mm_struct

text \<open>The macros that an architecture may define.\<close>

datatype arch_op =
  SET_UNALIGN_CTL | GET_UNALIGN_CTL | SET_FPEMU_CTL | GET_FPEMU_CTL | SET_FPEXC_CTL | GET_FPEXC_CTL
  | GET_ENDIAN | SET_ENDIAN | GET_TSC_CTL | SET_TSC_CTL | GET_FP_MODE | SET_FP_MODE | SVE_SET_VL | SVE_GET_VL
  | SME_SET_VL | SME_GET_VL | PAC_RESET_KEYS | PAC_SET_ENABLED_KEYS | PAC_GET_ENABLED_KEYS
  | SET_TAGGED_ADDR_CTRL | GET_TAGGED_ADDR_CTRL | RISCV_V_SET_CONTROL | RISCV_V_GET_CONTROL
  | SPEC_CTRL_GET | SPEC_CTRL_SET

text \<open>The subsystems that are called with the arguments.\<close>

datatype ext_op =
  Get_seccomp | Set_seccomp | Perf_disable | Perf_enable | User_dispatch | Sched_core_share

record prctl_env =
  env_mm :: mm_env
  security_task_prctl :: "u32 \<Rightarrow> u64 \<Rightarrow> u64 \<Rightarrow> u64 \<Rightarrow> u64 \<Rightarrow> int"
  valid_signal :: "u64 \<Rightarrow> bool"
  strncpy_from_user :: "umem \<Rightarrow> addr \<Rightarrow> nat \<Rightarrow> u8 list option"
  set_task_comm :: "u8 list \<Rightarrow> u8 list"
  arch_macro :: "arch_op \<Rightarrow> (u64 \<Rightarrow> u64 \<Rightarrow> umem \<Rightarrow> umem \<times> int) option"
  ext_call :: "ext_op \<Rightarrow> u64 \<Rightarrow> u64 \<Rightarrow> u64 \<Rightarrow> u64 \<Rightarrow> umem \<Rightarrow> umem \<times> int"
  mmap_lock_interrupted :: bool
  ksm_enable_merge_any :: "mm_struct \<Rightarrow> mm_struct \<times> int"
  ksm_disable_merge_any :: "mm_struct \<Rightarrow> mm_struct \<times> int"
  CONFIG_SCHED_CORE :: bool
  CONFIG_KSM :: bool

type_synonym presult = "ptask \<times> umem \<times> int"

abbreviation (input) PF_MCE_PROCESS :: u32 where "PF_MCE_PROCESS \<equiv> 0x80"
abbreviation (input) PF_MCE_EARLY :: u32 where "PF_MCE_EARLY \<equiv> 0x8000000"
abbreviation (input) PR_IO_FLUSHER :: u32 where "PR_IO_FLUSHER \<equiv> 0x180000"

text \<open>The options, with the numbers of the user interface.\<close>

abbreviation (input) PR_SET_PDEATHSIG :: u32 where "PR_SET_PDEATHSIG \<equiv> 1"
abbreviation (input) PR_GET_PDEATHSIG :: u32 where "PR_GET_PDEATHSIG \<equiv> 2"
abbreviation (input) PR_GET_DUMPABLE :: u32 where "PR_GET_DUMPABLE \<equiv> 3"
abbreviation (input) PR_SET_DUMPABLE :: u32 where "PR_SET_DUMPABLE \<equiv> 4"
abbreviation (input) PR_GET_UNALIGN :: u32 where "PR_GET_UNALIGN \<equiv> 5"
abbreviation (input) PR_SET_UNALIGN :: u32 where "PR_SET_UNALIGN \<equiv> 6"
abbreviation (input) PR_GET_FPEMU :: u32 where "PR_GET_FPEMU \<equiv> 9"
abbreviation (input) PR_SET_FPEMU :: u32 where "PR_SET_FPEMU \<equiv> 10"
abbreviation (input) PR_GET_FPEXC :: u32 where "PR_GET_FPEXC \<equiv> 11"
abbreviation (input) PR_SET_FPEXC :: u32 where "PR_SET_FPEXC \<equiv> 12"
abbreviation (input) PR_GET_TIMING :: u32 where "PR_GET_TIMING \<equiv> 13"
abbreviation (input) PR_SET_TIMING :: u32 where "PR_SET_TIMING \<equiv> 14"
abbreviation (input) PR_SET_NAME :: u32 where "PR_SET_NAME \<equiv> 15"
abbreviation (input) PR_GET_NAME :: u32 where "PR_GET_NAME \<equiv> 16"
abbreviation (input) PR_GET_ENDIAN :: u32 where "PR_GET_ENDIAN \<equiv> 19"
abbreviation (input) PR_SET_ENDIAN :: u32 where "PR_SET_ENDIAN \<equiv> 20"
abbreviation (input) PR_GET_SECCOMP :: u32 where "PR_GET_SECCOMP \<equiv> 21"
abbreviation (input) PR_SET_SECCOMP :: u32 where "PR_SET_SECCOMP \<equiv> 22"
abbreviation (input) PR_GET_TSC :: u32 where "PR_GET_TSC \<equiv> 25"
abbreviation (input) PR_SET_TSC :: u32 where "PR_SET_TSC \<equiv> 26"
abbreviation (input) PR_SET_TIMERSLACK :: u32 where "PR_SET_TIMERSLACK \<equiv> 29"
abbreviation (input) PR_GET_TIMERSLACK :: u32 where "PR_GET_TIMERSLACK \<equiv> 30"
abbreviation (input) PR_TASK_PERF_EVENTS_DISABLE :: u32 where "PR_TASK_PERF_EVENTS_DISABLE \<equiv> 31"
abbreviation (input) PR_TASK_PERF_EVENTS_ENABLE :: u32 where "PR_TASK_PERF_EVENTS_ENABLE \<equiv> 32"
abbreviation (input) PR_MCE_KILL :: u32 where "PR_MCE_KILL \<equiv> 33"
abbreviation (input) PR_MCE_KILL_GET :: u32 where "PR_MCE_KILL_GET \<equiv> 34"
abbreviation (input) PR_SET_MM :: u32 where "PR_SET_MM \<equiv> 35"
abbreviation (input) PR_SET_CHILD_SUBREAPER :: u32 where "PR_SET_CHILD_SUBREAPER \<equiv> 36"
abbreviation (input) PR_GET_CHILD_SUBREAPER :: u32 where "PR_GET_CHILD_SUBREAPER \<equiv> 37"
abbreviation (input) PR_SET_NO_NEW_PRIVS :: u32 where "PR_SET_NO_NEW_PRIVS \<equiv> 38"
abbreviation (input) PR_GET_NO_NEW_PRIVS :: u32 where "PR_GET_NO_NEW_PRIVS \<equiv> 39"
abbreviation (input) PR_GET_TID_ADDRESS :: u32 where "PR_GET_TID_ADDRESS \<equiv> 40"
abbreviation (input) PR_SET_THP_DISABLE :: u32 where "PR_SET_THP_DISABLE \<equiv> 41"
abbreviation (input) PR_GET_THP_DISABLE :: u32 where "PR_GET_THP_DISABLE \<equiv> 42"
abbreviation (input) PR_MPX_ENABLE_MANAGEMENT :: u32 where "PR_MPX_ENABLE_MANAGEMENT \<equiv> 43"
abbreviation (input) PR_MPX_DISABLE_MANAGEMENT :: u32 where "PR_MPX_DISABLE_MANAGEMENT \<equiv> 44"
abbreviation (input) PR_SET_FP_MODE :: u32 where "PR_SET_FP_MODE \<equiv> 45"
abbreviation (input) PR_GET_FP_MODE :: u32 where "PR_GET_FP_MODE \<equiv> 46"
abbreviation (input) PR_SVE_SET_VL :: u32 where "PR_SVE_SET_VL \<equiv> 50"
abbreviation (input) PR_SVE_GET_VL :: u32 where "PR_SVE_GET_VL \<equiv> 51"
abbreviation (input) PR_GET_SPECULATION_CTRL :: u32 where "PR_GET_SPECULATION_CTRL \<equiv> 52"
abbreviation (input) PR_SET_SPECULATION_CTRL :: u32 where "PR_SET_SPECULATION_CTRL \<equiv> 53"
abbreviation (input) PR_PAC_RESET_KEYS :: u32 where "PR_PAC_RESET_KEYS \<equiv> 54"
abbreviation (input) PR_SET_TAGGED_ADDR_CTRL :: u32 where "PR_SET_TAGGED_ADDR_CTRL \<equiv> 55"
abbreviation (input) PR_GET_TAGGED_ADDR_CTRL :: u32 where "PR_GET_TAGGED_ADDR_CTRL \<equiv> 56"
abbreviation (input) PR_SET_IO_FLUSHER :: u32 where "PR_SET_IO_FLUSHER \<equiv> 57"
abbreviation (input) PR_GET_IO_FLUSHER :: u32 where "PR_GET_IO_FLUSHER \<equiv> 58"
abbreviation (input) PR_SET_SYSCALL_USER_DISPATCH :: u32 where "PR_SET_SYSCALL_USER_DISPATCH \<equiv> 59"
abbreviation (input) PR_PAC_SET_ENABLED_KEYS :: u32 where "PR_PAC_SET_ENABLED_KEYS \<equiv> 60"
abbreviation (input) PR_PAC_GET_ENABLED_KEYS :: u32 where "PR_PAC_GET_ENABLED_KEYS \<equiv> 61"
abbreviation (input) PR_SCHED_CORE :: u32 where "PR_SCHED_CORE \<equiv> 62"
abbreviation (input) PR_SME_SET_VL :: u32 where "PR_SME_SET_VL \<equiv> 63"
abbreviation (input) PR_SME_GET_VL :: u32 where "PR_SME_GET_VL \<equiv> 64"
abbreviation (input) PR_SET_MDWE :: u32 where "PR_SET_MDWE \<equiv> 65"
abbreviation (input) PR_GET_MDWE :: u32 where "PR_GET_MDWE \<equiv> 66"
abbreviation (input) PR_SET_MEMORY_MERGE :: u32 where "PR_SET_MEMORY_MERGE \<equiv> 67"
abbreviation (input) PR_GET_MEMORY_MERGE :: u32 where "PR_GET_MEMORY_MERGE \<equiv> 68"
abbreviation (input) PR_RISCV_V_SET_CONTROL :: u32 where "PR_RISCV_V_SET_CONTROL \<equiv> 69"
abbreviation (input) PR_RISCV_V_GET_CONTROL :: u32 where "PR_RISCV_V_GET_CONTROL \<equiv> 70"
abbreviation (input) PR_SET_VMA :: u32 where "PR_SET_VMA \<equiv> 0x53564d41"
abbreviation (input) PR_GET_AUXV :: u32 where "PR_GET_AUXV \<equiv> 0x41555856"
abbreviation (input) SUID_DUMP_DISABLE :: u64 where "SUID_DUMP_DISABLE \<equiv> 0"
abbreviation (input) SUID_DUMP_USER :: u64 where "SUID_DUMP_USER \<equiv> 1"
abbreviation (input) PR_TIMING_STATISTICAL :: u64 where "PR_TIMING_STATISTICAL \<equiv> 0"
abbreviation (input) PR_MCE_KILL_CLEAR :: u64 where "PR_MCE_KILL_CLEAR \<equiv> 0"
abbreviation (input) PR_MCE_KILL_SET :: u64 where "PR_MCE_KILL_SET \<equiv> 1"
abbreviation (input) PR_MCE_KILL_LATE :: u64 where "PR_MCE_KILL_LATE \<equiv> 0"
abbreviation (input) PR_MCE_KILL_EARLY :: u64 where "PR_MCE_KILL_EARLY \<equiv> 1"
abbreviation (input) PR_MCE_KILL_DEFAULT :: u64 where "PR_MCE_KILL_DEFAULT \<equiv> 2"

section \<open>Walking the process tree\<close>

text \<open>
  The walk visits the descendants in preorder. A visitor result above 0 descends, 0 skips the
  subtree, below 0 ends the walk: the second component.
\<close>

fun walk_process_tree :: "(pnode \<Rightarrow> pnode \<times> int) \<Rightarrow> ptree list \<Rightarrow> ptree list \<times> bool" where
  "walk_process_tree visitor [] = ([], False)"
| "walk_process_tree visitor (PNode p cs # ts) =
     (let (p', res) = visitor p
      in if res < 0 then (PNode p' cs # ts, True)
         else (let (cs', stop) = (if res > 0 then walk_process_tree visitor cs else (cs, False))
               in if stop then (PNode p' cs' # ts, True)
                  else (let (ts', stop) = walk_process_tree visitor ts in (PNode p' cs' # ts', stop))))"

definition propagate_has_child_subreaper :: "pnode \<Rightarrow> pnode \<times> int" where
  "propagate_has_child_subreaper p =
     (if has_child_subreaper p \<or> reaper p then (p, 0) else (p\<lparr>has_child_subreaper := True\<rparr>, 1))"

section \<open>Small handlers\<close>

text \<open>A macro that the architecture leaves undefined answers \<open>-EINVAL\<close>.\<close>

definition arch_ctl :: "prctl_env \<Rightarrow> arch_op \<Rightarrow> u64 \<Rightarrow> u64 \<Rightarrow> umem \<Rightarrow> umem \<times> int" where
  "arch_ctl env x a b m = (case arch_macro env x of None \<Rightarrow> (m, - EINVAL) | Some f \<Rightarrow> f a b m)"

definition arch_prctl_spec_ctrl_get :: "prctl_env \<Rightarrow> u64 \<Rightarrow> umem \<Rightarrow> umem \<times> int" where
  "arch_prctl_spec_ctrl_get env which m =
     (case arch_macro env SPEC_CTRL_GET of None \<Rightarrow> (m, - EINVAL) | Some f \<Rightarrow> f which 0 m)"

definition arch_prctl_spec_ctrl_set :: "prctl_env \<Rightarrow> u64 \<Rightarrow> u64 \<Rightarrow> umem \<Rightarrow> umem \<times> int" where
  "arch_prctl_spec_ctrl_set env which ctrl m =
     (case arch_macro env SPEC_CTRL_SET of None \<Rightarrow> (m, - EINVAL) | Some f \<Rightarrow> f which ctrl m)"

definition prctl_get_tid_address :: "uaccess \<Rightarrow> mm_config \<Rightarrow> addr \<Rightarrow> ptask \<Rightarrow> umem \<Rightarrow> umem \<times> int" where
  "prctl_get_tid_address ua cfg a t m =
     (if CONFIG_CHECKPOINT_RESTORE cfg then put_user ua m a (le_bytes (clear_child_tid t)) else (m, - EINVAL))"

definition prctl_mce_kill :: "u64 \<Rightarrow> u64 \<Rightarrow> u64 \<Rightarrow> u64 \<Rightarrow> ptask \<Rightarrow> ptask \<times> int" where
  "prctl_mce_kill arg2 arg3 arg4 arg5 t =
     (if arg4 OR arg5 \<noteq> 0 then (t, - EINVAL)
      else if arg2 = PR_MCE_KILL_CLEAR
      then (if arg3 \<noteq> 0 then (t, - EINVAL) else (t\<lparr>pflags := pflags t AND NOT PF_MCE_PROCESS\<rparr>, 0))
      else if arg2 = PR_MCE_KILL_SET
      then (let t1 = t\<lparr>pflags := pflags t OR PF_MCE_PROCESS\<rparr>
            in if arg3 = PR_MCE_KILL_EARLY then (t1\<lparr>pflags := pflags t1 OR PF_MCE_EARLY\<rparr>, 0)
               else if arg3 = PR_MCE_KILL_LATE then (t1\<lparr>pflags := pflags t1 AND NOT PF_MCE_EARLY\<rparr>, 0)
               else if arg3 = PR_MCE_KILL_DEFAULT then (t1\<lparr>pflags := pflags t1 AND NOT (PF_MCE_EARLY OR PF_MCE_PROCESS)\<rparr>, 0)
               else (t1, - EINVAL))
      else (t, - EINVAL))"

definition prctl_mce_kill_get :: "u64 \<Rightarrow> u64 \<Rightarrow> u64 \<Rightarrow> u64 \<Rightarrow> ptask \<Rightarrow> int" where
  "prctl_mce_kill_get arg2 arg3 arg4 arg5 t =
     (if arg2 OR arg3 OR arg4 OR arg5 \<noteq> 0 then - EINVAL
      else if pflags t AND PF_MCE_PROCESS \<noteq> 0
      then int (unat (if pflags t AND PF_MCE_EARLY \<noteq> 0 then PR_MCE_KILL_EARLY else PR_MCE_KILL_LATE))
      else int (unat PR_MCE_KILL_DEFAULT))"

definition prctl_set_child_subreaper :: "u64 \<Rightarrow> ptask \<Rightarrow> ptask" where
  "prctl_set_child_subreaper arg2 t =
     (let t1 = t\<lparr>is_child_subreaper := (arg2 \<noteq> 0)\<rparr>
      in if arg2 = 0 then t1
         else t1\<lparr>children := fst (walk_process_tree propagate_has_child_subreaper (children t1))\<rparr>)"

definition prctl_set_io_flusher :: "mm_env \<Rightarrow> u64 \<Rightarrow> u64 \<Rightarrow> u64 \<Rightarrow> u64 \<Rightarrow> ptask \<Rightarrow> ptask \<times> int" where
  "prctl_set_io_flusher env arg2 arg3 arg4 arg5 t =
     (if \<not> capable_resource env then (t, - EPERM)
      else if arg3 \<noteq> 0 \<or> arg4 \<noteq> 0 \<or> arg5 \<noteq> 0 then (t, - EINVAL)
      else if arg2 = 1 then (t\<lparr>pflags := pflags t OR PR_IO_FLUSHER\<rparr>, 0)
      else if arg2 = 0 then (t\<lparr>pflags := pflags t AND NOT PR_IO_FLUSHER\<rparr>, 0)
      else (t, - EINVAL))"

definition prctl_get_io_flusher :: "mm_env \<Rightarrow> u64 \<Rightarrow> u64 \<Rightarrow> u64 \<Rightarrow> u64 \<Rightarrow> ptask \<Rightarrow> int" where
  "prctl_get_io_flusher env arg2 arg3 arg4 arg5 t =
     (if \<not> capable_resource env then - EPERM
      else if arg2 \<noteq> 0 \<or> arg3 \<noteq> 0 \<or> arg4 \<noteq> 0 \<or> arg5 \<noteq> 0 then - EINVAL
      else if pflags t AND PR_IO_FLUSHER = PR_IO_FLUSHER then 1 else 0)"

definition prctl_set_thp_disable :: "prctl_env \<Rightarrow> u64 \<Rightarrow> u64 \<Rightarrow> u64 \<Rightarrow> u64 \<Rightarrow> ptask \<Rightarrow> ptask \<times> int" where
  "prctl_set_thp_disable env arg2 arg3 arg4 arg5 t =
     (if arg3 \<noteq> 0 \<or> arg4 \<noteq> 0 \<or> arg5 \<noteq> 0 then (t, - EINVAL)
      else if mmap_lock_interrupted env then (t, - EINTR)
      else (t\<lparr>pmm := (pmm t)\<lparr>mm_flags := (if arg2 \<noteq> 0 then set_bit MMF_DISABLE_THP (mm_flags (pmm t))
                                        else unset_bit MMF_DISABLE_THP (mm_flags (pmm t)))\<rparr>\<rparr>, 0))"

definition prctl_set_memory_merge :: "prctl_env \<Rightarrow> u64 \<Rightarrow> u64 \<Rightarrow> u64 \<Rightarrow> u64 \<Rightarrow> ptask \<Rightarrow> ptask \<times> int" where
  "prctl_set_memory_merge env arg2 arg3 arg4 arg5 t =
     (if arg3 \<noteq> 0 \<or> arg4 \<noteq> 0 \<or> arg5 \<noteq> 0 then (t, - EINVAL)
      else if mmap_lock_interrupted env then (t, - EINTR)
      else (let (mm, e) = (if arg2 \<noteq> 0 then ksm_enable_merge_any env (pmm t) else ksm_disable_merge_any env (pmm t))
            in (t\<lparr>pmm := mm\<rparr>, e)))"

section \<open>The switch\<close>

text \<open>
  The switch, in four parts; \<open>None\<close> means that the option is not one of the part. \<open>on_mem\<close> and
  \<open>on_task\<close> complete the result of a call that changes only memory or only the task.
\<close>

definition on_mem :: "ptask \<Rightarrow> umem \<times> int \<Rightarrow> presult option" where
  "on_mem t r = Some (t, fst r, snd r)"

definition on_task :: "umem \<Rightarrow> ptask \<times> int \<Rightarrow> presult option" where
  "on_task m r = Some (fst r, m, snd r)"

definition prctl_part1 :: "uaccess \<Rightarrow> prctl_env \<Rightarrow> u32 \<Rightarrow> u64 \<Rightarrow> u64 \<Rightarrow> ptask \<Rightarrow> umem \<Rightarrow> presult option" where
  "prctl_part1 ua env opt arg2 arg3 t m =
     (if opt = PR_SET_PDEATHSIG then
        (if \<not> valid_signal env arg2 then on_task m (t, - EINVAL) else on_task m (t\<lparr>pdeath_signal := ucast arg2\<rparr>, 0))
      else if opt = PR_GET_PDEATHSIG then on_mem t (put_user ua m arg2 (le_bytes (pdeath_signal t)))
      else if opt = PR_GET_DUMPABLE then on_task m (t, int (unat (dumpable (pmm t))))
      else if opt = PR_SET_DUMPABLE then
        (if arg2 \<noteq> SUID_DUMP_DISABLE \<and> arg2 \<noteq> SUID_DUMP_USER then on_task m (t, - EINVAL)
         else on_task m (t\<lparr>pmm := (pmm t)\<lparr>dumpable := arg2\<rparr>\<rparr>, 0))
      else if opt = PR_SET_UNALIGN then on_mem t (arch_ctl env SET_UNALIGN_CTL arg2 0 m)
      else if opt = PR_GET_UNALIGN then on_mem t (arch_ctl env GET_UNALIGN_CTL arg2 0 m)
      else if opt = PR_SET_FPEMU then on_mem t (arch_ctl env SET_FPEMU_CTL arg2 0 m)
      else if opt = PR_GET_FPEMU then on_mem t (arch_ctl env GET_FPEMU_CTL arg2 0 m)
      else if opt = PR_SET_FPEXC then on_mem t (arch_ctl env SET_FPEXC_CTL arg2 0 m)
      else if opt = PR_GET_FPEXC then on_mem t (arch_ctl env GET_FPEXC_CTL arg2 0 m)
      else if opt = PR_GET_TIMING then on_task m (t, int (unat PR_TIMING_STATISTICAL))
      else if opt = PR_SET_TIMING then on_task m (t, if arg2 \<noteq> PR_TIMING_STATISTICAL then - EINVAL else 0)
      else if opt = PR_SET_NAME then
        (case strncpy_from_user env m arg2 15 of
           None \<Rightarrow> on_task m (t, - EFAULT)
         | Some s \<Rightarrow> on_task m (t\<lparr>comm := set_task_comm env s\<rparr>, 0))
      else if opt = PR_GET_NAME then
        (let r = copy_to_user ua m arg2 (comm t) in on_mem t (fst r, if snd r \<noteq> 0 then - EFAULT else 0))
      else if opt = PR_GET_ENDIAN then on_mem t (arch_ctl env GET_ENDIAN arg2 0 m)
      else if opt = PR_SET_ENDIAN then on_mem t (arch_ctl env SET_ENDIAN arg2 0 m)
      else if opt = PR_GET_SECCOMP then on_mem t (ext_call env Get_seccomp 0 0 0 0 m)
      else if opt = PR_SET_SECCOMP then on_mem t (ext_call env Set_seccomp arg2 arg3 0 0 m)
      else if opt = PR_GET_TSC then on_mem t (arch_ctl env GET_TSC_CTL arg2 0 m)
      else if opt = PR_SET_TSC then on_mem t (arch_ctl env SET_TSC_CTL arg2 0 m)
      else if opt = PR_TASK_PERF_EVENTS_DISABLE then on_mem t (ext_call env Perf_disable 0 0 0 0 m)
      else if opt = PR_TASK_PERF_EVENTS_ENABLE then on_mem t (ext_call env Perf_enable 0 0 0 0 m)
      else if opt = PR_GET_TIMERSLACK then on_task m (t, sint (timer_slack_ns t))
      else if opt = PR_SET_TIMERSLACK then
        on_task m (t\<lparr>timer_slack_ns := (if arg2 = 0 then default_timer_slack_ns t else arg2)\<rparr>, 0)
      else None)"

definition prctl_part2 :: "uaccess \<Rightarrow> mm_config \<Rightarrow> prctl_env \<Rightarrow> u32 \<Rightarrow> u64 \<Rightarrow> u64 \<Rightarrow> u64 \<Rightarrow> u64 \<Rightarrow> ptask \<Rightarrow> umem
    \<Rightarrow> presult option" where
  "prctl_part2 ua cfg env opt arg2 arg3 arg4 arg5 t m =
     (if opt = PR_MCE_KILL then on_task m (prctl_mce_kill arg2 arg3 arg4 arg5 t)
      else if opt = PR_MCE_KILL_GET then on_task m (t, prctl_mce_kill_get arg2 arg3 arg4 arg5 t)
      else if opt = PR_SET_MM then
        (let (mm, m1, e) = prctl_set_mm ua cfg (env_mm env) (ucast arg2) arg3 arg4 arg5 (pmm t) m
         in Some (t\<lparr>pmm := mm\<rparr>, m1, e))
      else if opt = PR_GET_TID_ADDRESS then on_mem t (prctl_get_tid_address ua cfg arg2 t m)
      else if opt = PR_SET_CHILD_SUBREAPER then on_task m (prctl_set_child_subreaper arg2 t, 0)
      else if opt = PR_GET_CHILD_SUBREAPER then on_mem t (put_user ua m arg2 (le_bytes (if is_child_subreaper t then 1 else 0 :: u32)))
      else if opt = PR_SET_NO_NEW_PRIVS then
        (if arg2 \<noteq> 1 \<or> arg3 \<noteq> 0 \<or> arg4 \<noteq> 0 \<or> arg5 \<noteq> 0 then on_task m (t, - EINVAL)
         else on_task m (t\<lparr>no_new_privs := True\<rparr>, 0))
      else if opt = PR_GET_NO_NEW_PRIVS then
        on_task m (t, if arg2 \<noteq> 0 \<or> arg3 \<noteq> 0 \<or> arg4 \<noteq> 0 \<or> arg5 \<noteq> 0 then - EINVAL
                      else if no_new_privs t then 1 else 0)
      else if opt = PR_GET_THP_DISABLE then
        on_task m (t, if arg2 \<noteq> 0 \<or> arg3 \<noteq> 0 \<or> arg4 \<noteq> 0 \<or> arg5 \<noteq> 0 then - EINVAL
                      else if bit (mm_flags (pmm t)) MMF_DISABLE_THP then 1 else 0)
      else if opt = PR_SET_THP_DISABLE then on_task m (prctl_set_thp_disable env arg2 arg3 arg4 arg5 t)
      else if opt = PR_MPX_ENABLE_MANAGEMENT \<or> opt = PR_MPX_DISABLE_MANAGEMENT then on_task m (t, - EINVAL)
      else None)"

definition prctl_part3 :: "prctl_env \<Rightarrow> u32 \<Rightarrow> u64 \<Rightarrow> u64 \<Rightarrow> u64 \<Rightarrow> u64 \<Rightarrow> ptask \<Rightarrow> umem \<Rightarrow> presult option" where
  "prctl_part3 env opt arg2 arg3 arg4 arg5 t m =
     (let rest = arg4 \<noteq> 0 \<or> arg5 \<noteq> 0; inval = on_task m (t, - EINVAL)
      in if opt = PR_SET_FP_MODE then on_mem t (arch_ctl env SET_FP_MODE arg2 0 m)
      else if opt = PR_GET_FP_MODE then on_mem t (arch_ctl env GET_FP_MODE 0 0 m)
      else if opt = PR_SVE_SET_VL then on_mem t (arch_ctl env SVE_SET_VL arg2 0 m)
      else if opt = PR_SVE_GET_VL then on_mem t (arch_ctl env SVE_GET_VL 0 0 m)
      else if opt = PR_SME_SET_VL then on_mem t (arch_ctl env SME_SET_VL arg2 0 m)
      else if opt = PR_SME_GET_VL then on_mem t (arch_ctl env SME_GET_VL 0 0 m)
      else if opt = PR_GET_SPECULATION_CTRL then
        (if arg3 \<noteq> 0 \<or> rest then inval else on_mem t (arch_prctl_spec_ctrl_get env arg2 m))
      else if opt = PR_SET_SPECULATION_CTRL then
        (if rest then inval else on_mem t (arch_prctl_spec_ctrl_set env arg2 arg3 m))
      else if opt = PR_PAC_RESET_KEYS then
        (if arg3 \<noteq> 0 \<or> rest then inval else on_mem t (arch_ctl env PAC_RESET_KEYS arg2 0 m))
      else if opt = PR_PAC_SET_ENABLED_KEYS then
        (if rest then inval else on_mem t (arch_ctl env PAC_SET_ENABLED_KEYS arg2 arg3 m))
      else if opt = PR_PAC_GET_ENABLED_KEYS then
        (if arg2 \<noteq> 0 \<or> arg3 \<noteq> 0 \<or> rest then inval else on_mem t (arch_ctl env PAC_GET_ENABLED_KEYS 0 0 m))
      else if opt = PR_SET_TAGGED_ADDR_CTRL then
        (if arg3 \<noteq> 0 \<or> rest then inval else on_mem t (arch_ctl env SET_TAGGED_ADDR_CTRL arg2 0 m))
      else if opt = PR_GET_TAGGED_ADDR_CTRL then
        (if arg2 \<noteq> 0 \<or> arg3 \<noteq> 0 \<or> rest then inval else on_mem t (arch_ctl env GET_TAGGED_ADDR_CTRL 0 0 m))
      else if opt = PR_SET_IO_FLUSHER then on_task m (prctl_set_io_flusher (env_mm env) arg2 arg3 arg4 arg5 t)
      else if opt = PR_GET_IO_FLUSHER then on_task m (t, prctl_get_io_flusher (env_mm env) arg2 arg3 arg4 arg5 t)
      else None)"

definition prctl_part4 :: "uaccess \<Rightarrow> mm_config \<Rightarrow> prctl_env \<Rightarrow> u32 \<Rightarrow> u64 \<Rightarrow> u64 \<Rightarrow> u64 \<Rightarrow> u64 \<Rightarrow> ptask \<Rightarrow> umem
    \<Rightarrow> presult option" where
  "prctl_part4 ua cfg env opt arg2 arg3 arg4 arg5 t m =
     (if opt = PR_SET_SYSCALL_USER_DISPATCH then on_mem t (ext_call env User_dispatch arg2 arg3 arg4 arg5 m)
      else if CONFIG_SCHED_CORE env \<and> opt = PR_SCHED_CORE then on_mem t (ext_call env Sched_core_share arg2 arg3 arg4 arg5 m)
      else if opt = PR_SET_MDWE then
        (let (mm, e) = prctl_set_mdwe arg2 arg3 arg4 arg5 (pmm t) in on_task m (t\<lparr>pmm := mm\<rparr>, e))
      else if opt = PR_GET_MDWE then on_task m (t, prctl_get_mdwe arg2 arg3 arg4 arg5 (pmm t))
      else if opt = PR_SET_VMA then
        (let (mm, e) = prctl_set_vma cfg (env_mm env) arg2 arg3 arg4 arg5 m (pmm t) in on_task m (t\<lparr>pmm := mm\<rparr>, e))
      else if opt = PR_GET_AUXV then
        (if arg4 \<noteq> 0 \<or> arg5 \<noteq> 0 then on_task m (t, - EINVAL)
         else on_mem t (prctl_get_auxv ua cfg arg2 arg3 (pmm t) m))
      else if CONFIG_KSM env \<and> opt = PR_SET_MEMORY_MERGE then on_task m (prctl_set_memory_merge env arg2 arg3 arg4 arg5 t)
      else if CONFIG_KSM env \<and> opt = PR_GET_MEMORY_MERGE then
        on_task m (t, if arg2 \<noteq> 0 \<or> arg3 \<noteq> 0 \<or> arg4 \<noteq> 0 \<or> arg5 \<noteq> 0 then - EINVAL
                      else if bit (mm_flags (pmm t)) MMF_VM_MERGE_ANY then 1 else 0)
      else if opt = PR_RISCV_V_SET_CONTROL then on_mem t (arch_ctl env RISCV_V_SET_CONTROL arg2 0 m)
      else if opt = PR_RISCV_V_GET_CONTROL then on_mem t (arch_ctl env RISCV_V_GET_CONTROL 0 0 m)
      else None)"

definition sys_prctl :: "uaccess \<Rightarrow> mm_config \<Rightarrow> prctl_env \<Rightarrow> u32 \<Rightarrow> u64 \<Rightarrow> u64 \<Rightarrow> u64 \<Rightarrow> u64 \<Rightarrow> ptask \<Rightarrow> umem \<Rightarrow> presult" where
  "sys_prctl ua cfg env opt arg2 arg3 arg4 arg5 t m =
     (let error = security_task_prctl env opt arg2 arg3 arg4 arg5
      in if error \<noteq> - ENOSYS then (t, m, error)
         else case prctl_part1 ua env opt arg2 arg3 t m of Some r \<Rightarrow> r
         | None \<Rightarrow> (case prctl_part2 ua cfg env opt arg2 arg3 arg4 arg5 t m of Some r \<Rightarrow> r
         | None \<Rightarrow> (case prctl_part3 env opt arg2 arg3 arg4 arg5 t m of Some r \<Rightarrow> r
         | None \<Rightarrow> (case prctl_part4 ua cfg env opt arg2 arg3 arg4 arg5 t m of Some r \<Rightarrow> r
         | None \<Rightarrow> (t, m, - EINVAL)))))"

section \<open>What the called code promises\<close>

text \<open>
  \<open>strncpy_from_user\<close> delivers at most the given number of bytes, none of them NUL;
  \<open>set_task_comm\<close> pads a name with NUL to 16 bytes; merging sets or clears its own flag, on
  success only.
\<close>

definition prctl_env_ok :: "prctl_env \<Rightarrow> bool" where
  "prctl_env_ok env \<longleftrightarrow> mm_env_ok (env_mm env)
     \<and> (\<forall>m a n s. strncpy_from_user env m a n = Some s \<longrightarrow> length s \<le> n \<and> 0 \<notin> set s)
     \<and> (\<forall>s. length s \<le> 15 \<longrightarrow> 0 \<notin> set s \<longrightarrow> set_task_comm env s = s @ replicate (16 - length s) 0)
     \<and> (\<forall>mm. ksm_enable_merge_any env mm = (mm\<lparr>mm_flags := set_bit MMF_VM_MERGE_ANY (mm_flags mm)\<rparr>, 0)
          \<or> fst (ksm_enable_merge_any env mm) = mm)
     \<and> (\<forall>mm. ksm_disable_merge_any env mm = (mm\<lparr>mm_flags := unset_bit MMF_VM_MERGE_ANY (mm_flags mm)\<rparr>, 0)
          \<or> fst (ksm_disable_merge_any env mm) = mm)"

section \<open>One call\<close>

definition comm_ok :: "u8 list \<Rightarrow> bool" where
  "comm_ok c \<longleftrightarrow> length c = 16 \<and> c ! 15 = 0"

definition task_ok :: "mm_config \<Rightarrow> ptask \<Rightarrow> bool" where
  "task_ok cfg t \<longleftrightarrow> mm_ok cfg (pmm t) \<and> comm_ok (comm t)"

text \<open>Hardening that is on in \<open>s\<close> is on in \<open>t\<close>.\<close>

definition hardened :: "ptask \<Rightarrow> ptask \<Rightarrow> bool" where
  "hardened s t \<longleftrightarrow> (no_new_privs s \<longrightarrow> no_new_privs t)
     \<and> (get_current_mdwe (pmm s) \<noteq> 0 \<longrightarrow> get_current_mdwe (pmm t) = get_current_mdwe (pmm s))"

text \<open>What an error may leave behind.\<close>

definition residue :: "u32 \<Rightarrow> ptask \<Rightarrow> ptask \<Rightarrow> bool" where
  "residue opt s t \<longleftrightarrow> t = s
     \<or> opt = PR_MCE_KILL \<and> t = s\<lparr>pflags := pflags s OR PF_MCE_PROCESS\<rparr>
     \<or> opt = PR_SET_VMA \<and> (\<exists>ns. t = s\<lparr>pmm := (pmm s)\<lparr>vma_names := ns\<rparr>\<rparr>)"

definition step_ok :: "mm_config \<Rightarrow> u32 \<Rightarrow> ptask \<Rightarrow> ptask \<Rightarrow> int \<Rightarrow> bool" where
  "step_ok cfg opt s t e \<longleftrightarrow> (task_ok cfg s \<longrightarrow> task_ok cfg t) \<and> hardened s t \<and> (e < 0 \<longrightarrow> residue opt s t)"

definition steady :: "mm_config \<Rightarrow> u32 \<Rightarrow> ptask \<Rightarrow> presult option \<Rightarrow> bool" where
  "steady cfg opt s r \<longleftrightarrow> (case r of None \<Rightarrow> True | Some (t, m, e) \<Rightarrow> step_ok cfg opt s t e)"

lemma step_ok_same: "step_ok cfg opt s s e"
  by (simp add: step_ok_def hardened_def residue_def)

lemma step_ok_if:
  "(c \<Longrightarrow> step_ok cfg opt s (fst a) (snd a)) \<Longrightarrow> (\<not> c \<Longrightarrow> step_ok cfg opt s (fst b) (snd b))
     \<Longrightarrow> step_ok cfg opt s (fst (if c then a else b)) (snd (if c then a else b))"
  by (rule if_split[THEN iffD2]) simp

lemma step_ok_pflags: "step_ok cfg opt s (s\<lparr>pflags := f\<rparr>) 0"
  by (simp add: step_ok_def task_ok_def hardened_def)

lemma steady_intros:
  "steady cfg opt s None"
  "steady cfg opt s (on_mem s r)"
  "steady cfg opt s (on_task m (s, e))"
  "(c \<Longrightarrow> steady cfg opt s x) \<Longrightarrow> (\<not> c \<Longrightarrow> steady cfg opt s y) \<Longrightarrow> steady cfg opt s (if c then x else y)"
  by (simp_all add: steady_def on_mem_def on_task_def step_ok_same case_prod_unfold)

lemma steady_on_task: "step_ok cfg opt s (fst r) (snd r) \<Longrightarrow> steady cfg opt s (on_task m r)"
  by (simp add: steady_def on_task_def)

text \<open>A change of the map that keeps the image and the flags in question.\<close>

lemma step_ok_mm:
  assumes "mm_ok cfg (pmm s) \<Longrightarrow> mm_ok cfg mm"
    and "get_current_mdwe (pmm s) \<noteq> 0 \<Longrightarrow> get_current_mdwe mm = get_current_mdwe (pmm s)"
    and "e < 0 \<Longrightarrow> residue opt s (s\<lparr>pmm := mm\<rparr>)"
  shows "step_ok cfg opt s (s\<lparr>pmm := mm\<rparr>) e"
  using assms by (simp add: step_ok_def task_ok_def hardened_def)

lemma step_ok_thp: "step_ok cfg opt s (fst (prctl_set_thp_disable env arg2 arg3 arg4 arg5 s)) (snd (prctl_set_thp_disable env arg2 arg3 arg4 arg5 s))"
proof -
  let ?f = "if arg2 \<noteq> 0 then set_bit MMF_DISABLE_THP (mm_flags (pmm s)) else unset_bit MMF_DISABLE_THP (mm_flags (pmm s))"
  have "step_ok cfg opt s (s\<lparr>pmm := (pmm s)\<lparr>mm_flags := ?f\<rparr>\<rparr>) 0"
    by (rule step_ok_mm) (simp_all add: mm_ok_def get_mdwe_eq bit_simps)
  then show ?thesis by (simp add: prctl_set_thp_disable_def step_ok_same split del: if_split) (simp add: step_ok_same)
qed

lemma step_ok_merge:
  assumes "prctl_env_ok env"
  shows "step_ok cfg opt s (fst (prctl_set_memory_merge env arg2 arg3 arg4 arg5 s)) (snd (prctl_set_memory_merge env arg2 arg3 arg4 arg5 s))"
proof -
  define r where "r = (if arg2 \<noteq> 0 then ksm_enable_merge_any env (pmm s) else ksm_disable_merge_any env (pmm s))"
  have keep: "step_ok cfg opt s (s\<lparr>pmm := (pmm s)\<lparr>mm_flags := f MMF_VM_MERGE_ANY (mm_flags (pmm s))\<rparr>\<rparr>) 0"
    if "f = set_bit \<or> f = unset_bit" for f :: "nat \<Rightarrow> u64 \<Rightarrow> u64"
    using that by (intro step_ok_mm) (auto simp: mm_ok_def get_mdwe_eq bit_simps)
  have "r = ((pmm s)\<lparr>mm_flags := (if arg2 \<noteq> 0 then set_bit else unset_bit) MMF_VM_MERGE_ANY (mm_flags (pmm s))\<rparr>, 0)
      \<or> fst r = pmm s"
    using assms unfolding r_def prctl_env_ok_def by (cases "arg2 = 0") simp_all
  then consider "r = ((pmm s)\<lparr>mm_flags := (if arg2 \<noteq> 0 then set_bit else unset_bit) MMF_VM_MERGE_ANY (mm_flags (pmm s))\<rparr>, 0)"
    | "fst r = pmm s" by blast
  then have r: "step_ok cfg opt s (s\<lparr>pmm := fst r\<rparr>) (snd r)"
  proof cases
    case 1
    show ?thesis unfolding 1 fst_conv snd_conv by (rule keep) simp
  next
    case 2
    then show ?thesis by (simp add: step_ok_same)
  qed
  show ?thesis
    unfolding prctl_set_memory_merge_def r_def[symmetric] case_prod_unfold Let_def
    by (intro step_ok_if) (simp_all only: fst_conv snd_conv step_ok_same r)
qed

lemma step_ok_mce:
  "opt = PR_MCE_KILL \<Longrightarrow> step_ok cfg opt s (fst (prctl_mce_kill arg2 arg3 arg4 arg5 s)) (snd (prctl_mce_kill arg2 arg3 arg4 arg5 s))"
  by (simp add: prctl_mce_kill_def step_ok_def task_ok_def hardened_def residue_def Let_def)

lemma step_ok_subreaper: "step_ok cfg opt s (prctl_set_child_subreaper arg2 s) 0"
  by (simp add: prctl_set_child_subreaper_def step_ok_def task_ok_def hardened_def Let_def)

lemma step_ok_flusher: "step_ok cfg opt s (fst (prctl_set_io_flusher env arg2 arg3 arg4 arg5 s)) (snd (prctl_set_io_flusher env arg2 arg3 arg4 arg5 s))"
  unfolding prctl_set_io_flusher_def by (intro step_ok_if) (simp_all only: fst_conv snd_conv step_ok_same step_ok_pflags)

lemma steady_set_mm:
  assumes "uaccess_ok ua" and "mm_env_ok (env_mm env)" and "2 \<le> AT_VECTOR_SIZE cfg"
  shows "steady cfg opt s (let (mm, m1, e) = prctl_set_mm ua cfg (env_mm env) o2 arg3 arg4 arg5 (pmm s) m
           in Some (s\<lparr>pmm := mm\<rparr>, m1, e))"
proof -
  obtain mm m1 e where r: "prctl_set_mm ua cfg (env_mm env) o2 arg3 arg4 arg5 (pmm s) m = (mm, m1, e)"
    by (rule prod_cases3)
  from sound_set_mm[OF assms, of "pmm s" o2 arg3 arg4 arg5 m]
  have q: "mm_ok cfg (pmm s) \<longrightarrow> mm_ok cfg mm" "mm_flags mm = mm_flags (pmm s)" "e < 0 \<longrightarrow> mm = pmm s"
    unfolding r sound_def fst_conv snd_conv by blast+
  have "step_ok cfg opt s (s\<lparr>pmm := mm\<rparr>) e"
  proof (rule step_ok_mm)
    show "e < 0 \<Longrightarrow> residue opt s (s\<lparr>pmm := mm\<rparr>)" using q(3) by (simp add: residue_def)
  qed (use q(1,2) in \<open>simp_all add: get_current_mdwe_def\<close>)
  then show ?thesis by (simp add: r steady_def)
qed

lemma steady_set_mdwe:
  "steady cfg opt s (let (mm, e) = prctl_set_mdwe arg2 arg3 arg4 arg5 (pmm s) in on_task m (s\<lparr>pmm := mm\<rparr>, e))"
proof -
  obtain mm e where r: "prctl_set_mdwe arg2 arg3 arg4 arg5 (pmm s) = (mm, e)" by (rule prod.exhaust)
  have "step_ok cfg opt s (s\<lparr>pmm := mm\<rparr>) e"
  proof (rule step_ok_mm)
    have l: "lay mm = lay (pmm s) \<and> saved_auxv mm = saved_auxv (pmm s)"
      using set_mdwe_outcome[OF r] by (metis mm_struct.surjective mm_struct.update_convs(4) mm_struct.ext_inject)
    then show "mm_ok cfg (pmm s) \<Longrightarrow> mm_ok cfg mm" by (simp add: mm_ok_def)
    show "get_current_mdwe (pmm s) \<noteq> 0 \<Longrightarrow> get_current_mdwe mm = get_current_mdwe (pmm s)"
      using set_mdwe_outcome[OF r] by blast
    show "e < 0 \<Longrightarrow> residue opt s (s\<lparr>pmm := mm\<rparr>)" using set_mdwe_outcome[OF r] by (auto simp: residue_def)
  qed
  then show ?thesis by (simp add: r steady_on_task)
qed

lemma set_vma_names:
  assumes "mm_env_ok env"
  shows "\<exists>ns. fst (prctl_set_vma cfg env o2 a len arg m mm) = mm\<lparr>vma_names := ns\<rparr>"
proof -
  have same: "\<exists>ns. mm = mm\<lparr>vma_names := ns\<rparr>" by (rule exI[of _ "vma_names mm"]) simp
  have "\<exists>ns. fst (madvise_set_anon_name env a len n mm) = mm\<lparr>vma_names := ns\<rparr>" for n
  proof -
    obtain ns e where "madvise_set_anon_name env a len n mm = (mm\<lparr>vma_names := ns\<rparr>, e)"
      using assms unfolding mm_env_ok_def by blast
    then show ?thesis by auto
  qed
  with same show ?thesis by (simp add: prctl_set_vma_def split: sum.split)
qed

lemma steady_set_vma:
  assumes "mm_env_ok (env_mm env)"
  shows "opt = PR_SET_VMA \<Longrightarrow> steady cfg opt s
    (let (mm, e) = prctl_set_vma cfg (env_mm env) arg2 arg3 arg4 arg5 m (pmm s) in on_task m (s\<lparr>pmm := mm\<rparr>, e))"
proof -
  assume o: "opt = PR_SET_VMA"
  obtain mm e where r: "prctl_set_vma cfg (env_mm env) arg2 arg3 arg4 arg5 m (pmm s) = (mm, e)" by (rule prod.exhaust)
  obtain ns where "mm = (pmm s)\<lparr>vma_names := ns\<rparr>"
    using set_vma_names[OF assms, of cfg arg2 arg3 arg4 arg5 m "pmm s"] r by auto
  then have "step_ok cfg opt s (s\<lparr>pmm := mm\<rparr>) e"
    using o by (intro step_ok_mm) (auto simp: mm_ok_def get_mdwe_eq residue_def)
  then show ?thesis by (simp add: r steady_on_task)
qed

lemma steady_set_name:
  assumes "prctl_env_ok env"
  shows "steady cfg opt s (case strncpy_from_user env m a 15 of None \<Rightarrow> on_task m (s, - EFAULT)
           | Some n \<Rightarrow> on_task m (s\<lparr>comm := set_task_comm env n\<rparr>, 0))"
proof (cases "strncpy_from_user env m a 15")
  case None
  then show ?thesis by (simp add: steady_intros)
next
  case (Some n)
  then have "length n \<le> 15" "0 \<notin> set n" using assms unfolding prctl_env_ok_def by blast+
  then have "set_task_comm env n = n @ replicate (16 - length n) 0" using assms by (simp add: prctl_env_ok_def)
  then have "comm_ok (set_task_comm env n)" using \<open>length n \<le> 15\<close> by (simp add: comm_ok_def nth_append)
  then show ?thesis
    by (simp add: Some steady_on_task step_ok_def task_ok_def hardened_def)
qed

lemma steady_part1:
  assumes "prctl_env_ok env"
  shows "steady cfg opt s (prctl_part1 ua env opt arg2 arg3 s m)"
  unfolding prctl_part1_def Let_def
  by (intro steady_intros(4))
    (rule steady_intros(1-3) steady_set_name[OF assms]
      | (rule steady_on_task, (simp add: step_ok_def task_ok_def hardened_def mm_ok_def get_mdwe_eq; fail)))+

lemma steady_part2:
  assumes "uaccess_ok ua" and "prctl_env_ok env" and "2 \<le> AT_VECTOR_SIZE cfg"
  shows "steady cfg opt s (prctl_part2 ua cfg env opt arg2 arg3 arg4 arg5 s m)"
proof -
  have mm: "mm_env_ok (env_mm env)" using assms(2) by (simp add: prctl_env_ok_def)
  show ?thesis
    unfolding prctl_part2_def
    by (intro steady_intros(4))
      (rule steady_intros(1-3) steady_set_mm[OF assms(1) mm assms(3)]
        | rule steady_on_task[OF step_ok_thp]
        | (rule steady_on_task[OF step_ok_mce], assumption)
        | (rule steady_on_task, (simp add: step_ok_subreaper; fail))
        | (rule steady_on_task, (simp add: step_ok_def task_ok_def hardened_def; fail)))+
qed

lemma steady_part3: "steady cfg opt s (prctl_part3 env opt arg2 arg3 arg4 arg5 s m)"
  unfolding prctl_part3_def Let_def
  by (intro steady_intros(4)) (rule steady_intros(1-3) steady_on_task[OF step_ok_flusher])+

lemma steady_part4:
  assumes "prctl_env_ok env"
  shows "steady cfg opt s (prctl_part4 ua cfg env opt arg2 arg3 arg4 arg5 s m)"
proof -
  have mm: "mm_env_ok (env_mm env)" using assms by (simp add: prctl_env_ok_def)
  show ?thesis
    unfolding prctl_part4_def
    by (intro steady_intros(4))
      (rule steady_intros(1-3) steady_set_mdwe steady_on_task[OF step_ok_merge[OF assms]]
        | (rule steady_set_vma[OF mm], assumption))+
qed

lemma prctl_step_ok:
  assumes "uaccess_ok ua" and "prctl_env_ok env" and "2 \<le> AT_VECTOR_SIZE cfg"
    and "sys_prctl ua cfg env opt arg2 arg3 arg4 arg5 s m = (t, m', e)"
  shows "step_ok cfg opt s t e"
proof -
  have some: "step_ok cfg opt s t e" if "steady cfg opt s r" "r = Some (t, m', e)" for r
    using that by (simp add: steady_def)
  show ?thesis
    using assms(4) steady_part1[OF assms(2), of cfg opt s ua arg2 arg3 m]
      steady_part2[OF assms(1-3), of opt s arg2 arg3 arg4 arg5 m]
      steady_part3[of cfg opt s env arg2 arg3 arg4 arg5 m]
      steady_part4[OF assms(2), of cfg opt s ua arg2 arg3 arg4 arg5 m]
    by (auto simp: sys_prctl_def Let_def step_ok_same dest!: some split: if_splits option.splits)
qed

section \<open>Sequences of calls\<close>

text \<open>A call: the primitives and the environment it meets, its option and its arguments.\<close>

type_synonym prctl_call = "uaccess \<times> prctl_env \<times> u32 \<times> u64 \<times> u64 \<times> u64 \<times> u64"

definition prctl_step :: "mm_config \<Rightarrow> prctl_call \<Rightarrow> ptask \<times> umem \<Rightarrow> ptask \<times> umem" where
  "prctl_step cfg c tm =
     (case c of (ua, env, opt, arg2, arg3, arg4, arg5) \<Rightarrow>
        (let (t, m, e) = sys_prctl ua cfg env opt arg2 arg3 arg4 arg5 (fst tm) (snd tm) in (t, m)))"

definition call_ok :: "prctl_call \<Rightarrow> bool" where
  "call_ok c \<longleftrightarrow> uaccess_ok (fst c) \<and> prctl_env_ok (fst (snd c))"

lemma prctl_step_step_ok:
  assumes "call_ok c" and "2 \<le> AT_VECTOR_SIZE cfg"
  shows "(task_ok cfg (fst tm) \<longrightarrow> task_ok cfg (fst (prctl_step cfg c tm))) \<and> hardened (fst tm) (fst (prctl_step cfg c tm))"
proof -
  obtain ua env opt arg2 arg3 arg4 arg5 where c: "c = (ua, env, opt, arg2, arg3, arg4, arg5)" by (rule prod_cases7)
  obtain t m e where r: "sys_prctl ua cfg env opt arg2 arg3 arg4 arg5 (fst tm) (snd tm) = (t, m, e)" by (rule prod_cases3)
  have "step_ok cfg opt (fst tm) t e"
    using assms prctl_step_ok[OF _ _ assms(2) r] by (simp add: call_ok_def c)
  moreover have "fst (prctl_step cfg c tm) = t" by (simp add: prctl_step_def c r)
  ultimately show ?thesis by (simp add: step_ok_def)
qed

lemma hardened_trans: "hardened s t \<Longrightarrow> hardened t u \<Longrightarrow> hardened s u"
  by (simp add: hardened_def)

interpretation prctls: kept_invariant "prctl_step cfg" "\<lambda>c. call_ok c \<and> 2 \<le> AT_VECTOR_SIZE cfg"
  "\<lambda>tm. (task_ok cfg s \<longrightarrow> task_ok cfg (fst tm)) \<and> hardened s (fst tm)" for cfg s
  by unfold_locales (use prctl_step_step_ok hardened_trans in blast)

lemma prctl_run:
  assumes "list_all call_ok cs" and "2 \<le> AT_VECTOR_SIZE cfg"
  shows "(task_ok cfg s \<longrightarrow> task_ok cfg (fst (fold (prctl_step cfg) cs (s, m)))) \<and> hardened s (fst (fold (prctl_step cfg) cs (s, m)))"
proof (rule prctls.run_inv)
  show "list_all (\<lambda>c. call_ok c \<and> 2 \<le> AT_VECTOR_SIZE cfg) cs" using assms by (simp add: list_all_iff)
  show "(task_ok cfg s \<longrightarrow> task_ok cfg (fst (s, m))) \<and> hardened s (fst (s, m))" by (simp add: hardened_def)
qed

text \<open>
  C9. Hardening cannot be undone: over any sequence of \<open>prctl\<close> calls, with any options and
  arguments, a task that has \<open>no_new_privs\<close> keeps it, and a memory map with MDWE bits keeps
  exactly these bits, so that \<open>PR_GET_NO_NEW_PRIVS\<close> and \<open>PR_GET_MDWE\<close> go on reporting them.
\<close>

theorem prctl_hardening_is_final:
  assumes "list_all call_ok cs" and "2 \<le> AT_VECTOR_SIZE cfg"
  shows "let t' = fst (fold (prctl_step cfg) cs (t, m))
    in (no_new_privs t \<longrightarrow> no_new_privs t')
       \<and> (prctl_get_mdwe 0 0 0 0 (pmm t) \<noteq> 0 \<longrightarrow> prctl_get_mdwe 0 0 0 0 (pmm t') = prctl_get_mdwe 0 0 0 0 (pmm t))"
  using prctl_run[OF assms, of t m] by (auto simp: hardened_def prctl_get_mdwe_def Let_def unat_eq_zero)

text \<open>
  C36. The recorded image of a process stays sound over any sequence of \<open>prctl\<close> calls: the
  boundaries stay inside the address space and in order, the auxiliary vector keeps its size
  and ends with \<open>AT_NULL\<close>, and the name of the task is 16 bytes that end with NUL.
\<close>

theorem prctl_image_sound:
  assumes "list_all call_ok cs" and "2 \<le> AT_VECTOR_SIZE cfg"
    and "layout_ok cfg (lay (pmm t))" and "auxv_ok cfg (saved_auxv (pmm t))" and "comm_ok (comm t)"
  shows "let t' = fst (fold (prctl_step cfg) cs (t, m))
    in layout_ok cfg (lay (pmm t')) \<and> auxv_ok cfg (saved_auxv (pmm t')) \<and> comm_ok (comm t')"
  using prctl_run[OF assms(1,2), of t m] assms(3-5) by (simp add: task_ok_def mm_ok_def Let_def)

text \<open>
  A \<open>prctl\<close> call that fails leaves the task unchanged, with two exceptions:
  \<open>PR_MCE_KILL\<close> with a valid second and an invalid third argument answers \<open>-EINVAL\<close> after it
  has set \<open>PF_MCE_PROCESS\<close>, and \<open>PR_SET_VMA\<close> may have named some of the mappings.
\<close>

theorem failed_prctl:
  assumes "uaccess_ok ua" and "prctl_env_ok env" and "2 \<le> AT_VECTOR_SIZE cfg"
    and "sys_prctl ua cfg env opt arg2 arg3 arg4 arg5 t m = (t', m', e)" and "e < 0"
  shows "t' = t
    \<or> opt = PR_MCE_KILL \<and> t' = t\<lparr>pflags := pflags t OR PF_MCE_PROCESS\<rparr>
    \<or> opt = PR_SET_VMA \<and> (\<exists>ns. t' = t\<lparr>pmm := (pmm t)\<lparr>vma_names := ns\<rparr>\<rparr>)"
  using prctl_step_ok[OF assms(1-4)] assms(5) by (simp add: step_ok_def residue_def)

section \<open>The name of a task\<close>

text \<open>
  \<open>PR_GET_NAME\<close> after \<open>PR_SET_NAME\<close> delivers the name that was read, padded with NUL to 16
  bytes, and writes nothing outside these 16 bytes.
\<close>

theorem prctl_name_roundtrip:
  assumes "uaccess_ok ua" and "prctl_env_ok env" and "\<And>x a b c d. security_task_prctl env x a b c d = - ENOSYS"
    and "strncpy_from_user env m a 15 = Some n"
    and "sys_prctl ua cfg env PR_SET_NAME a b2 b3 b4 t m = (t1, m1, e1)"
    and "sys_prctl ua cfg env PR_GET_NAME buf c2 c3 c4 t1 m1 = (t2, m2, 0)"
  shows "e1 = 0 \<and> m1 = m \<and> t2 = t1 \<and> mem_read m2 buf 16 = n @ replicate (16 - length n) 0
    \<and> (\<forall>x. x \<notin> span buf 16 \<longrightarrow> m2 x = m x)"
proof -
  have n: "length n \<le> 15" "0 \<notin> set n" using assms(2,4) unfolding prctl_env_ok_def by blast+
  then have c: "set_task_comm env n = n @ replicate (16 - length n) 0" using assms(2) by (simp add: prctl_env_ok_def)
  have 1: "t1 = t\<lparr>comm := n @ replicate (16 - length n) 0\<rparr>" "m1 = m" "e1 = 0"
    using assms(5) by (simp_all add: sys_prctl_def assms(3,4) prctl_part1_def on_task_def c)
  define bs where "bs = n @ replicate (16 - length n) 0"
  have len: "length bs = 16" using n by (simp add: bs_def)
  obtain m3 left where w: "copy_to_user ua m buf bs = (m3, left)" by (rule prod.exhaust)
  have 2: "t2 = t1" "m2 = m3" "left = 0"
    using assms(6) 1 w by (simp_all add: sys_prctl_def assms(3) prctl_part1_def on_mem_def bs_def[symmetric] split: if_splits)
  then have "m2 = mem_write m buf bs" using copy_to_user_success[OF assms(1)] w by simp
  then show ?thesis
    using 1 2 len mem_write_outside[of _ buf bs m] by (simp add: bs_def[symmetric])
qed

section \<open>Subreapers\<close>

text \<open>
  \<open>marked\<close>: a descendant has the flag, and so have all below it, except at and below the first
  process of a number namespace. \<open>closed\<close> is what the comment in the source relies on: where a
  process has the flag, its descendants have it too.
\<close>

fun marked :: "ptree \<Rightarrow> bool" where
  "marked (PNode p cs) \<longleftrightarrow> reaper p \<or> has_child_subreaper p \<and> list_all marked cs"

fun closed :: "ptree \<Rightarrow> bool" where
  "closed (PNode p cs) \<longleftrightarrow> (has_child_subreaper p \<longrightarrow> list_all marked cs) \<and> list_all closed cs"

text \<open>The tree without the flags.\<close>

fun shape :: "ptree \<Rightarrow> ptree" where
  "shape (PNode p cs) = PNode (p\<lparr>has_child_subreaper := False\<rparr>) (map shape cs)"

lemma propagate_walk:
  "list_all closed ts \<Longrightarrow>
     (let (ts', stop) = walk_process_tree propagate_has_child_subreaper ts
      in \<not> stop \<and> list_all marked ts' \<and> list_all closed ts' \<and> map shape ts' = map shape ts)"
proof (induction propagate_has_child_subreaper ts rule: walk_process_tree.induct)
  case (2 p cs ts)
  obtain ts' stop where w: "walk_process_tree propagate_has_child_subreaper ts = (ts', stop)" by (rule prod.exhaust)
  show ?case
  proof (cases "has_child_subreaper p \<or> reaper p")
    case True
    then have v: "propagate_has_child_subreaper p = (p, 0)" by (simp add: propagate_has_child_subreaper_def)
    have ih: "\<not> stop \<and> list_all marked ts' \<and> list_all closed ts' \<and> map shape ts' = map shape ts"
      using "2.hyps"(2)[of "(p, 0)" p 0 "(cs, False)" cs False] "2.prems" w v by simp
    with True "2.prems" show ?thesis by (auto simp: v w)
  next
    case False
    let ?p = "p\<lparr>has_child_subreaper := True\<rparr>"
    have v: "propagate_has_child_subreaper p = (?p, 1)" using False by (simp add: propagate_has_child_subreaper_def)
    obtain cs' st where u: "walk_process_tree propagate_has_child_subreaper cs = (cs', st)" by (rule prod.exhaust)
    have ihc: "\<not> st \<and> list_all marked cs' \<and> list_all closed cs' \<and> map shape cs' = map shape cs"
      using "2.hyps"(1)[of "(?p, 1)" ?p 1] "2.prems" u v by simp
    have "\<not> stop \<and> list_all marked ts' \<and> list_all closed ts' \<and> map shape ts' = map shape ts"
      using "2.hyps"(2)[of "(?p, 1)" ?p 1 "(cs', st)" cs' st] "2.prems" w v u ihc by simp
    with ihc show ?thesis by (auto simp: v w u)
  qed
qed simp

text \<open>
  C37. After \<open>PR_SET_CHILD_SUBREAPER\<close> with a non-zero argument every descendant of the caller
  is marked as having a subreaper, down to the first processes of number namespaces, although
  the walk skips the subtrees that are already marked; the call changes nothing but the flags,
  and it keeps the property that makes the skipping right.
\<close>

theorem subreaper_reaches_descendants:
  assumes "arg2 \<noteq> 0" and "list_all closed (children t)"
  shows "let t' = prctl_set_child_subreaper arg2 t
    in is_child_subreaper t' \<and> list_all marked (children t') \<and> list_all closed (children t')
       \<and> map shape (children t') = map shape (children t)"
  using propagate_walk[OF assms(2)] assms(1)
  by (simp add: prctl_set_child_subreaper_def Let_def case_prod_unfold)

section \<open>A concrete system\<close>

definition plain_mm_env :: mm_env where
  "plain_mm_env = \<lparr>check_data_rlimit = (\<lambda>_ _ _ _. 0), fdget = (\<lambda>fd. if fd = 3 then Some 7 else None),
     file_isreg = (\<lambda>_. True), path_noexec = (\<lambda>_. False), file_permission_exec = (\<lambda>_. 0),
     replace_mm_exe_file = (\<lambda>f mm. (mm\<lparr>exe_file := f\<rparr>, 0)), checkpoint_restore_capable = False,
     capable_resource = True, find_vma = (\<lambda>_. True), strndup_user = (\<lambda>m a n. Inl (- EFAULT)),
     anon_vma_name_alloc = (\<lambda>_. True),
     madvise_set_anon_name = (\<lambda>a l n mm. (mm\<lparr>vma_names := (a, l, n) # vma_names mm\<rparr>, 0))\<rparr>"

definition plain_prctl_env :: prctl_env where
  "plain_prctl_env = \<lparr>env_mm = plain_mm_env, security_task_prctl = (\<lambda>_ _ _ _ _. - ENOSYS), valid_signal = (\<lambda>s. s \<le> 64),
     strncpy_from_user = (\<lambda>m a n. Some (takeWhile (\<lambda>b. b \<noteq> 0) (mem_read m a n))),
     set_task_comm = (\<lambda>s. s @ replicate (16 - length s) 0), arch_macro = (\<lambda>_. None),
     ext_call = (\<lambda>_ _ _ _ _ m. (m, - EINVAL)), mmap_lock_interrupted = False,
     ksm_enable_merge_any = (\<lambda>mm. (mm\<lparr>mm_flags := set_bit MMF_VM_MERGE_ANY (mm_flags mm)\<rparr>, 0)),
     ksm_disable_merge_any = (\<lambda>mm. (mm\<lparr>mm_flags := unset_bit MMF_VM_MERGE_ANY (mm_flags mm)\<rparr>, 0)),
     CONFIG_SCHED_CORE = False, CONFIG_KSM = True\<rparr>"

definition plain_config :: mm_config where
  "plain_config = \<lparr>TASK_SIZE = 0x7ffffffff000, mmap_min_addr = 0x10000, AT_VECTOR_SIZE = 4,
     CONFIG_CHECKPOINT_RESTORE = True, CONFIG_ANON_VMA_NAME = True\<rparr>"

definition plain_ptask :: ptask where
  "plain_ptask = \<lparr>pdeath_signal = 0, comm = replicate 16 0, timer_slack_ns = 50000, default_timer_slack_ns = 50000,
     pflags = 0, no_new_privs = True, clear_child_tid = 0, is_child_subreaper = False,
     children = [PNode \<lparr>has_child_subreaper = False, reaper = False\<rparr> [PNode \<lparr>has_child_subreaper = False, reaper = True\<rparr> []]],
     pmm = \<lparr>lay = \<lparr>start_code = 0x10000, end_code = 0x20000, start_data = 0x30000, end_data = 0x40000, start_brk = 0x50000,
              brk = 0x60000, start_stack = 0x90000, arg_start = 0x70000, arg_end = 0x71000, env_start = 0x72000, env_end = 0x73000\<rparr>,
            saved_auxv = replicate 32 0, exe_file = 1, mm_flags = 0x10000000, dumpable = 1, vma_names = []\<rparr>\<rparr>"

lemma plain_prctl_env_ok: "prctl_env_ok plain_prctl_env"
proof -
  have "mm_env_ok plain_mm_env" by (auto simp: mm_env_ok_def plain_mm_env_def)
  moreover have "length (takeWhile P (mem_read m a n)) \<le> n" for P m a n
    using length_takeWhile_le[of P "mem_read m a n"] by simp
  moreover have "0 \<notin> set (takeWhile (\<lambda>b. b \<noteq> 0) (xs :: u8 list))" for xs by (auto dest: set_takeWhileD)
  ultimately show ?thesis by (simp add: prctl_env_ok_def plain_prctl_env_def)
qed

abbreviation plain_call :: "u32 \<Rightarrow> u64 \<Rightarrow> u64 \<Rightarrow> prctl_call" where
  "plain_call opt arg2 arg3 \<equiv> (flat_uaccess (\<lambda>_. True), plain_prctl_env, opt, arg2, arg3, 0, 0)"

lemma plain_call_ok: "call_ok (plain_call opt arg2 arg3)"
  by (simp add: call_ok_def plain_prctl_env_ok flat_uaccess_ok)

theorem prctl_hardening_is_final_witness:
  "let t' = fst (fold (prctl_step plain_config) [plain_call PR_SET_MDWE 0 0, plain_call PR_SET_NO_NEW_PRIVS 0 0] (plain_ptask, \<lambda>_. 0))
   in no_new_privs t' \<and> prctl_get_mdwe 0 0 0 0 (pmm t') = 1"
proof -
  have "list_all call_ok [plain_call PR_SET_MDWE 0 0, plain_call PR_SET_NO_NEW_PRIVS 0 0]"
    by (simp add: plain_call_ok)
  moreover have "2 \<le> AT_VECTOR_SIZE plain_config" by (simp add: plain_config_def)
  moreover have "prctl_get_mdwe 0 0 0 0 (pmm plain_ptask) = 1" "no_new_privs plain_ptask" by code_simp+
  ultimately show ?thesis
    using prctl_hardening_is_final[of "[plain_call PR_SET_MDWE 0 0, plain_call PR_SET_NO_NEW_PRIVS 0 0]" plain_config plain_ptask "\<lambda>_. 0"]
    by (simp only: Let_def)
qed

theorem prctl_image_sound_witness:
  "let t' = fst (fold (prctl_step plain_config) [plain_call PR_SET_MM 6 0x65000, plain_call PR_SET_MM 7 0x64000] (plain_ptask, \<lambda>_. 0))
   in layout_ok plain_config (lay (pmm t')) \<and> auxv_ok plain_config (saved_auxv (pmm t')) \<and> comm_ok (comm t')"
proof (rule prctl_image_sound)
  show "list_all call_ok [plain_call PR_SET_MM 6 0x65000, plain_call PR_SET_MM 7 0x64000]"
    by (simp add: plain_call_ok)
  show "2 \<le> AT_VECTOR_SIZE plain_config" by (simp add: plain_config_def)
  show "layout_ok plain_config (lay (pmm plain_ptask))" by code_simp
  show "auxv_ok plain_config (saved_auxv (pmm plain_ptask))"
    by (simp add: auxv_ok_def auxv_size_bytes_def plain_config_def plain_ptask_def)
  show "comm_ok (comm plain_ptask)" by (simp add: comm_ok_def plain_ptask_def)
qed

theorem failed_prctl_witness:
  "\<exists>t' m' e. sys_prctl (flat_uaccess (\<lambda>_. True)) plain_config plain_prctl_env PR_MCE_KILL 1 7 0 0 plain_ptask (\<lambda>_. 0) = (t', m', e)
     \<and> e < 0 \<and> t' = plain_ptask\<lparr>pflags := 0x80\<rparr> \<and> t' \<noteq> plain_ptask"
proof -
  let ?r = "sys_prctl (flat_uaccess (\<lambda>_. True)) plain_config plain_prctl_env PR_MCE_KILL 1 7 0 0 plain_ptask (\<lambda>_. 0)"
  have f: "pflags plain_ptask = 0" by (simp add: plain_ptask_def)
  have r: "?r = (plain_ptask\<lparr>pflags := 0x80\<rparr>, \<lambda>_. 0, - EINVAL)"
    by (simp add: sys_prctl_def prctl_part1_def prctl_part2_def prctl_mce_kill_def plain_prctl_env_def on_task_def f)
  have at: "2 \<le> AT_VECTOR_SIZE plain_config" by (simp add: plain_config_def)
  have ne: "plain_ptask\<lparr>pflags := 0x80\<rparr> \<noteq> plain_ptask" by (simp add: plain_ptask_def)
  from failed_prctl[OF flat_uaccess_ok plain_prctl_env_ok at r] ne
  have "plain_ptask\<lparr>pflags := 0x80\<rparr> = plain_ptask\<lparr>pflags := pflags plain_ptask OR 0x80\<rparr>" by simp
  then show ?thesis using r ne by simp
qed

theorem prctl_name_roundtrip_witness:
  "let m = (\<lambda>a :: addr. if a = 100 then 65 else if a = 101 then 66 else 0) :: umem;
       (t1, m1, e1) = sys_prctl (flat_uaccess (\<lambda>_. True)) plain_config plain_prctl_env PR_SET_NAME 100 0 0 0 plain_ptask m;
       (t2, m2, e2) = sys_prctl (flat_uaccess (\<lambda>_. True)) plain_config plain_prctl_env PR_GET_NAME 200 0 0 0 t1 m1
   in mem_read m2 200 16 = [65, 66] @ replicate 14 0"
proof -
  define m :: umem where "m = (\<lambda>a. if a = 100 then 65 else if a = 101 then 66 else 0)"
  have rd: "strncpy_from_user plain_prctl_env m 100 15 = Some [65, 66]"
    by (simp add: plain_prctl_env_def mem_read_def upt_rec m_def)
  obtain t1 m1 e1 where s1: "sys_prctl (flat_uaccess (\<lambda>_. True)) plain_config plain_prctl_env PR_SET_NAME 100 0 0 0 plain_ptask m = (t1, m1, e1)"
    by (rule prod_cases3)
  have hook: "security_task_prctl plain_prctl_env x a b c d = - ENOSYS" for x a b c d by (simp add: plain_prctl_env_def)
  obtain t2 m2 e2 where s2: "sys_prctl (flat_uaccess (\<lambda>_. True)) plain_config plain_prctl_env PR_GET_NAME 200 0 0 0 t1 m1 = (t2, m2, e2)"
    by (rule prod_cases3)
  have "e2 = 0"
    using s2 by (simp add: sys_prctl_def hook prctl_part1_def on_mem_def flat_uaccess_total)
  with prctl_name_roundtrip[OF flat_uaccess_ok plain_prctl_env_ok hook rd s1, of 200 0 0 0] s2
  have "mem_read m2 200 16 = [65, 66] @ replicate 14 0" by simp
  then show ?thesis using s1 s2 unfolding m_def by simp
qed

theorem subreaper_reaches_descendants_witness:
  "let t' = prctl_set_child_subreaper 1 plain_ptask
   in list_all marked (children t') \<and> \<not> list_all marked (children plain_ptask)"
  using subreaper_reaches_descendants[of 1 plain_ptask] by (simp add: plain_ptask_def Let_def)

end
