(* ===== verification/File_Position.thy ===== *)
theory File_Position
  imports Kernel_Prelude
begin

text \<open>
  Seeking (fs/read_write.c, \<open>vfs_setpos\<close> to \<open>llseek\<close>): the generic implementations of
  \<open>llseek\<close>, which file systems install in their operation tables, and the system calls.

  An offset (\<open>loff_t\<close>) is a 64-bit word; where the code compares it as a signed number the
  model reads it with \<open>sint\<close>, and sums wrap around as in the kernel, which is built so that
  signed overflow wraps. Results are integers, errors negative. Outside code: the lookup of a
  descriptor and the \<open>llseek\<close> operation of a file, which may be one of those below.
\<close>

section \<open>State\<close>

record rfile =
  f_pos :: u64
  f_version :: u64
  f_mode :: u32
  i_size :: u64
  s_maxbytes :: u64

text \<open>Open files by number, and the descriptors of the process.\<close>

record file_table =
  fds :: "u32 \<Rightarrow> nat option"
  files :: "nat \<Rightarrow> rfile"

type_synonym llseek_op = "u64 \<Rightarrow> u32 \<Rightarrow> rfile \<Rightarrow> rfile \<times> int"

abbreviation (input) ENXIO :: int where "ENXIO \<equiv> 6"
abbreviation (input) SEEK_SET :: u32 where "SEEK_SET \<equiv> 0"
abbreviation (input) SEEK_CUR :: u32 where "SEEK_CUR \<equiv> 1"
abbreviation (input) SEEK_END :: u32 where "SEEK_END \<equiv> 2"
abbreviation (input) SEEK_DATA :: u32 where "SEEK_DATA \<equiv> 3"
abbreviation (input) SEEK_HOLE :: u32 where "SEEK_HOLE \<equiv> 4"
abbreviation (input) SEEK_MAX :: u32 where "SEEK_MAX \<equiv> 4"
abbreviation (input) FMODE_LSEEK :: u32 where "FMODE_LSEEK \<equiv> 0x4"
abbreviation (input) FMODE_UNSIGNED_OFFSET :: u32 where "FMODE_UNSIGNED_OFFSET \<equiv> 0x2000"
abbreviation (input) OFFSET_MAX :: u64 where "OFFSET_MAX \<equiv> 0x7fffffffffffffff"

definition unsigned_offsets :: "rfile \<Rightarrow> bool" where
  "unsigned_offsets f \<longleftrightarrow> f_mode f AND FMODE_UNSIGNED_OFFSET \<noteq> 0"

section \<open>Implementations of llseek\<close>

text \<open>The store of a new position, common to two of the functions.\<close>

definition store_pos :: "u64 \<Rightarrow> rfile \<Rightarrow> rfile" where
  "store_pos off f = (if off \<noteq> f_pos f then f\<lparr>f_pos := off, f_version := 0\<rparr> else f)"

definition vfs_setpos :: "u64 \<Rightarrow> u64 \<Rightarrow> rfile \<Rightarrow> rfile \<times> int" where
  "vfs_setpos off maxsize f =
     (if sint off < 0 \<and> \<not> unsigned_offsets f then (f, - EINVAL)
      else if sint off > sint maxsize then (f, - EINVAL)
      else (store_pos off f, sint off))"

definition generic_file_llseek_size :: "u64 \<Rightarrow> u64 \<Rightarrow> llseek_op" where
  "generic_file_llseek_size maxsize eof off whence f =
     (if whence = SEEK_END then vfs_setpos (off + eof) maxsize f
      else if whence = SEEK_CUR
      then (if off = 0 then (f, sint (f_pos f)) else vfs_setpos (f_pos f + off) maxsize f)
      else if whence = SEEK_DATA
      then (if off \<ge> eof then (f, - ENXIO) else vfs_setpos off maxsize f)
      else if whence = SEEK_HOLE
      then (if off \<ge> eof then (f, - ENXIO) else vfs_setpos eof maxsize f)
      else vfs_setpos off maxsize f)"

definition generic_file_llseek :: llseek_op where
  "generic_file_llseek off whence f = generic_file_llseek_size (s_maxbytes f) (i_size f) off whence f"

definition fixed_size_llseek :: "u64 \<Rightarrow> llseek_op" where
  "fixed_size_llseek size0 off whence f =
     (if whence = SEEK_SET \<or> whence = SEEK_CUR \<or> whence = SEEK_END
      then generic_file_llseek_size size0 size0 off whence f else (f, - EINVAL))"

definition no_seek_end_llseek :: llseek_op where
  "no_seek_end_llseek off whence f =
     (if whence = SEEK_SET \<or> whence = SEEK_CUR
      then generic_file_llseek_size OFFSET_MAX 0 off whence f else (f, - EINVAL))"

definition no_seek_end_llseek_size :: "u64 \<Rightarrow> llseek_op" where
  "no_seek_end_llseek_size size0 off whence f =
     (if whence = SEEK_SET \<or> whence = SEEK_CUR
      then generic_file_llseek_size size0 0 off whence f else (f, - EINVAL))"

definition noop_llseek :: llseek_op where
  "noop_llseek off whence f = (f, sint (f_pos f))"

text \<open>The end of \<open>default_llseek\<close>: no upper bound, signed comparisons.\<close>

definition default_setpos :: "u64 \<Rightarrow> rfile \<Rightarrow> rfile \<times> int" where
  "default_setpos off f =
     (if sint off \<ge> 0 \<or> unsigned_offsets f then (store_pos off f, sint off) else (f, - EINVAL))"

definition default_llseek :: llseek_op where
  "default_llseek off whence f =
     (if whence = SEEK_END then default_setpos (off + i_size f) f
      else if whence = SEEK_CUR
      then (if off = 0 then (f, sint (f_pos f)) else default_setpos (off + f_pos f) f)
      else if whence = SEEK_DATA
      then (if sint off \<ge> sint (i_size f) then (f, - ENXIO) else default_setpos off f)
      else if whence = SEEK_HOLE
      then (if sint off \<ge> sint (i_size f) then (f, - ENXIO) else default_setpos (i_size f) f)
      else default_setpos off f)"

section \<open>The calls\<close>

definition vfs_llseek :: "(nat \<Rightarrow> llseek_op) \<Rightarrow> nat \<Rightarrow> u64 \<Rightarrow> u32 \<Rightarrow> file_table \<Rightarrow> file_table \<times> int" where
  "vfs_llseek f_op n off whence s =
     (if f_mode (files s n) AND FMODE_LSEEK = 0 then (s, - ESPIPE)
      else (let (f, res) = f_op n off whence (files s n) in (s\<lparr>files := (files s)(n := f)\<rparr>, res)))"

text \<open>A \<open>loff_t\<close> result always fits the \<open>off_t\<close> of a 64-bit kernel.\<close>

definition ksys_lseek :: "(nat \<Rightarrow> llseek_op) \<Rightarrow> u32 \<Rightarrow> u64 \<Rightarrow> u32 \<Rightarrow> file_table \<Rightarrow> file_table \<times> int" where
  "ksys_lseek f_op fd off whence s =
     (case fds s fd of
        None \<Rightarrow> (s, - EBADF)
      | Some n \<Rightarrow> if whence \<le> SEEK_MAX then vfs_llseek f_op n off whence s else (s, - EINVAL))"

definition sys_lseek :: "(nat \<Rightarrow> llseek_op) \<Rightarrow> u32 \<Rightarrow> u64 \<Rightarrow> u32 \<Rightarrow> file_table \<Rightarrow> file_table \<times> int" where
  "sys_lseek f_op fd off whence s = ksys_lseek f_op fd off whence s"

definition compat_sys_lseek :: "(nat \<Rightarrow> llseek_op) \<Rightarrow> u32 \<Rightarrow> u32 \<Rightarrow> u32 \<Rightarrow> file_table \<Rightarrow> file_table \<times> int" where
  "compat_sys_lseek f_op fd off whence s = ksys_lseek f_op fd (scast off) whence s"

definition sys_llseek :: "uaccess \<Rightarrow> (nat \<Rightarrow> llseek_op) \<Rightarrow> u32 \<Rightarrow> u64 \<Rightarrow> u64 \<Rightarrow> addr \<Rightarrow> u32 \<Rightarrow> file_table \<times> umem
    \<Rightarrow> (file_table \<times> umem) \<times> int" where
  "sys_llseek ua f_op fd offset_high offset_low result whence sm =
     (case sm of (s, m) \<Rightarrow>
        case fds s fd of
          None \<Rightarrow> ((s, m), - EBADF)
        | Some n \<Rightarrow>
            if whence > SEEK_MAX then ((s, m), - EINVAL)
            else (let (s1, off) = vfs_llseek f_op n (push_bit 32 offset_high OR offset_low) whence s
                  in if off \<ge> 0
                     then (let (m1, left) = copy_to_user ua m result (le_bytes (word_of_int off :: u64))
                           in ((s1, m1), if left = 0 then 0 else - EFAULT))
                     else ((s1, m), sint (word_of_int off :: u32))))"

section \<open>lseek on a regular file\<close>

text \<open>
  The specification, on integers without bounds: the target that \<open>whence\<close> and the offset
  denote, and the result.
\<close>

definition seek_target :: "int \<Rightarrow> int \<Rightarrow> int \<Rightarrow> u32 \<Rightarrow> int + int" where
  "seek_target pos sz off whence =
     (if whence = SEEK_SET then Inr off
      else if whence = SEEK_CUR then Inr (pos + off)
      else if whence = SEEK_END then Inr (sz + off)
      else if off < 0 \<or> sz \<le> off then Inl (- ENXIO)
      else Inr (if whence = SEEK_DATA then off else sz))"

definition seek_spec :: "int \<Rightarrow> int \<Rightarrow> int \<Rightarrow> int \<Rightarrow> u32 \<Rightarrow> int" where
  "seek_spec pos sz maxbytes off whence =
     (case seek_target pos sz off whence of
        Inl e \<Rightarrow> e
      | Inr tgt \<Rightarrow> if 0 \<le> tgt \<and> tgt \<le> maxbytes then tgt else - EINVAL)"

text \<open>A position and a size that a file system keeps: not negative, at most the maximum.\<close>

definition rfile_ok :: "rfile \<Rightarrow> bool" where
  "rfile_ok f \<longleftrightarrow> 0 \<le> sint (f_pos f) \<and> sint (f_pos f) \<le> sint (s_maxbytes f)
     \<and> 0 \<le> sint (i_size f) \<and> sint (i_size f) \<le> sint (s_maxbytes f)"

lemma sint_range_64: "- (2 ^ 63) \<le> sint (x :: u64)" "sint (x :: u64) < 2 ^ 63"
  using sint_greater_eq[of x] sint_less[of x] by simp_all

text \<open>Adding to a non-negative number can only wrap into the negative numbers.\<close>

lemma sint_add_64:
  assumes "0 \<le> sint (y :: u64)"
  shows "sint (x + y) = (if sint x + sint y < 2 ^ 63 then sint x + sint y else sint x + sint y - 2 ^ 64)"
proof -
  have r: "- (2 ^ 63) \<le> sint x + sint y" "sint x + sint y < 2 ^ 64"
    using sint_range_64[of x] sint_range_64[of y] assms by simp_all
  have "sint (x + y) = (sint x + sint y + 2 ^ 63) mod 2 ^ 64 - 2 ^ 63"
    by (simp add: sint_word_ariths(1) signed_take_bit_eq_take_bit_shift take_bit_eq_mod)
  moreover have "(sint x + sint y + 2 ^ 63) mod 2 ^ 64 =
      (if sint x + sint y < 2 ^ 63 then sint x + sint y + 2 ^ 63 else sint x + sint y + 2 ^ 63 - 2 ^ 64)"
  proof (cases "sint x + sint y < 2 ^ 63")
    case True
    with r show ?thesis by (simp add: mod_pos_pos_trivial)
  next
    case False
    have "(sint x + sint y + 2 ^ 63) mod 2 ^ 64 = (sint x + sint y + 2 ^ 63 - 2 ^ 64) mod 2 ^ 64"
      by (rule minus_mod_self2[symmetric])
    also have "\<dots> = sint x + sint y + 2 ^ 63 - 2 ^ 64"
      by (rule mod_pos_pos_trivial) (use False r in simp_all)
    finally show ?thesis using False by simp
  qed
  ultimately show ?thesis by simp
qed

lemma vfs_setpos_signed:
  assumes "\<not> unsigned_offsets f"
  shows "vfs_setpos off maxsize f =
    (if 0 \<le> sint off \<and> sint off \<le> sint maxsize then (store_pos off f, sint off) else (f, - EINVAL))"
  using assms by (simp add: vfs_setpos_def)

lemma f_pos_store [simp]: "f_pos (store_pos off f) = off"
  by (simp add: store_pos_def)

lemma unsigned_ge_64: "0 \<le> sint (e :: u64) \<Longrightarrow> x \<ge> e \<longleftrightarrow> sint x < 0 \<or> sint e \<le> sint x"
  using uint_lt2p[of x] uint_lt2p[of e] by (auto simp: word_le_def sint_64)

lemma whence_cases:
  assumes "whence \<le> SEEK_MAX"
  shows "whence = SEEK_SET \<or> whence = SEEK_CUR \<or> whence = SEEK_END \<or> whence = SEEK_DATA \<or> whence = SEEK_HOLE"
proof -
  have "unat whence \<le> 4" using assms by (simp add: word_le_nat_alt)
  then have "unat whence = 0 \<or> unat whence = 1 \<or> unat whence = 2 \<or> unat whence = 3 \<or> unat whence = 4" by linarith
  then show ?thesis by (simp add: word_unat_eq_iff)
qed

text \<open>The wrapped sum and the exact sum pass the same bounds.\<close>

lemma seek_add:
  assumes "0 \<le> sint (y :: u64)"
  shows "(if 0 \<le> sint y + sint off \<and> sint y + sint off \<le> sint (b :: u64) then sint y + sint off else - EINVAL)
    = (if 0 \<le> sint (off + y) \<and> sint (off + y) \<le> sint b then sint (off + y) else - EINVAL)"
proof (cases "sint off + sint y < 2 ^ 63")
  case True
  then show ?thesis using sint_add_64[OF assms, of off] by (simp add: add.commute)
next
  case False
  then have "\<not> sint y + sint off \<le> sint b" using sint_range_64(2)[of b] by simp
  moreover have "\<not> 0 \<le> sint (off + y)"
    using False sint_add_64[OF assms, of off] sint_range_64(2)[of off] sint_range_64(2)[of y] by simp
  ultimately show ?thesis by simp
qed

text \<open>What a seek does to the file, given its result.\<close>

definition seek_done :: "rfile \<Rightarrow> rfile \<Rightarrow> int \<Rightarrow> bool" where
  "seek_done f f' r \<longleftrightarrow>
     (if 0 \<le> r then sint (f_pos f') = r \<and> f' = f\<lparr>f_pos := f_pos f', f_version := f_version f'\<rparr> else f' = f)"

lemma seek_outcome:
  assumes "(f', r) = (if 0 \<le> sint t \<and> sint t \<le> sint b then (store_pos t f, sint t) else (f, - EINVAL))"
    and "spec = (if 0 \<le> sint t \<and> sint t \<le> sint b then sint t else - EINVAL)"
  shows "r = spec \<and> seek_done f f' r"
  using assms by (cases "0 \<le> sint t \<and> sint t \<le> sint b") (auto simp: store_pos_def seek_done_def)

lemma generic_llseek_spec:
  assumes "\<not> unsigned_offsets f" and "rfile_ok f" and "whence \<le> SEEK_MAX"
    and "generic_file_llseek off whence f = (f', r)"
  shows "r = seek_spec (sint (f_pos f)) (sint (i_size f)) (sint (s_maxbytes f)) (sint off) whence \<and> seek_done f f' r"
proof -
  note set = vfs_setpos_signed[OF assms(1)]
  have ok: "0 \<le> sint (f_pos f)" "sint (f_pos f) \<le> sint (s_maxbytes f)" "0 \<le> sint (i_size f)" "sint (i_size f) \<le> sint (s_maxbytes f)"
    using assms(2) by (simp_all add: rfile_ok_def)
  have run: "generic_file_llseek_size (s_maxbytes f) (i_size f) off whence f = (f', r)"
    using assms(4) by (simp only: generic_file_llseek_def)
  from whence_cases[OF assms(3)] show ?thesis
  proof (elim disjE)
    assume w: "whence = SEEK_SET"
    show ?thesis by (rule seek_outcome[where t = off]) (use run set in \<open>simp_all add: w generic_file_llseek_size_def seek_spec_def seek_target_def\<close>)
  next
    assume w: "whence = SEEK_END"
    show ?thesis
    proof (rule seek_outcome[where t = "off + i_size f"])
      show "(f', r) = (if 0 \<le> sint (off + i_size f) \<and> sint (off + i_size f) \<le> sint (s_maxbytes f)
          then (store_pos (off + i_size f) f, sint (off + i_size f)) else (f, - EINVAL))"
        using run set by (simp add: w generic_file_llseek_size_def)
    qed (simp add: w seek_spec_def seek_target_def seek_add[OF ok(3)])
  next
    assume w: "whence = SEEK_CUR"
    show ?thesis
    proof (cases "off = 0")
      case True
      then show ?thesis using run ok by (auto simp: w generic_file_llseek_size_def seek_spec_def seek_target_def seek_done_def)
    next
      case False
      show ?thesis
      proof (rule seek_outcome[where t = "off + f_pos f"])
        show "(f', r) = (if 0 \<le> sint (off + f_pos f) \<and> sint (off + f_pos f) \<le> sint (s_maxbytes f)
            then (store_pos (off + f_pos f) f, sint (off + f_pos f)) else (f, - EINVAL))"
          using run set False by (simp add: w generic_file_llseek_size_def add.commute)
      qed (simp add: w seek_spec_def seek_target_def seek_add[OF ok(1)])
    qed
  next
    assume w: "whence = SEEK_DATA"
    show ?thesis
    proof (cases "i_size f \<le> off")
      case True
      then show ?thesis using run unsigned_ge_64[OF ok(3), of off]
        by (auto simp: w generic_file_llseek_size_def seek_spec_def seek_target_def seek_done_def)
    next
      case False
      show ?thesis by (rule seek_outcome[where t = off]) (use run set False unsigned_ge_64[OF ok(3), of off] in
          \<open>simp_all add: w generic_file_llseek_size_def seek_spec_def seek_target_def\<close>)
    qed
  next
    assume w: "whence = SEEK_HOLE"
    show ?thesis
    proof (cases "i_size f \<le> off")
      case True
      then show ?thesis using run unsigned_ge_64[OF ok(3), of off]
        by (auto simp: w generic_file_llseek_size_def seek_spec_def seek_target_def seek_done_def)
    next
      case False
      show ?thesis by (rule seek_outcome[where t = "i_size f"]) (use run set False unsigned_ge_64[OF ok(3), of off] in
          \<open>simp_all add: w generic_file_llseek_size_def seek_spec_def seek_target_def\<close>)
    qed
  qed
qed

text \<open>
  C12. \<open>lseek\<close> on a regular file implements its specification on unbounded integers: the
  result is the target that \<open>whence\<close> denotes if it lies between 0 and the largest size of the
  file system and \<open>-EINVAL\<close> otherwise, or \<open>-ENXIO\<close> for data or holes past the end, although
  the sums are computed in wrapping 64-bit arithmetic. The new position is the result; a
  failing call changes nothing, and no other file changes.
\<close>

theorem lseek_refines:
  assumes "fds s fd = Some n" and "f_op n = generic_file_llseek" and "f_mode (files s n) AND FMODE_LSEEK \<noteq> 0"
    and "\<not> unsigned_offsets (files s n)" and "rfile_ok (files s n)" and "whence \<le> SEEK_MAX"
    and "sys_lseek f_op fd off whence s = (s', r)"
  shows "r = seek_spec (sint (f_pos (files s n))) (sint (i_size (files s n))) (sint (s_maxbytes (files s n))) (sint off) whence
    \<and> (if 0 \<le> r then sint (f_pos (files s' n)) = r else s' = s)
    \<and> rfile_ok (files s' n) \<and> fds s' = fds s \<and> (\<forall>k. k \<noteq> n \<longrightarrow> files s' k = files s k)"
proof -
  obtain f' r' where g: "generic_file_llseek off whence (files s n) = (f', r')" by (rule prod.exhaust)
  have run: "s' = s\<lparr>files := (files s)(n := f')\<rparr>" "r = r'"
    using assms(1,2,3,6,7) g by (simp_all add: sys_lseek_def ksys_lseek_def vfs_llseek_def)
  note sp = generic_llseek_spec[OF assms(4,5,6) g]
  have "r' \<le> sint (s_maxbytes (files s n))" if "0 \<le> r'"
    using sp that by (auto simp: seek_spec_def seek_target_def split: sum.splits if_splits)
  then have "rfile_ok f'"
    using sp assms(5) unfolding seek_done_def rfile_ok_def by (metis rfile.simps(1,2,4,5) rfile.update_convs(1,2) rfile.surjective)
  then show ?thesis
    using sp run by (auto simp: seek_done_def)
qed

definition plain_files :: file_table where
  "plain_files = \<lparr>fds = (\<lambda>fd. if fd = 3 then Some 1 else None),
     files = (\<lambda>_. \<lparr>f_pos = 10, f_version = 7, f_mode = 0x2001F, i_size = 100, s_maxbytes = 0x7fffffffffffffff\<rparr>)\<rparr>"

theorem lseek_refines_witness:
  "snd (sys_lseek (\<lambda>_. generic_file_llseek) 3 (- 4) SEEK_END plain_files) = 96
   \<and> sint (f_pos (files (fst (sys_lseek (\<lambda>_. generic_file_llseek) 3 (- 4) SEEK_END plain_files)) 1)) = 96"
proof -
  obtain s' r where r: "sys_lseek (\<lambda>_. generic_file_llseek) 3 (- 4) SEEK_END plain_files = (s', r)" by (rule prod.exhaust)
  have ok: "\<not> unsigned_offsets (files plain_files 1)" "rfile_ok (files plain_files 1)"
    by (simp_all add: plain_files_def rfile_ok_def unsigned_offsets_def)
  have fd: "fds plain_files 3 = Some 1" "f_mode (files plain_files 1) AND FMODE_LSEEK \<noteq> 0"
    by (simp_all add: plain_files_def)
  have le: "SEEK_END \<le> SEEK_MAX" by simp
  note sp = lseek_refines[OF fd(1) refl fd(2) ok le r]
  from sp[THEN conjunct1] have "r = 96" by (simp add: plain_files_def seek_spec_def seek_target_def)
  with sp[THEN conjunct2, THEN conjunct1] r show ?thesis by simp
qed

end
