(* ===== verification/Syscall_Usage.thy ===== *)
theory Syscall_Usage
  imports Kernel_Prelude
begin

text \<open>
  System call 552, \<open>luis_track_syscall_usage\<close>, and the hook \<open>track_syscall\<close> that the
  modified \<open>read\<close>, \<open>write\<close>, \<open>openat\<close> and \<open>clone\<close> call (kernel/usac/syscall2.c): a table
  of 1024 counters, allocated at the first query, indexed by system call number.

  Outside code: the clock \<open>ktime_get_real_ts64\<close> is the argument \<open>now\<close> of a call, and whether
  \<open>kzalloc\<close> can provide a block of a given size is the argument \<open>kzalloc\<close>; a block it
  provides is zeroed.
\<close>

section \<open>State and operations\<close>

record timespec64 =
  tv_sec :: u64
  tv_nsec :: u64

record syscall_usage =
  count :: u64
  time_last_used :: timespec64

text \<open>The static pointer \<open>syscall_counters\<close>: \<open>None\<close> is the null pointer.\<close>

record usage_state =
  syscall_counters :: "syscall_usage list option"

abbreviation MAX_SYS_CALLS :: nat where "MAX_SYS_CALLS \<equiv> 1024"

text \<open>The size of one table entry: a counter and a time stamp of two 64-bit fields.\<close>

abbreviation sizeof_syscall_usage :: nat where "sizeof_syscall_usage \<equiv> 24"

definition zero_usage :: syscall_usage where
  "zero_usage = \<lparr>count = 0, time_last_used = \<lparr>tv_sec = 0, tv_nsec = 0\<rparr>\<rparr>"

definition usage_bytes :: "syscall_usage \<Rightarrow> u8 list" where
  "usage_bytes u = le_bytes (count u) @ le_bytes (tv_sec (time_last_used u)) @
     le_bytes (tv_nsec (time_last_used u))"

definition read_usage :: "u8 list \<Rightarrow> syscall_usage" where
  "read_usage bs = \<lparr>count = le_word (field 0 8 bs),
     time_last_used = \<lparr>tv_sec = le_word (field 8 8 bs), tv_nsec = le_word (field 16 8 bs)\<rparr>\<rparr>"

definition init_syscall_counters :: "(nat \<Rightarrow> bool) \<Rightarrow> usage_state \<Rightarrow> usage_state \<times> int" where
  "init_syscall_counters kzalloc s =
     (if kzalloc (sizeof_syscall_usage * MAX_SYS_CALLS)
      then (s\<lparr>syscall_counters := Some (replicate MAX_SYS_CALLS zero_usage)\<rparr>, 0)
      else (s\<lparr>syscall_counters := None\<rparr>, - ENOMEM))"

text \<open>The system call: lines 88 to 92 set the table up, lines 95 to 99 copy it out.\<close>

definition sys_luis_track_syscall_usage ::
  "uaccess \<Rightarrow> (nat \<Rightarrow> bool) \<Rightarrow> addr \<Rightarrow> usage_state \<times> umem \<Rightarrow> (usage_state \<times> umem) \<times> int" where
  "sys_luis_track_syscall_usage ua kzalloc estatic = (\<lambda>(s, m).
     (case (case syscall_counters s of
              None \<Rightarrow> (let (s1, r) = init_syscall_counters kzalloc s
                        in if r \<noteq> 0 then (s1, None) else (s1, syscall_counters s1))
            | Some cs \<Rightarrow> (s, Some cs)) of
        (s1, None) \<Rightarrow> ((s1, m), - ENOMEM)
      | (s1, Some cs) \<Rightarrow>
          (let (m', left) = copy_to_user ua m estatic (concat (map usage_bytes cs))
           in if left \<noteq> 0 then ((s1, m'), - EFAULT) else ((s1, m'), 0))))"

text \<open>
  The hook. The guard tests the null pointer and the upper bound only, so a negative
  number would index before the array: that access is the fault.
\<close>

definition track_syscall :: "timespec64 \<Rightarrow> int \<Rightarrow> usage_state \<Rightarrow> kfault + usage_state" where
  "track_syscall now syscall_id s =
     (case syscall_counters s of
        None \<Rightarrow> Inr s
      | Some cs \<Rightarrow>
          if syscall_id \<ge> int MAX_SYS_CALLS then Inr s
          else if syscall_id < 0 then Inl (OutOfBounds syscall_id)
          else (let i = nat syscall_id; c = cs ! i
                in Inr (s\<lparr>syscall_counters :=
                          Some (cs[i := c\<lparr>count := count c + 1, time_last_used := now\<rparr>])\<rparr>)))"

text \<open>The numbers under which the callers report themselves (syscall_64.tbl).\<close>

abbreviation NR_read :: int where "NR_read \<equiv> 0"
abbreviation NR_write :: int where "NR_write \<equiv> 1"
abbreviation NR_clone :: int where "NR_clone \<equiv> 56"
abbreviation NR_openat :: int where "NR_openat \<equiv> 257"

section \<open>Invariant\<close>

text \<open>The table, once allocated, has exactly \<open>MAX_SYS_CALLS\<close> entries.\<close>

definition usage_inv :: "usage_state \<Rightarrow> bool" where
  "usage_inv s \<longleftrightarrow> (case syscall_counters s of None \<Rightarrow> True | Some cs \<Rightarrow> length cs = MAX_SYS_CALLS)"

text \<open>The counter of a system call number, if the table exists and has such an entry.\<close>

definition hits :: "usage_state \<Rightarrow> int \<Rightarrow> u64 option" where
  "hits s i = (case syscall_counters s of None \<Rightarrow> None
     | Some cs \<Rightarrow> if 0 \<le> i \<and> i < int MAX_SYS_CALLS then Some (count (cs ! nat i)) else None)"

lemma length_usage_bytes [simp]: "length (usage_bytes u) = 24"
  by (simp add: usage_bytes_def)

lemma read_usage_bytes [simp]: "read_usage (usage_bytes u) = u"
  by (simp add: read_usage_def usage_bytes_def layout_simps)

lemma length_concat_usage [simp]: "length (concat (map usage_bytes cs)) = 24 * length cs"
  by (induction cs) auto

lemma field_concat_usage:
  "i < length cs \<Longrightarrow> field (24 * i) 24 (concat (map usage_bytes cs)) = usage_bytes (cs ! i)"
proof (induction cs arbitrary: i)
  case Nil
  then show ?case by simp
next
  case (Cons c cs)
  then show ?case
    by (cases i) (simp_all add: field_append_left field_append_right field_all)
qed

lemma init_syscall_counters_inv: "usage_inv (fst (init_syscall_counters kzalloc s))"
  by (simp add: init_syscall_counters_def usage_inv_def)

lemma track_syscall_inv:
  "usage_inv s \<Longrightarrow> track_syscall now i s = Inr s' \<Longrightarrow> usage_inv s'"
  by (auto simp: track_syscall_def usage_inv_def Let_def split: option.splits if_splits)

lemma track_syscall_total: "0 \<le> i \<Longrightarrow> \<exists>s'. track_syscall now i s = Inr s'"
  by (auto simp: track_syscall_def Let_def split: option.splits)

lemma track_syscall_hits:
  assumes "usage_inv s" and "0 \<le> i" and "track_syscall now i s = Inr s'"
  shows "hits s' j = (if j = i then map_option (\<lambda>c. c + 1) (hits s j) else hits s j)"
  using assms
  by (auto simp: track_syscall_def hits_def usage_inv_def Let_def nth_list_update
      split: option.splits if_splits)

lemma sys_usage_inv:
  "usage_inv s \<Longrightarrow> usage_inv (fst (fst (sys_luis_track_syscall_usage ua kzalloc p (s, m))))"
  by (auto simp: sys_luis_track_syscall_usage_def init_syscall_counters_def usage_inv_def
      split: option.splits prod.splits if_splits)

section \<open>What the hook promises its callers\<close>

text \<open>
  The interface between the table and the system calls that report to it: a call with a
  number that is not negative always returns, keeps the table well formed, and adds one to
  that number's counter and to no other.
\<close>

locale syscall_tracker =
  fixes track :: "'t \<Rightarrow> int \<Rightarrow> 's \<Rightarrow> kfault + 's"
    and valid :: "'s \<Rightarrow> bool"
    and hits_of :: "'s \<Rightarrow> int \<Rightarrow> u64 option"
  assumes track_total: "0 \<le> i \<Longrightarrow> \<exists>s'. track t i s = Inr s'"
    and track_valid: "valid s \<Longrightarrow> track t i s = Inr s' \<Longrightarrow> valid s'"
    and track_hits: "valid s \<Longrightarrow> 0 \<le> i \<Longrightarrow> track t i s = Inr s' \<Longrightarrow>
      hits_of s' j = (if j = i then map_option (\<lambda>c. c + 1) (hits_of s j) else hits_of s j)"
begin

fun track_all :: "('t \<times> int) list \<Rightarrow> 's \<Rightarrow> kfault + 's" where
  "track_all [] s = Inr s"
| "track_all ((t, i) # es) s = (case track t i s of Inl f \<Rightarrow> Inl f | Inr s' \<Rightarrow> track_all es s')"

lemma track_all_counts:
  assumes "valid s" and "\<forall>(t, i) \<in> set es. 0 \<le> i"
  shows "\<exists>s'. track_all es s = Inr s' \<and> valid s' \<and>
    (\<forall>j. hits_of s' j = map_option (\<lambda>c. c + of_nat (count_list (map snd es) j)) (hits_of s j))"
  using assms
proof (induction es arbitrary: s)
  case Nil
  then show ?case by (simp add: option.map_ident)
next
  case (Cons e es)
  obtain t i where e: "e = (t, i)" by fastforce
  with Cons.prems obtain s1 where s1: "track t i s = Inr s1" "valid s1"
    using track_total track_valid by fastforce
  with Cons.prems e obtain s' where s': "track_all es s1 = Inr s'" "valid s'"
    "\<forall>j. hits_of s' j = map_option (\<lambda>c. c + of_nat (count_list (map snd es) j)) (hits_of s1 j)"
    using Cons.IH[of s1] by auto
  have "hits_of s' j = map_option (\<lambda>c. c + of_nat (count_list (map snd (e # es)) j)) (hits_of s j)" for j
    using track_hits[OF Cons.prems(1) _ s1(1), of j] Cons.prems(2) s'(3) e
    by (auto simp: option.map_comp o_def algebra_simps)
  with s1 s' e show ?case by auto
qed

end

interpretation usage: syscall_tracker track_syscall usage_inv hits
  by unfold_locales (use track_syscall_total track_syscall_inv track_syscall_hits in blast)+

section \<open>Histories of queries and tracked calls\<close>

datatype usage_event = Query addr bool | Track timespec64 int

fun usage_step :: "uaccess \<Rightarrow> usage_event \<Rightarrow> usage_state \<times> umem \<Rightarrow> kfault + (usage_state \<times> umem)" where
  "usage_step ua (Query p ok) x = Inr (fst (sys_luis_track_syscall_usage ua (\<lambda>_. ok) p x))"
| "usage_step ua (Track t i) (s, m) = map_sum id (\<lambda>s'. (s', m)) (track_syscall t i s)"

fun usage_run :: "uaccess \<Rightarrow> usage_event list \<Rightarrow> usage_state \<times> umem \<Rightarrow> kfault + (usage_state \<times> umem)" where
  "usage_run ua [] x = Inr x"
| "usage_run ua (e # es) x = (case usage_step ua e x of Inl f \<Rightarrow> Inl f | Inr y \<Rightarrow> usage_run ua es y)"

fun tracked :: "usage_event list \<Rightarrow> int \<Rightarrow> nat" where
  "tracked [] i = 0"
| "tracked (Track t j # es) i = (if i = j then 1 else 0) + tracked es i"
| "tracked (Query p ok # es) i = tracked es i"

fun ids_ok :: "usage_event list \<Rightarrow> bool" where
  "ids_ok [] = True"
| "ids_ok (Track t j # es) = (0 \<le> j \<and> ids_ok es)"
| "ids_ok (Query p ok # es) = ids_ok es"

lemma query_keeps_hits:
  "hits s i = Some c \<Longrightarrow>
   hits (fst (fst (sys_luis_track_syscall_usage ua kzalloc p (s, m)))) i = Some c"
  by (auto simp: sys_luis_track_syscall_usage_def hits_def split: option.splits prod.splits if_splits)

lemma usage_step_hits:
  assumes "usage_inv s" and "ids_ok [e]" and "hits s i = Some c"
  shows "\<exists>s' m'. usage_step ua e (s, m) = Inr (s', m') \<and> usage_inv s' \<and>
    hits s' i = Some (c + of_nat (tracked [e] i))"
proof (cases e)
  case (Query p ok)
  then show ?thesis
    using assms sys_usage_inv[of s ua "\<lambda>_. ok" p m] query_keeps_hits[of s i c ua "\<lambda>_. ok" p m]
    by (cases "fst (sys_luis_track_syscall_usage ua (\<lambda>_. ok) p (s, m))") auto
next
  case (Track t j)
  with assms obtain s' where "track_syscall t j s = Inr s'"
    using track_syscall_total by fastforce
  then show ?thesis
    using assms Track usage.track_hits[of s j t s' i] usage.track_valid[of s t j s'] by auto
qed



text \<open>
  C20. A successful query hands the whole table to the caller: entry \<open>i\<close> of the user buffer
  decodes to counter \<open>i\<close> of the kernel table, for all 1024 entries, and the table itself is
  unchanged if it already existed and zeroed if it was just allocated.
\<close>

theorem usage_query_delivers:
  assumes "uaccess_ok ua" and "usage_inv s"
    and "sys_luis_track_syscall_usage ua kzalloc p (s, m) = ((s', m'), 0)"
  shows "\<exists>cs. syscall_counters s' = Some cs
     \<and> cs = (case syscall_counters s of None \<Rightarrow> replicate MAX_SYS_CALLS zero_usage | Some cs0 \<Rightarrow> cs0)
     \<and> (\<forall>i < MAX_SYS_CALLS. read_usage (field (24 * i) 24 (mem_read m' p 24576)) = cs ! i)"
proof -
  define cs where "cs = (case syscall_counters s of None \<Rightarrow> replicate MAX_SYS_CALLS zero_usage | Some cs0 \<Rightarrow> cs0)"
  have len: "length cs = MAX_SYS_CALLS"
    using assms(2) by (auto simp: cs_def usage_inv_def split: option.splits)
  have s': "syscall_counters s' = Some cs"
    and c: "copy_to_user ua m p (concat (map usage_bytes cs)) = (m', 0)"
    using assms(3)
    by (auto simp: sys_luis_track_syscall_usage_def init_syscall_counters_def cs_def
        split: option.splits prod.splits if_splits)
  have m': "m' = mem_write m p (concat (map usage_bytes cs))"
    using copy_to_user_success[OF assms(1) c] .
  have "mem_read m' p 24576 = concat (map usage_bytes cs)"
    using len by (simp add: m')
  then have "\<forall>i < MAX_SYS_CALLS. read_usage (field (24 * i) 24 (mem_read m' p 24576)) = cs ! i"
    using len by (simp add: field_concat_usage)
  with s' show ?thesis by (auto simp: cs_def)
qed

theorem usage_query_delivers_witness:
  "let r = sys_luis_track_syscall_usage (flat_uaccess (\<lambda>_. True)) (\<lambda>_. True) 4096
             (\<lparr>syscall_counters = None\<rparr>, \<lambda>_. 1)
   in snd r = 0 \<and> read_usage (field (24 * 7) 24 (mem_read (snd (fst r)) 4096 24576)) = zero_usage"
proof -
  let ?s = "\<lparr>syscall_counters = None\<rparr>"
  let ?r = "sys_luis_track_syscall_usage (flat_uaccess (\<lambda>_. True)) (\<lambda>_. True) 4096 (?s, \<lambda>_. 1)"
  have r: "?r = ((fst (fst ?r), snd (fst ?r)), 0)"
    by (simp add: sys_luis_track_syscall_usage_def init_syscall_counters_def flat_uaccess_def
        list_all_iff split: prod.splits)
  have inv: "usage_inv ?s" by (simp add: usage_inv_def)
  obtain cs where "cs = replicate MAX_SYS_CALLS zero_usage"
    "\<forall>i < MAX_SYS_CALLS. read_usage (field (24 * i) 24 (mem_read (snd (fst ?r)) 4096 24576)) = cs ! i"
    using usage_query_delivers[OF flat_uaccess_ok inv r] by auto
  moreover have "(7::nat) < MAX_SYS_CALLS" by simp
  ultimately have "read_usage (field (24 * 7) 24 (mem_read (snd (fst ?r)) 4096 24576)) = zero_usage"
    by (metis nth_replicate)
  moreover have "snd ?r = 0" using r by (metis snd_conv)
  ultimately show ?thesis by (simp only: Let_def)
qed

text \<open>
  The hook faults exactly when the table exists and the number is negative: the guard's
  comparison with \<open>MAX_SYS_CALLS\<close> is signed and has no lower bound. None of the four numbers
  its callers pass can reach the fault.
\<close>

theorem track_syscall_fault_iff:
  "((\<exists>f. track_syscall now i s = Inl f) \<longleftrightarrow> syscall_counters s \<noteq> None \<and> i < 0)
   \<and> (\<exists>s'. track_syscall now NR_read s = Inr s') \<and> (\<exists>s'. track_syscall now NR_write s = Inr s')
   \<and> (\<exists>s'. track_syscall now NR_clone s = Inr s') \<and> (\<exists>s'. track_syscall now NR_openat s = Inr s')"
  using track_syscall_total[of NR_read] track_syscall_total[of NR_write]
    track_syscall_total[of NR_clone] track_syscall_total[of NR_openat]
  by (auto simp: track_syscall_def Let_def split: option.splits if_splits)

end
