(* ===== verification/Read_Write.thy ===== *)
theory Read_Write
  imports File_Position Syscall_Usage
begin

text \<open>
  Reading and writing (fs/read_write.c, \<open>rw_verify_area\<close> to \<open>pwrite64\<close>), with the hook
  \<open>track_syscall\<close> that the repository adds to \<open>read\<close> and \<open>write\<close>.

  Outside code, the record \<open>rw_env\<close>: permission hooks, the test of user addresses, and the
  operations of a file, which act on user memory and on the state of the file system, of a
  type of its own. An operation with a position returns its new value.
\<close>

section \<open>State\<close>

type_synonym 'fs world = "umem \<times> 'fs"
type_synonym 'fs fop = "addr \<Rightarrow> u64 \<Rightarrow> u64 option \<Rightarrow> 'fs world \<Rightarrow> 'fs world \<times> u64 \<times> int"
type_synonym 'fs iter_op = "addr \<Rightarrow> u64 \<Rightarrow> u64 \<Rightarrow> 'fs world \<Rightarrow> 'fs world \<times> u64 \<times> int"

record 'fs rw_env =
  now :: timespec64
  security_file_permission :: "nat \<Rightarrow> bool \<Rightarrow> int"
  fsnotify_file_area_perm :: "nat \<Rightarrow> bool \<Rightarrow> u64 option \<Rightarrow> u64 \<Rightarrow> int"
  access_ok :: "addr \<Rightarrow> u64 \<Rightarrow> bool"
  op_read :: "nat \<Rightarrow> 'fs fop option"
  op_read_iter :: "nat \<Rightarrow> 'fs iter_op option"
  op_write :: "nat \<Rightarrow> 'fs fop option"
  op_write_iter :: "nat \<Rightarrow> 'fs iter_op option"

text \<open>The open files, the world, the I/O accounting of the task, and the usage counters.\<close>

record 'fs rw_state =
  table :: file_table
  world :: "'fs world"
  rchar :: u64
  wchar :: u64
  syscr :: u64
  syscw :: u64
  usage :: usage_state

text \<open>A stop of the kernel: a fault of the hook, or \<open>BUG_ON\<close>.\<close>

datatype kstop = Fault kfault | Bug

abbreviation (input) FMODE_READ :: u32 where "FMODE_READ \<equiv> 0x1"
abbreviation (input) FMODE_WRITE :: u32 where "FMODE_WRITE \<equiv> 0x2"
abbreviation (input) FMODE_PREAD :: u32 where "FMODE_PREAD \<equiv> 0x8"
abbreviation (input) FMODE_PWRITE :: u32 where "FMODE_PWRITE \<equiv> 0x10"
abbreviation (input) FMODE_CAN_READ :: u32 where "FMODE_CAN_READ \<equiv> 0x20000"
abbreviation (input) FMODE_CAN_WRITE :: u32 where "FMODE_CAN_WRITE \<equiv> 0x40000"
abbreviation (input) FMODE_STREAM :: u32 where "FMODE_STREAM \<equiv> 0x200000"
abbreviation (input) MAX_RW_COUNT :: u64 where "MAX_RW_COUNT \<equiv> 0x7ffff000"
abbreviation (input) EIOCBQUEUED :: int where "EIOCBQUEUED \<equiv> 529"

section \<open>Checks\<close>

definition rw_verify_area :: "'fs rw_env \<Rightarrow> bool \<Rightarrow> nat \<Rightarrow> rfile \<Rightarrow> u64 option \<Rightarrow> u64 \<Rightarrow> int" where
  "rw_verify_area env is_write n f ppos cnt =
     (if sint cnt < 0 then - EINVAL
      else (let bad = (case ppos of
                  None \<Rightarrow> 0
                | Some pos \<Rightarrow>
                    if sint pos < 0 then
                      (if \<not> unsigned_offsets f then - EINVAL
                       else if cnt \<ge> - pos then - EOVERFLOW else 0)
                    else if sint (pos + cnt) < 0 then
                      (if \<not> unsigned_offsets f then - EINVAL else 0)
                    else 0)
            in if bad \<noteq> 0 then bad
               else (let ret = security_file_permission env n is_write
                     in if ret \<noteq> 0 then ret else fsnotify_file_area_perm env n is_write ppos cnt)))"

text \<open>\<open>*ppos\<close>, where there is a position.\<close>

definition pos_val :: "u64 option \<Rightarrow> u64" where
  "pos_val ppos = (case ppos of None \<Rightarrow> 0 | Some p \<Rightarrow> p)"

section \<open>Reading\<close>

definition new_sync_read :: "'fs iter_op \<Rightarrow> addr \<Rightarrow> u64 \<Rightarrow> u64 option \<Rightarrow> 'fs world \<Rightarrow> kstop + 'fs world \<times> u64 \<times> int" where
  "new_sync_read it buf len ppos w =
     (let (w1, ki_pos, ret) = it buf len (pos_val ppos) w
      in if ret = - EIOCBQUEUED then Inl Bug
         else Inr (w1, if ppos \<noteq> None then ki_pos else pos_val ppos, ret))"

definition call_read :: "'fs rw_env \<Rightarrow> nat \<Rightarrow> addr \<Rightarrow> u64 \<Rightarrow> u64 option \<Rightarrow> 'fs world \<Rightarrow> kstop + 'fs world \<times> u64 \<times> int" where
  "call_read env n buf cnt ppos w =
     (case op_read env n of
        Some rd \<Rightarrow> Inr (rd buf cnt ppos w)
      | None \<Rightarrow> (case op_read_iter env n of
                  Some it \<Rightarrow> new_sync_read it buf cnt ppos w
                | None \<Rightarrow> Inr (w, pos_val ppos, - EINVAL)))"

definition account_read :: "int \<Rightarrow> 'fs rw_state \<Rightarrow> 'fs rw_state" where
  "account_read ret s = (let s1 = (if ret > 0 then s\<lparr>rchar := rchar s + of_int ret\<rparr> else s) in s1\<lparr>syscr := syscr s1 + 1\<rparr>)"

definition vfs_read :: "'fs rw_env \<Rightarrow> nat \<Rightarrow> addr \<Rightarrow> u64 \<Rightarrow> u64 option \<Rightarrow> 'fs rw_state \<Rightarrow> kstop + 'fs rw_state \<times> u64 \<times> int" where
  "vfs_read env n buf cnt ppos s =
     (let f = files (table s) n
      in if f_mode f AND FMODE_READ = 0 then Inr (s, pos_val ppos, - EBADF)
         else if f_mode f AND FMODE_CAN_READ = 0 then Inr (s, pos_val ppos, - EINVAL)
         else if \<not> access_ok env buf cnt then Inr (s, pos_val ppos, - EFAULT)
         else (let ret = rw_verify_area env False n f ppos cnt
               in if ret \<noteq> 0 then Inr (s, pos_val ppos, ret)
                  else (let cnt1 = (if cnt > MAX_RW_COUNT then MAX_RW_COUNT else cnt)
                        in case call_read env n buf cnt1 ppos (world s) of
                             Inl k \<Rightarrow> Inl k
                           | Inr (w, pos, ret) \<Rightarrow> Inr (account_read ret (s\<lparr>world := w\<rparr>), pos, ret))))"

section \<open>Writing\<close>

definition new_sync_write :: "'fs iter_op \<Rightarrow> addr \<Rightarrow> u64 \<Rightarrow> u64 option \<Rightarrow> 'fs world \<Rightarrow> kstop + 'fs world \<times> u64 \<times> int" where
  "new_sync_write it buf len ppos w =
     (let (w1, ki_pos, ret) = it buf len (pos_val ppos) w
      in if ret = - EIOCBQUEUED then Inl Bug
         else Inr (w1, if ret > 0 \<and> ppos \<noteq> None then ki_pos else pos_val ppos, ret))"

definition call_write :: "'fs rw_env \<Rightarrow> nat \<Rightarrow> addr \<Rightarrow> u64 \<Rightarrow> u64 option \<Rightarrow> 'fs world \<Rightarrow> kstop + 'fs world \<times> u64 \<times> int" where
  "call_write env n buf cnt ppos w =
     (case op_write env n of
        Some wr \<Rightarrow> Inr (wr buf cnt ppos w)
      | None \<Rightarrow> (case op_write_iter env n of
                  Some it \<Rightarrow> new_sync_write it buf cnt ppos w
                | None \<Rightarrow> Inr (w, pos_val ppos, - EINVAL)))"

definition account_write :: "int \<Rightarrow> 'fs rw_state \<Rightarrow> 'fs rw_state" where
  "account_write ret s = (let s1 = (if ret > 0 then s\<lparr>wchar := wchar s + of_int ret\<rparr> else s) in s1\<lparr>syscw := syscw s1 + 1\<rparr>)"

definition vfs_write :: "'fs rw_env \<Rightarrow> nat \<Rightarrow> addr \<Rightarrow> u64 \<Rightarrow> u64 option \<Rightarrow> 'fs rw_state \<Rightarrow> kstop + 'fs rw_state \<times> u64 \<times> int" where
  "vfs_write env n buf cnt ppos s =
     (let f = files (table s) n
      in if f_mode f AND FMODE_WRITE = 0 then Inr (s, pos_val ppos, - EBADF)
         else if f_mode f AND FMODE_CAN_WRITE = 0 then Inr (s, pos_val ppos, - EINVAL)
         else if \<not> access_ok env buf cnt then Inr (s, pos_val ppos, - EFAULT)
         else (let ret = rw_verify_area env True n f ppos cnt
               in if ret \<noteq> 0 then Inr (s, pos_val ppos, ret)
                  else (let cnt1 = (if cnt > MAX_RW_COUNT then MAX_RW_COUNT else cnt)
                        in case call_write env n buf cnt1 ppos (world s) of
                             Inl k \<Rightarrow> Inl k
                           | Inr (w, pos, ret) \<Rightarrow> Inr (account_write ret (s\<lparr>world := w\<rparr>), pos, ret))))"

section \<open>The calls\<close>

definition file_ppos :: "rfile \<Rightarrow> u64 option" where
  "file_ppos f = (if f_mode f AND FMODE_STREAM \<noteq> 0 then None else Some (f_pos f))"

text \<open>The store of the position after a successful call.\<close>

definition set_pos :: "nat \<Rightarrow> u64 \<Rightarrow> 'fs rw_state \<Rightarrow> 'fs rw_state" where
  "set_pos n pos s = s\<lparr>table := (table s)\<lparr>files := (files (table s))(n := (files (table s) n)\<lparr>f_pos := pos\<rparr>)\<rparr>\<rparr>"

definition ksys_read :: "'fs rw_env \<Rightarrow> u32 \<Rightarrow> addr \<Rightarrow> u64 \<Rightarrow> 'fs rw_state \<Rightarrow> kstop + 'fs rw_state \<times> int" where
  "ksys_read env fd buf cnt s =
     (case fds (table s) fd of
        None \<Rightarrow> Inr (s, - EBADF)
      | Some n \<Rightarrow>
          (let ppos = file_ppos (files (table s) n)
           in case vfs_read env n buf cnt ppos s of
                Inl k \<Rightarrow> Inl k
              | Inr (s1, pos, ret) \<Rightarrow> Inr (if ret \<ge> 0 \<and> ppos \<noteq> None then set_pos n pos s1 else s1, ret)))"

definition ksys_write :: "'fs rw_env \<Rightarrow> u32 \<Rightarrow> addr \<Rightarrow> u64 \<Rightarrow> 'fs rw_state \<Rightarrow> kstop + 'fs rw_state \<times> int" where
  "ksys_write env fd buf cnt s =
     (case fds (table s) fd of
        None \<Rightarrow> Inr (s, - EBADF)
      | Some n \<Rightarrow>
          (let ppos = file_ppos (files (table s) n)
           in case vfs_write env n buf cnt ppos s of
                Inl k \<Rightarrow> Inl k
              | Inr (s1, pos, ret) \<Rightarrow> Inr (if ret \<ge> 0 \<and> ppos \<noteq> None then set_pos n pos s1 else s1, ret)))"

definition sys_read :: "'fs rw_env \<Rightarrow> u32 \<Rightarrow> addr \<Rightarrow> u64 \<Rightarrow> 'fs rw_state \<Rightarrow> kstop + 'fs rw_state \<times> int" where
  "sys_read env fd buf cnt s =
     (case track_syscall (now env) NR_read (usage s) of
        Inl k \<Rightarrow> Inl (Fault k)
      | Inr u \<Rightarrow> ksys_read env fd buf cnt (s\<lparr>usage := u\<rparr>))"

definition sys_write :: "'fs rw_env \<Rightarrow> u32 \<Rightarrow> addr \<Rightarrow> u64 \<Rightarrow> 'fs rw_state \<Rightarrow> kstop + 'fs rw_state \<times> int" where
  "sys_write env fd buf cnt s =
     (case track_syscall (now env) NR_write (usage s) of
        Inl k \<Rightarrow> Inl (Fault k)
      | Inr u \<Rightarrow> ksys_write env fd buf cnt (s\<lparr>usage := u\<rparr>))"

definition ksys_pread64 :: "'fs rw_env \<Rightarrow> u32 \<Rightarrow> addr \<Rightarrow> u64 \<Rightarrow> u64 \<Rightarrow> 'fs rw_state \<Rightarrow> kstop + 'fs rw_state \<times> int" where
  "ksys_pread64 env fd buf cnt pos s =
     (if sint pos < 0 then Inr (s, - EINVAL)
      else case fds (table s) fd of
             None \<Rightarrow> Inr (s, - EBADF)
           | Some n \<Rightarrow>
               if f_mode (files (table s) n) AND FMODE_PREAD = 0 then Inr (s, - ESPIPE)
               else (case vfs_read env n buf cnt (Some pos) s of
                       Inl k \<Rightarrow> Inl k
                     | Inr (s1, _, ret) \<Rightarrow> Inr (s1, ret)))"

definition ksys_pwrite64 :: "'fs rw_env \<Rightarrow> u32 \<Rightarrow> addr \<Rightarrow> u64 \<Rightarrow> u64 \<Rightarrow> 'fs rw_state \<Rightarrow> kstop + 'fs rw_state \<times> int" where
  "ksys_pwrite64 env fd buf cnt pos s =
     (if sint pos < 0 then Inr (s, - EINVAL)
      else case fds (table s) fd of
             None \<Rightarrow> Inr (s, - EBADF)
           | Some n \<Rightarrow>
               if f_mode (files (table s) n) AND FMODE_PWRITE = 0 then Inr (s, - ESPIPE)
               else (case vfs_write env n buf cnt (Some pos) s of
                       Inl k \<Rightarrow> Inl k
                     | Inr (s1, _, ret) \<Rightarrow> Inr (s1, ret)))"

definition sys_pread64 :: "'fs rw_env \<Rightarrow> u32 \<Rightarrow> addr \<Rightarrow> u64 \<Rightarrow> u64 \<Rightarrow> 'fs rw_state \<Rightarrow> kstop + 'fs rw_state \<times> int" where
  "sys_pread64 env fd buf cnt pos s = ksys_pread64 env fd buf cnt pos s"

definition sys_pwrite64 :: "'fs rw_env \<Rightarrow> u32 \<Rightarrow> addr \<Rightarrow> u64 \<Rightarrow> u64 \<Rightarrow> 'fs rw_state \<Rightarrow> kstop + 'fs rw_state \<times> int" where
  "sys_pwrite64 env fd buf cnt pos s = ksys_pwrite64 env fd buf cnt pos s"

section \<open>The calls as one operation\<close>

datatype rw_call = Read u32 addr u64 | Write u32 addr u64 | Pread u32 addr u64 u64 | Pwrite u32 addr u64 u64

definition do_rw :: "'fs rw_env \<Rightarrow> rw_call \<Rightarrow> 'fs rw_state \<Rightarrow> kstop + 'fs rw_state \<times> int" where
  "do_rw env c s =
     (case c of
        Read fd buf cnt \<Rightarrow> sys_read env fd buf cnt s
      | Write fd buf cnt \<Rightarrow> sys_write env fd buf cnt s
      | Pread fd buf cnt pos \<Rightarrow> sys_pread64 env fd buf cnt pos s
      | Pwrite fd buf cnt pos \<Rightarrow> sys_pwrite64 env fd buf cnt pos s)"

section \<open>File operations are called in range\<close>

text \<open>An access that fits the signed offsets, at most \<open>MAX_RW_COUNT\<close> bytes long.\<close>

definition in_range :: "u64 option \<Rightarrow> u64 \<Rightarrow> bool" where
  "in_range ppos cnt \<longleftrightarrow> cnt \<le> MAX_RW_COUNT
     \<and> (case ppos of None \<Rightarrow> True | Some p \<Rightarrow> 0 \<le> sint p \<and> sint p + uint cnt < 2 ^ 63)"

lemma sint_nonneg_64: "0 \<le> sint (x :: u64) \<Longrightarrow> sint x = uint x"
  using uint_lt2p[of x] by (auto simp: sint_64 split: if_splits)

lemma rw_verify_range:
  assumes "rw_verify_area env w n f ppos cnt = 0" and "\<not> unsigned_offsets f"
  shows "in_range ppos (if cnt > MAX_RW_COUNT then MAX_RW_COUNT else cnt)"
proof -
  let ?c = "if cnt > MAX_RW_COUNT then MAX_RW_COUNT else cnt"
  have c: "0 \<le> sint cnt" using assms(1) by (auto simp: rw_verify_area_def split: if_splits)
  have le: "?c \<le> MAX_RW_COUNT" "uint ?c \<le> uint cnt" by (auto simp: word_less_def word_le_def)
  show ?thesis
  proof (cases ppos)
    case None
    then show ?thesis using le by (simp add: in_range_def)
  next
    case (Some p)
    have p: "0 \<le> sint p" "0 \<le> sint (p + cnt)"
      using assms c by (auto simp: rw_verify_area_def Some Let_def split: if_splits)
    have "sint p + sint cnt < 2 ^ 63"
      using sint_add_64[OF c, of p] p sint_range_64(2)[of p] sint_range_64(2)[of cnt] by (auto split: if_splits)
    then show ?thesis using le p(1) sint_nonneg_64[OF c] by (simp add: in_range_def Some)
  qed
qed

text \<open>
  Reading and writing have one form, with the mode bits, the operation and the accounting as
  parameters; the proofs below are on this form.
\<close>

definition vfs_form :: "'fs rw_env \<Rightarrow> u32 \<Rightarrow> u32 \<Rightarrow> bool \<Rightarrow> (addr \<Rightarrow> u64 \<Rightarrow> u64 option \<Rightarrow> 'fs world \<Rightarrow> kstop + 'fs world \<times> u64 \<times> int)
    \<Rightarrow> (int \<Rightarrow> 'fs rw_state \<Rightarrow> 'fs rw_state) \<Rightarrow> nat \<Rightarrow> addr \<Rightarrow> u64 \<Rightarrow> u64 option \<Rightarrow> 'fs rw_state \<Rightarrow> kstop + 'fs rw_state \<times> u64 \<times> int" where
  "vfs_form env md can w call acct n buf cnt ppos s =
     (let f = files (table s) n
      in if f_mode f AND md = 0 then Inr (s, pos_val ppos, - EBADF)
         else if f_mode f AND can = 0 then Inr (s, pos_val ppos, - EINVAL)
         else if \<not> access_ok env buf cnt then Inr (s, pos_val ppos, - EFAULT)
         else (let ret = rw_verify_area env w n f ppos cnt
               in if ret \<noteq> 0 then Inr (s, pos_val ppos, ret)
                  else (let cnt1 = (if cnt > MAX_RW_COUNT then MAX_RW_COUNT else cnt)
                        in case call buf cnt1 ppos (world s) of
                             Inl k \<Rightarrow> Inl k
                           | Inr (w, pos, ret) \<Rightarrow> Inr (acct ret (s\<lparr>world := w\<rparr>), pos, ret))))"

lemma vfs_read_form: "vfs_read env n = vfs_form env FMODE_READ FMODE_CAN_READ False (call_read env n) account_read n"
  by (intro ext) (simp only: vfs_read_def vfs_form_def)

lemma vfs_write_form: "vfs_write env n = vfs_form env FMODE_WRITE FMODE_CAN_WRITE True (call_write env n) account_write n"
  by (intro ext) (simp only: vfs_write_def vfs_form_def)

definition agree_fop :: "'fs fop \<Rightarrow> 'fs fop \<Rightarrow> bool" where
  "agree_fop a b \<longleftrightarrow> (\<forall>buf cnt ppos w. in_range ppos cnt \<longrightarrow> a buf cnt ppos w = b buf cnt ppos w)"

definition agree_iter :: "'fs iter_op \<Rightarrow> 'fs iter_op \<Rightarrow> bool" where
  "agree_iter a b \<longleftrightarrow> (\<forall>buf cnt pos w. in_range (Some pos) cnt \<longrightarrow> a buf cnt pos w = b buf cnt pos w)"

text \<open>Two environments that differ at most in what file operations do out of range.\<close>

definition agree_env :: "'fs rw_env \<Rightarrow> 'fs rw_env \<Rightarrow> bool" where
  "agree_env env env' \<longleftrightarrow> now env' = now env \<and> security_file_permission env' = security_file_permission env
     \<and> fsnotify_file_area_perm env' = fsnotify_file_area_perm env \<and> access_ok env' = access_ok env
     \<and> (\<forall>n. rel_option agree_fop (op_read env n) (op_read env' n)
          \<and> rel_option agree_iter (op_read_iter env n) (op_read_iter env' n)
          \<and> rel_option agree_fop (op_write env n) (op_write env' n)
          \<and> rel_option agree_iter (op_write_iter env n) (op_write_iter env' n))"

lemma in_range_pos_val: "in_range ppos cnt \<Longrightarrow> in_range (Some (pos_val ppos)) cnt"
proof (cases ppos)
  case None
  assume "in_range ppos cnt"
  then have "uint cnt \<le> 0x7ffff000" by (simp add: in_range_def word_le_def)
  then show ?thesis using None \<open>in_range ppos cnt\<close> by (simp add: in_range_def pos_val_def)
qed (simp add: pos_val_def)

lemma call_agree:
  assumes "agree_env env env'" and "in_range ppos cnt"
  shows "call_read env n buf cnt ppos w = call_read env' n buf cnt ppos w"
    and "call_write env n buf cnt ppos w = call_write env' n buf cnt ppos w"
proof -
  have r: "rel_option agree_fop (op_read env n) (op_read env' n)" "rel_option agree_iter (op_read_iter env n) (op_read_iter env' n)"
    and w: "rel_option agree_fop (op_write env n) (op_write env' n)" "rel_option agree_iter (op_write_iter env n) (op_write_iter env' n)"
    using assms(1) unfolding agree_env_def by blast+
  have fop: "agree_fop a b \<Longrightarrow> a buf cnt ppos w = b buf cnt ppos w" for a b
    using assms(2) unfolding agree_fop_def by blast
  have it: "agree_iter a b \<Longrightarrow> a buf cnt (pos_val ppos) w = b buf cnt (pos_val ppos) w" for a b
    using in_range_pos_val[OF assms(2)] unfolding agree_iter_def by blast
  show "call_read env n buf cnt ppos w = call_read env' n buf cnt ppos w"
    using r unfolding call_read_def new_sync_read_def
    by (cases "op_read env n"; cases "op_read env' n"; cases "op_read_iter env n"; cases "op_read_iter env' n")
      (simp_all add: fop it)
  show "call_write env n buf cnt ppos w = call_write env' n buf cnt ppos w"
    using w unfolding call_write_def new_sync_write_def
    by (cases "op_write env n"; cases "op_write env' n"; cases "op_write_iter env n"; cases "op_write_iter env' n")
      (simp_all add: fop it)
qed

lemma vfs_form_agree:
  assumes "agree_env env env'" and "\<not> unsigned_offsets (files (table s) n)"
    and "\<And>buf cnt w. in_range ppos cnt \<Longrightarrow> call buf cnt ppos w = call' buf cnt ppos w"
  shows "vfs_form env md can w call acct n buf cnt ppos s = vfs_form env' md can w call' acct n buf cnt ppos s"
proof -
  have v: "rw_verify_area env' w n f ppos cnt = rw_verify_area env w n f ppos cnt" "access_ok env' = access_ok env" for f
  proof -
    have eq: "security_file_permission env' = security_file_permission env"
      "fsnotify_file_area_perm env' = fsnotify_file_area_perm env" "access_ok env' = access_ok env"
      using assms(1) unfolding agree_env_def by blast+
    show "rw_verify_area env' w n f ppos cnt = rw_verify_area env w n f ppos cnt" by (simp only: rw_verify_area_def eq)
    show "access_ok env' = access_ok env" by (rule eq(3))
  qed
  show ?thesis
  proof (cases "rw_verify_area env w n (files (table s) n) ppos cnt = 0")
    case True
    show ?thesis using assms(3)[OF rw_verify_range[OF True assms(2)]] by (simp only: vfs_form_def v Let_def)
  next
    case False
    then show ?thesis by (simp add: vfs_form_def v Let_def)
  qed
qed

lemma vfs_agree:
  assumes "agree_env env env'" and "\<not> unsigned_offsets (files (table s) n)"
  shows "vfs_read env n buf cnt ppos s = vfs_read env' n buf cnt ppos s"
    and "vfs_write env n buf cnt ppos s = vfs_write env' n buf cnt ppos s"
  unfolding vfs_read_form vfs_write_form
  by (rule vfs_form_agree[OF assms], rule call_agree[OF assms(1)], assumption)+

text \<open>
  C38. File systems see only accesses in range: when no open file uses unsigned offsets, the
  outcome of \<open>read\<close>, \<open>write\<close>, \<open>pread64\<close> and \<open>pwrite64\<close>, with any arguments, does not depend on
  what the file operations do for more than \<open>MAX_RW_COUNT\<close> bytes, for a negative position, or
  for an access that passes the largest signed offset.
\<close>

theorem file_operations_called_in_range:
  assumes "agree_env env env'" and "\<And>n. \<not> unsigned_offsets (files (table s) n)"
  shows "do_rw env c s = do_rw env' c s"
proof -
  have nw: "now env' = now env" using assms(1) by (simp add: agree_env_def)
  have k: "ksys_read env fd buf cnt t = ksys_read env' fd buf cnt t" "ksys_write env fd buf cnt t = ksys_write env' fd buf cnt t"
    if "table t = table s" for fd buf cnt t
    using vfs_agree[OF assms(1), of t] assms(2) that
    by (simp_all add: ksys_read_def ksys_write_def Let_def split: option.split)
  show ?thesis
    using k vfs_agree[OF assms(1), of s] assms(2)
    by (cases c) (simp_all add: do_rw_def sys_read_def sys_write_def sys_pread64_def sys_pwrite64_def
        ksys_pread64_def ksys_pwrite64_def nw split: sum.split option.split)
qed

section \<open>Positions\<close>

text \<open>
  Operations that move the position by what they transfer, as those of a file that is not
  open for appending; an operation on a synchronous request does not answer
  \<open>-EIOCBQUEUED\<close>.
\<close>

definition fop_ok :: "'fs fop \<Rightarrow> bool" where
  "fop_ok a \<longleftrightarrow> (\<forall>buf cnt p w w' p' r. in_range (Some p) cnt \<longrightarrow> a buf cnt (Some p) w = (w', p', r) \<longrightarrow>
     r \<le> uint cnt \<and> (0 \<le> r \<longrightarrow> p' = p + of_int r))"

definition iter_ok :: "'fs iter_op \<Rightarrow> bool" where
  "iter_ok a \<longleftrightarrow> (\<forall>buf cnt p w w' p' r. in_range (Some p) cnt \<longrightarrow> a buf cnt p w = (w', p', r) \<longrightarrow>
     r \<le> uint cnt \<and> (0 \<le> r \<longrightarrow> p' = p + of_int r) \<and> r \<noteq> - EIOCBQUEUED)"

definition advancing :: "'fs rw_env \<Rightarrow> nat \<Rightarrow> bool" where
  "advancing env n \<longleftrightarrow> pred_option fop_ok (op_read env n) \<and> pred_option fop_ok (op_write env n)
     \<and> pred_option iter_ok (op_read_iter env n) \<and> pred_option iter_ok (op_write_iter env n)"

definition moves :: "(addr \<Rightarrow> u64 \<Rightarrow> u64 option \<Rightarrow> 'fs world \<Rightarrow> kstop + 'fs world \<times> u64 \<times> int) \<Rightarrow> bool" where
  "moves call \<longleftrightarrow> (\<forall>buf cnt p w. in_range (Some p) cnt \<longrightarrow>
     (\<exists>w' p' r. call buf cnt (Some p) w = Inr (w', p', r) \<and> r \<le> uint cnt \<and> (0 \<le> r \<longrightarrow> p' = p + of_int r)))"

lemma moves_fop:
  assumes "fop_ok a"
  shows "moves (\<lambda>buf cnt ppos w. Inr (a buf cnt ppos w))"
  unfolding moves_def
proof (intro allI impI)
  fix buf cnt p w assume r: "in_range (Some p) cnt"
  obtain w' p' ret where a: "a buf cnt (Some p) w = (w', p', ret)" by (rule prod_cases3)
  have "ret \<le> uint cnt \<and> (0 \<le> ret \<longrightarrow> p' = p + of_int ret)" using assms r a unfolding fop_ok_def by blast
  with a show "\<exists>w' p' r. Inr (a buf cnt (Some p) w) = Inr (w', p', r) \<and> r \<le> uint cnt \<and> (0 \<le> r \<longrightarrow> p' = p + of_int r)"
    by simp
qed

lemma moves_iter:
  assumes "iter_ok a"
  shows "moves (new_sync_read a)" and "moves (new_sync_write a)"
proof -
  have "\<exists>w' p' r. new_sync_read a buf cnt (Some p) w = Inr (w', p', r) \<and> r \<le> uint cnt \<and> (0 \<le> r \<longrightarrow> p' = p + of_int r)"
    "\<exists>w' p' r. new_sync_write a buf cnt (Some p) w = Inr (w', p', r) \<and> r \<le> uint cnt \<and> (0 \<le> r \<longrightarrow> p' = p + of_int r)"
    if "in_range (Some p) cnt" for buf cnt p w
  proof -
    obtain w' p' ret where a: "a buf cnt p w = (w', p', ret)" by (rule prod_cases3)
    have ok: "ret \<le> uint cnt" "0 \<le> ret \<longrightarrow> p' = p + of_int ret" "ret \<noteq> - EIOCBQUEUED"
      using assms that a unfolding iter_ok_def by blast+
    have wr: "new_sync_write a buf cnt (Some p) w = Inr (w', if ret > 0 then p' else p, ret)"
      and rd: "new_sync_read a buf cnt (Some p) w = Inr (w', p', ret)"
      using a ok(3) by (simp_all add: new_sync_write_def new_sync_read_def pos_val_def)
    show "\<exists>w' p' r. new_sync_read a buf cnt (Some p) w = Inr (w', p', r) \<and> r \<le> uint cnt \<and> (0 \<le> r \<longrightarrow> p' = p + of_int r)"
      using rd ok by blast
    have "0 \<le> ret \<longrightarrow> (if ret > 0 then p' else p) = p + of_int ret" using ok(2) by auto
    then show "\<exists>w' p' r. new_sync_write a buf cnt (Some p) w = Inr (w', p', r) \<and> r \<le> uint cnt \<and> (0 \<le> r \<longrightarrow> p' = p + of_int r)"
      using wr ok(1) by blast
  qed
  then show "moves (new_sync_read a)" "moves (new_sync_write a)" unfolding moves_def by blast+
qed

text \<open>Without an operation the answer is \<open>-EINVAL\<close>, which is a move as well.\<close>

lemma moves_none: "moves (\<lambda>buf cnt ppos w. Inr (w, pos_val ppos, - EINVAL))"
proof -
  have "- EINVAL \<le> uint (cnt :: u64)" for cnt by (rule order_trans[of _ 0]) simp_all
  then show ?thesis by (simp add: moves_def)
qed

lemma moves_advancing:
  assumes "advancing env n"
  shows "moves (call_read env n)" and "moves (call_write env n)"
proof -
  have "call_read env n = (case op_read env n of Some rd \<Rightarrow> (\<lambda>buf cnt ppos w. Inr (rd buf cnt ppos w))
      | None \<Rightarrow> (case op_read_iter env n of Some it \<Rightarrow> new_sync_read it | None \<Rightarrow> (\<lambda>buf cnt ppos w. Inr (w, pos_val ppos, - EINVAL))))"
    by (intro ext) (simp add: call_read_def split: option.split)
  then show "moves (call_read env n)"
    using assms moves_fop moves_iter moves_none by (auto simp: advancing_def split: option.splits)
  have "call_write env n = (case op_write env n of Some wr \<Rightarrow> (\<lambda>buf cnt ppos w. Inr (wr buf cnt ppos w))
      | None \<Rightarrow> (case op_write_iter env n of Some it \<Rightarrow> new_sync_write it | None \<Rightarrow> (\<lambda>buf cnt ppos w. Inr (w, pos_val ppos, - EINVAL))))"
    by (intro ext) (simp add: call_write_def split: option.split)
  then show "moves (call_write env n)"
    using assms moves_fop moves_iter moves_none by (auto simp: advancing_def split: option.splits)
qed

text \<open>What one transfer does, given that the operation moves: it returns, keeps the table and
  the usage counters, and a position it reports is in range.\<close>

definition transfer_ok :: "u64 \<Rightarrow> u64 \<Rightarrow> 'fs rw_state \<Rightarrow> kstop + 'fs rw_state \<times> u64 \<times> int \<Rightarrow> bool" where
  "transfer_ok p cnt s res \<longleftrightarrow> (\<exists>s1 pos r. res = Inr (s1, pos, r) \<and> table s1 = table s \<and> usage s1 = usage s
     \<and> (0 \<le> r \<longrightarrow> r \<le> uint cnt \<and> pos = p + of_int r \<and> sint pos = sint p + r))"

lemma transfer_error: "e < 0 \<Longrightarrow> transfer_ok p cnt s (Inr (s, pos, e))"
  by (simp add: transfer_ok_def)

lemma transfer_if: "(c \<Longrightarrow> transfer_ok p cnt s a) \<Longrightarrow> (\<not> c \<Longrightarrow> transfer_ok p cnt s b) \<Longrightarrow> transfer_ok p cnt s (if c then a else b)"
  by simp

definition hooks_ok :: "'fs rw_env \<Rightarrow> bool" where
  "hooks_ok env \<longleftrightarrow> (\<forall>n w. security_file_permission env n w \<le> 0) \<and> (\<forall>n w p c. fsnotify_file_area_perm env n w p c \<le> 0)"

lemma rw_verify_neg: "hooks_ok env \<Longrightarrow> rw_verify_area env w n f ppos cnt \<le> 0"
  by (simp add: hooks_ok_def rw_verify_area_def Let_def split: option.split)

lemma transfer_form:
  assumes "hooks_ok env" and "moves call" and "\<not> unsigned_offsets (files (table s) n)"
    and "\<And>r t. table (acct r t) = table t \<and> usage (acct r t) = usage t"
  shows "transfer_ok p cnt s (vfs_form env md can w call acct n buf cnt (Some p) s)"
proof -
  let ?c = "if cnt > MAX_RW_COUNT then MAX_RW_COUNT else cnt"
  let ?v = "rw_verify_area env w n (files (table s) n) (Some p) cnt"
  have go: "transfer_ok p cnt s (case call buf ?c (Some p) (world s) of Inl k \<Rightarrow> Inl k
      | Inr (w, pos, ret) \<Rightarrow> Inr (acct ret (s\<lparr>world := w\<rparr>), pos, ret))" if "\<not> ?v \<noteq> 0"
  proof -
    have range: "in_range (Some p) ?c" using rw_verify_range[of env w n "files (table s) n" "Some p" cnt] that assms(3) by blast
    then obtain w' p' r where r: "call buf ?c (Some p) (world s) = Inr (w', p', r)" "r \<le> uint ?c" "0 \<le> r \<longrightarrow> p' = p + of_int r"
      using assms(2) unfolding moves_def by blast
    have "uint ?c \<le> uint cnt" by (auto simp: word_less_def)
    moreover have "sint (p + of_int r) = sint p + r" if "0 \<le> r"
    proof -
      have b: "r < 2 ^ 63" "sint p + r < 2 ^ 63" using r(2) that range by (auto simp: in_range_def)
      then have "sint (of_int r :: u64) = r" using that by (simp add: sint_64 uint_word_of_int)
      then show ?thesis using sint_add_64[of "of_int r" p] that b by simp
    qed
    ultimately show ?thesis
      unfolding transfer_ok_def r(1) using r(2,3) assms(4) by auto
  qed
  have neg: "transfer_ok p cnt s (Inr (s, pos_val (Some p), ?v))" if "?v \<noteq> 0"
    by (rule transfer_error) (use that rw_verify_neg[OF assms(1)] in \<open>simp add: order_less_le\<close>)
  show ?thesis
    unfolding vfs_form_def Let_def by (intro transfer_if transfer_error go neg) simp_all
qed

lemma transfer_vfs:
  assumes "hooks_ok env" and "advancing env n" and "\<not> unsigned_offsets (files (table s) n)"
  shows "transfer_ok p cnt s (vfs_read env n buf cnt (Some p) s)" and "transfer_ok p cnt s (vfs_write env n buf cnt (Some p) s)"
  unfolding vfs_read_form vfs_write_form
  by (rule transfer_form[OF assms(1) _ assms(3)], rule moves_advancing[OF assms(2)], simp add: account_read_def account_write_def Let_def)+

text \<open>The descriptor and the length of a call, and whether it uses the file's own position.\<close>

definition call_fd :: "rw_call \<Rightarrow> u32" where
  "call_fd c = (case c of Read fd _ _ \<Rightarrow> fd | Write fd _ _ \<Rightarrow> fd | Pread fd _ _ _ \<Rightarrow> fd | Pwrite fd _ _ _ \<Rightarrow> fd)"

definition call_count :: "rw_call \<Rightarrow> u64" where
  "call_count c = (case c of Read _ _ n \<Rightarrow> n | Write _ _ n \<Rightarrow> n | Pread _ _ n _ \<Rightarrow> n | Pwrite _ _ n _ \<Rightarrow> n)"

definition positional :: "rw_call \<Rightarrow> bool" where
  "positional c = (case c of Read _ _ _ \<Rightarrow> False | Write _ _ _ \<Rightarrow> False | _ \<Rightarrow> True)"

lemma ksys_position:
  assumes "fds (table s) fd = Some n" and "hooks_ok env" and "advancing env n"
    and "\<not> unsigned_offsets (files (table s) n)" and "f_mode (files (table s) n) AND FMODE_STREAM = 0"
    and "res = ksys_read env fd buf cnt s \<or> res = ksys_write env fd buf cnt s"
  shows "\<exists>s' r. res = Inr (s', r) \<and> usage s' = usage s \<and> r \<le> uint cnt
    \<and> (if 0 \<le> r then sint (f_pos (files (table s') n)) = sint (f_pos (files (table s) n)) + r
         \<and> table s' = (table s)\<lparr>files := (files (table s))(n := (files (table s) n)\<lparr>f_pos := f_pos (files (table s') n)\<rparr>)\<rparr>
       else table s' = table s)"
proof -
  let ?p = "f_pos (files (table s) n)"
  have fp: "file_ppos (files (table s) n) = Some ?p" using assms(5) by (simp add: file_ppos_def)
  have rd: "ksys_read env fd buf cnt s = (case vfs_read env n buf cnt (Some ?p) s of Inl k \<Rightarrow> Inl k
      | Inr (s1, pos, ret) \<Rightarrow> Inr (if ret \<ge> 0 then set_pos n pos s1 else s1, ret))"
    and wr: "ksys_write env fd buf cnt s = (case vfs_write env n buf cnt (Some ?p) s of Inl k \<Rightarrow> Inl k
      | Inr (s1, pos, ret) \<Rightarrow> Inr (if ret \<ge> 0 then set_pos n pos s1 else s1, ret))"
    by (simp_all add: ksys_read_def ksys_write_def assms(1) fp Let_def split: sum.split)
  obtain v where res: "res = (case v of Inl k \<Rightarrow> Inl k | Inr (s1, pos, ret) \<Rightarrow> Inr (if ret \<ge> 0 then set_pos n pos s1 else s1, ret))"
    and "transfer_ok ?p cnt s v"
    using assms(6) rd wr transfer_vfs[OF assms(2-4), of ?p cnt buf] by blast
  then obtain s1 pos r where r: "v = Inr (s1, pos, r)" "table s1 = table s" "usage s1 = usage s"
      "0 \<le> r \<longrightarrow> r \<le> uint cnt \<and> pos = ?p + of_int r \<and> sint pos = sint ?p + r"
    unfolding transfer_ok_def by blast
  have "r \<le> uint cnt" using r(4) order_trans[of r 0 "uint cnt"] by (cases "0 \<le> r") simp_all
  then show ?thesis using res r by (cases "0 \<le> r") (auto simp: set_pos_def)
qed

lemma kpos_position:
  assumes "hooks_ok env" and "advancing env n" and "\<not> unsigned_offsets (files (table s) n)" and "fds (table s) fd = Some n"
    and "res = ksys_pread64 env fd buf cnt pos s \<or> res = ksys_pwrite64 env fd buf cnt pos s"
  shows "\<exists>s' r. res = Inr (s', r) \<and> usage s' = usage s \<and> r \<le> uint cnt \<and> table s' = table s"
proof -
  have err: "- E \<le> uint cnt" if "0 \<le> E" for E
    by (rule order_trans[of _ 0]) (use that in simp_all)
  have fin: "\<exists>s' r. (case v of Inl k \<Rightarrow> Inl k | Inr (s1, _, ret) \<Rightarrow> Inr (s1, ret)) = Inr (s', r) \<and> usage s' = usage s \<and> r \<le> uint cnt \<and> table s' = table s"
    if "transfer_ok pos cnt s v" for v
  proof -
    obtain s1 p1 r where r: "v = Inr (s1, p1, r)" "table s1 = table s" "usage s1 = usage s" "0 \<le> r \<longrightarrow> r \<le> uint cnt"
      using \<open>transfer_ok pos cnt s v\<close> unfolding transfer_ok_def by blast
    have "r \<le> uint cnt" using r(4) order_trans[of r 0 "uint cnt"] by (cases "0 \<le> r") simp_all
    then show ?thesis using r by simp
  qed
  note t = transfer_vfs[OF assms(1-3), of pos cnt buf]
  show ?thesis
    using assms(5)
  proof (elim disjE)
    assume r: "res = ksys_pread64 env fd buf cnt pos s"
    show ?thesis unfolding r ksys_pread64_def assms(4) option.case by (simp add: err fin[OF t(1)])
  next
    assume r: "res = ksys_pwrite64 env fd buf cnt pos s"
    show ?thesis unfolding r ksys_pwrite64_def assms(4) option.case by (simp add: err fin[OF t(2)])
  qed
qed

lemma track_known:
  assumes "0 \<le> i"
  obtains u where "track_syscall t i (usage s) = Inr u"
  using track_syscall_total[OF assms] by blast


section \<open>The usage counters\<close>

text \<open>Synchronous operations do not answer \<open>-EIOCBQUEUED\<close>.\<close>

definition sync_ok :: "'fs rw_env \<Rightarrow> bool" where
  "sync_ok env \<longleftrightarrow> (\<forall>n. \<forall>it \<in> set_option (op_read_iter env n) \<union> set_option (op_write_iter env n).
     \<forall>buf cnt p w. snd (snd (it buf cnt p w)) \<noteq> - EIOCBQUEUED)"

lemma call_returns:
  assumes "sync_ok env"
  shows "\<exists>x. call_read env n buf cnt ppos w = Inr x" and "\<exists>x. call_write env n buf cnt ppos w = Inr x"
proof -
  have it: "snd (snd (it buf cnt p w)) \<noteq> - EIOCBQUEUED"
    if "op_read_iter env n = Some it \<or> op_write_iter env n = Some it" for it p
    using assms that unfolding sync_ok_def by (metis UnI1 UnI2 option.set_intros)
  show "\<exists>x. call_read env n buf cnt ppos w = Inr x"
    by (cases "op_read env n"; cases "op_read_iter env n")
      (simp_all add: call_read_def new_sync_read_def case_prod_unfold it Let_def del: split_paired_Ex)
  show "\<exists>x. call_write env n buf cnt ppos w = Inr x"
    by (cases "op_write env n"; cases "op_write_iter env n")
      (simp_all add: call_write_def new_sync_write_def case_prod_unfold it Let_def del: split_paired_Ex)
qed

lemma vfs_form_returns:
  assumes "\<And>buf cnt w. \<exists>x. call buf cnt ppos w = Inr x" and "\<And>r t. usage (acct r t) = usage t"
  shows "\<exists>s1 pos r. vfs_form env md can wr call acct n buf cnt ppos s = Inr (s1, pos, r) \<and> usage s1 = usage s"
proof -
  obtain w p r where "call buf (if cnt > MAX_RW_COUNT then MAX_RW_COUNT else cnt) ppos (world s) = Inr (w, p, r)"
    using assms(1) by (metis prod_cases3)
  then show ?thesis by (simp add: vfs_form_def Let_def assms(2) split: if_split del: split_paired_Ex)
qed

lemma vfs_returns:
  assumes "sync_ok env"
  shows "\<exists>s1 pos r. vfs_read env n buf cnt ppos s = Inr (s1, pos, r) \<and> usage s1 = usage s"
    and "\<exists>s1 pos r. vfs_write env n buf cnt ppos s = Inr (s1, pos, r) \<and> usage s1 = usage s"
  unfolding vfs_read_form vfs_write_form
  by (rule vfs_form_returns, rule call_returns[OF assms], simp add: account_read_def account_write_def Let_def)+

text \<open>The number under which a call is counted.\<close>

definition call_nr :: "rw_call \<Rightarrow> int option" where
  "call_nr c = (case c of Read _ _ _ \<Rightarrow> Some NR_read | Write _ _ _ \<Rightarrow> Some NR_write | _ \<Rightarrow> None)"

lemma ksys_returns:
  assumes "sync_ok env"
  shows "\<exists>s1 r. ksys_read env fd buf cnt s = Inr (s1, r) \<and> usage s1 = usage s"
    and "\<exists>s1 r. ksys_write env fd buf cnt s = Inr (s1, r) \<and> usage s1 = usage s"
    and "\<exists>s1 r. ksys_pread64 env fd buf cnt pos s = Inr (s1, r) \<and> usage s1 = usage s"
    and "\<exists>s1 r. ksys_pwrite64 env fd buf cnt pos s = Inr (s1, r) \<and> usage s1 = usage s"
proof -
  show "\<exists>s1 r. ksys_read env fd buf cnt s = Inr (s1, r) \<and> usage s1 = usage s"
  proof (cases "fds (table s) fd")
    case (Some n)
    obtain s1 pos r where "vfs_read env n buf cnt (file_ppos (files (table s) n)) s = Inr (s1, pos, r)" "usage s1 = usage s"
      using vfs_returns(1)[OF assms] by blast
    then show ?thesis by (simp add: ksys_read_def Some Let_def set_pos_def)
  qed (simp add: ksys_read_def)
  show "\<exists>s1 r. ksys_write env fd buf cnt s = Inr (s1, r) \<and> usage s1 = usage s"
  proof (cases "fds (table s) fd")
    case (Some n)
    obtain s1 pos r where "vfs_write env n buf cnt (file_ppos (files (table s) n)) s = Inr (s1, pos, r)" "usage s1 = usage s"
      using vfs_returns(2)[OF assms] by blast
    then show ?thesis by (simp add: ksys_write_def Some Let_def set_pos_def)
  qed (simp add: ksys_write_def)
  show "\<exists>s1 r. ksys_pread64 env fd buf cnt pos s = Inr (s1, r) \<and> usage s1 = usage s"
  proof (cases "fds (table s) fd")
    case (Some n)
    obtain s1 p r where "vfs_read env n buf cnt (Some pos) s = Inr (s1, p, r)" "usage s1 = usage s"
      using vfs_returns(1)[OF assms] by blast
    then show ?thesis by (simp add: ksys_pread64_def Some)
  qed (simp add: ksys_pread64_def)
  show "\<exists>s1 r. ksys_pwrite64 env fd buf cnt pos s = Inr (s1, r) \<and> usage s1 = usage s"
  proof (cases "fds (table s) fd")
    case (Some n)
    obtain s1 p r where "vfs_write env n buf cnt (Some pos) s = Inr (s1, p, r)" "usage s1 = usage s"
      using vfs_returns(2)[OF assms] by blast
    then show ?thesis by (simp add: ksys_pwrite64_def Some)
  qed (simp add: ksys_pwrite64_def)
qed

text \<open>A call returns, and the counters afterwards are those after the hook, if there is one.\<close>

lemma do_rw_usage:
  assumes "sync_ok env"
  shows "\<exists>s' r. do_rw env c s = Inr (s', r)
    \<and> (case call_nr c of None \<Rightarrow> usage s' = usage s | Some i \<Rightarrow> track_syscall (now env) i (usage s) = Inr (usage s'))"
proof (cases c)
  case (Read fd buf cnt)
  obtain u where u: "track_syscall (now env) NR_read (usage s) = Inr u" by (rule track_known[of NR_read "now env" s]) simp
  obtain s1 r where "ksys_read env fd buf cnt (s\<lparr>usage := u\<rparr>) = Inr (s1, r)" "usage s1 = usage (s\<lparr>usage := u\<rparr>)"
    using ksys_returns(1)[OF assms] by blast
  then show ?thesis using u by (simp add: Read do_rw_def sys_read_def call_nr_def)
next
  case (Write fd buf cnt)
  obtain u where u: "track_syscall (now env) NR_write (usage s) = Inr u" by (rule track_known[of NR_write "now env" s]) simp
  obtain s1 r where "ksys_write env fd buf cnt (s\<lparr>usage := u\<rparr>) = Inr (s1, r)" "usage s1 = usage (s\<lparr>usage := u\<rparr>)"
    using ksys_returns(2)[OF assms] by blast
  then show ?thesis using u by (simp add: Write do_rw_def sys_write_def call_nr_def)
next
  case (Pread fd buf cnt pos)
  then show ?thesis using ksys_returns(3)[OF assms, of fd buf cnt pos s] by (simp add: do_rw_def sys_pread64_def call_nr_def)
next
  case (Pwrite fd buf cnt pos)
  then show ?thesis using ksys_returns(4)[OF assms, of fd buf cnt pos s] by (simp add: do_rw_def sys_pwrite64_def call_nr_def)
qed

section \<open>A concrete system\<close>

text \<open>One file of bytes, read through \<open>read\<close> and written through \<open>write_iter\<close>.\<close>

definition plain_read :: "(u8 list) fop" where
  "plain_read buf cnt ppos w =
     (let p = pos_val ppos; bs = take (unat cnt) (drop (unat p) (snd w))
      in ((mem_write (fst w) buf bs, snd w), p + of_nat (length bs), int (length bs)))"

definition plain_write_iter :: "(u8 list) iter_op" where
  "plain_write_iter buf cnt p w = (w, p + cnt, uint cnt)"

definition plain_rw_env :: "(u8 list) rw_env" where
  "plain_rw_env = \<lparr>now = \<lparr>tv_sec = 1, tv_nsec = 0\<rparr>, security_file_permission = (\<lambda>_ _. 0),
     fsnotify_file_area_perm = (\<lambda>_ _ _ _. 0), access_ok = (\<lambda>_ _. True),
     op_read = (\<lambda>_. Some plain_read), op_read_iter = (\<lambda>_. None), op_write = (\<lambda>_. None),
     op_write_iter = (\<lambda>_. Some plain_write_iter)\<rparr>"

text \<open>As \<open>plain_rw_env\<close>, but reading answers nonsense out of range.\<close>

definition wild_rw_env :: "(u8 list) rw_env" where
  "wild_rw_env = plain_rw_env\<lparr>op_read := (\<lambda>_. Some (\<lambda>buf cnt ppos w.
     if in_range ppos cnt then plain_read buf cnt ppos w else (w, 0, 1000)))\<rparr>"

definition plain_rw_state :: "(u8 list) rw_state" where
  "plain_rw_state = \<lparr>table = \<lparr>fds = (\<lambda>fd. if fd = 3 then Some 1 else None),
       files = (\<lambda>_. \<lparr>f_pos = 2, f_version = 0, f_mode = 0x6001F, i_size = 5, s_maxbytes = 0x7fffffffffffffff\<rparr>)\<rparr>,
     world = (\<lambda>_. 0, [10, 11, 12, 13, 14]), rchar = 0, wchar = 0, syscr = 0, syscw = 0,
     usage = \<lparr>syscall_counters = None\<rparr>\<rparr>"

lemma plain_advancing: "advancing plain_rw_env n"
proof -
  have "fop_ok plain_read"
  proof -
    have "int (min a (unat cnt)) \<le> uint (cnt :: u64)" for a cnt
      unfolding uint_nat of_nat_le_iff by simp
    then show ?thesis by (auto simp: fop_ok_def plain_read_def Let_def pos_val_def)
  qed
  moreover have "uint (c :: u64) \<noteq> - EIOCBQUEUED" for c using uint_ge_0[of c] by linarith
  then have "iter_ok plain_write_iter" by (simp add: iter_ok_def plain_write_iter_def)
  ultimately show ?thesis by (simp add: advancing_def plain_rw_env_def)
qed


theorem file_operations_called_in_range_witness:
  "do_rw plain_rw_env (Read 3 4096 0x80000000) plain_rw_state = do_rw wild_rw_env (Read 3 4096 0x80000000) plain_rw_state
   \<and> plain_read 4096 0x80000000 None \<noteq> the (op_read wild_rw_env 1) 4096 0x80000000 None"
proof
  have "agree_env plain_rw_env wild_rw_env"
    by (simp add: agree_env_def wild_rw_env_def plain_rw_env_def agree_fop_def agree_iter_def)
  moreover have "\<not> unsigned_offsets (files (table plain_rw_state) n)" for n
    by (simp add: plain_rw_state_def unsigned_offsets_def)
  ultimately show "do_rw plain_rw_env (Read 3 4096 0x80000000) plain_rw_state = do_rw wild_rw_env (Read 3 4096 0x80000000) plain_rw_state"
    by (rule file_operations_called_in_range)
  have "snd (snd (plain_read 4096 0x80000000 None (\<lambda>_. 0, []))) \<noteq> snd (snd (the (op_read wild_rw_env 1) 4096 0x80000000 None (\<lambda>_. 0, [])))"
    by (simp add: plain_read_def wild_rw_env_def in_range_def pos_val_def)
  then show "plain_read 4096 0x80000000 None \<noteq> the (op_read wild_rw_env 1) 4096 0x80000000 None" by metis
qed

end
