(* ===== verification/Vfs_Base.thy ===== *)
theory Vfs_Base
  imports Credentials "HOL-Library.State_Monad" "HOL-Library.Multiset"
begin

text \<open>
  Common ground of the calls of fs/open.c that work on paths and open files: the state, the
  functions of the rest of the kernel that these calls use, and the rules by which their
  bodies are taken apart.

  The state has the file system (of a type of its own), the subjective credentials of the
  task, the ledger \<open>held\<close> of locks and counted references that the running call holds, and
  the list of attribute changes that were requested, each with the ledger at that moment.
  Outside functions are the fields of \<open>vfs_env\<close>: they act on the file system and return a
  code. Those that come in pairs (\<open>mnt_want_write\<close> and \<open>mnt_drop_write\<close>, say) enter and leave
  the ledger: that is their documented meaning, and a call that fails enters nothing.
\<close>

named_theorems wp_simps \<open>weakest preconditions of the statements\<close>
named_theorems run_simps \<open>how the statements run\<close>
named_theorems tidy_intros \<open>actions that release what they take\<close>

section \<open>Constants\<close>

abbreviation (input) E2BIG :: int where "E2BIG \<equiv> 7"
abbreviation (input) ENODEV :: int where "ENODEV \<equiv> 19"
abbreviation (input) ENOTDIR :: int where "ENOTDIR \<equiv> 20"
abbreviation (input) EISDIR :: int where "EISDIR \<equiv> 21"
abbreviation (input) ETXTBSY :: int where "ETXTBSY \<equiv> 26"
abbreviation (input) EFBIG :: int where "EFBIG \<equiv> 27"
abbreviation (input) EROFS :: int where "EROFS \<equiv> 30"
abbreviation (input) EOPNOTSUPP :: int where "EOPNOTSUPP \<equiv> 95"
abbreviation (input) ESTALE :: int where "ESTALE \<equiv> 116"

abbreviation (input) AT_FDCWD :: int where "AT_FDCWD \<equiv> - 100"
abbreviation (input) AT_SYMLINK_NOFOLLOW :: u32 where "AT_SYMLINK_NOFOLLOW \<equiv> 0x100"
abbreviation (input) AT_EACCESS :: u32 where "AT_EACCESS \<equiv> 0x200"
abbreviation (input) AT_EMPTY_PATH :: u32 where "AT_EMPTY_PATH \<equiv> 0x1000"

abbreviation (input) LOOKUP_FOLLOW :: u32 where "LOOKUP_FOLLOW \<equiv> 0x1"
abbreviation (input) LOOKUP_DIRECTORY :: u32 where "LOOKUP_DIRECTORY \<equiv> 0x2"
abbreviation (input) LOOKUP_REVAL :: u32 where "LOOKUP_REVAL \<equiv> 0x20"
abbreviation (input) LOOKUP_EMPTY :: u32 where "LOOKUP_EMPTY \<equiv> 0x4000"

abbreviation (input) MAY_EXEC :: u32 where "MAY_EXEC \<equiv> 0x1"
abbreviation (input) MAY_WRITE :: u32 where "MAY_WRITE \<equiv> 0x2"
abbreviation (input) MAY_READ :: u32 where "MAY_READ \<equiv> 0x4"
abbreviation (input) MAY_APPEND :: u32 where "MAY_APPEND \<equiv> 0x8"
abbreviation (input) MAY_ACCESS :: u32 where "MAY_ACCESS \<equiv> 0x10"
abbreviation (input) MAY_CHDIR :: u32 where "MAY_CHDIR \<equiv> 0x40"

abbreviation (input) ATTR_MODE :: u32 where "ATTR_MODE \<equiv> 0x1"
abbreviation (input) ATTR_UID :: u32 where "ATTR_UID \<equiv> 0x2"
abbreviation (input) ATTR_GID :: u32 where "ATTR_GID \<equiv> 0x4"
abbreviation (input) ATTR_SIZE :: u32 where "ATTR_SIZE \<equiv> 0x8"
abbreviation (input) ATTR_MTIME :: u32 where "ATTR_MTIME \<equiv> 0x20"
abbreviation (input) ATTR_CTIME :: u32 where "ATTR_CTIME \<equiv> 0x40"
abbreviation (input) ATTR_FORCE :: u32 where "ATTR_FORCE \<equiv> 0x200"
abbreviation (input) ATTR_KILL_SUID :: u32 where "ATTR_KILL_SUID \<equiv> 0x800"
abbreviation (input) ATTR_KILL_SGID :: u32 where "ATTR_KILL_SGID \<equiv> 0x1000"
abbreviation (input) ATTR_FILE :: u32 where "ATTR_FILE \<equiv> 0x2000"
abbreviation (input) ATTR_KILL_PRIV :: u32 where "ATTR_KILL_PRIV \<equiv> 0x4000"

abbreviation (input) S_IALLUGO :: u16 where "S_IALLUGO \<equiv> 0xFFF"
abbreviation (input) MODE_WRITE :: u32 where "MODE_WRITE \<equiv> 0x2"
abbreviation (input) MAX_NON_LFS :: u64 where "MAX_NON_LFS \<equiv> 0x7FFFFFFF"

text \<open>A test of a C flag word: some bit of \<open>f\<close> is set in \<open>x\<close>.\<close>

definition has :: "'a::len word \<Rightarrow> 'a word \<Rightarrow> bool" where
  "has x f \<longleftrightarrow> x AND f \<noteq> 0"

text \<open>The file types of a mode word, as the macros of the kernel headers read them.\<close>

definition S_ISREG :: "u16 \<Rightarrow> bool" where
  "S_ISREG m \<longleftrightarrow> m AND 0xF000 = 0x8000"

definition S_ISDIR :: "u16 \<Rightarrow> bool" where
  "S_ISDIR m \<longleftrightarrow> m AND 0xF000 = 0x4000"

definition S_ISBLK :: "u16 \<Rightarrow> bool" where
  "S_ISBLK m \<longleftrightarrow> m AND 0xF000 = 0x6000"

definition S_ISFIFO :: "u16 \<Rightarrow> bool" where
  "S_ISFIFO m \<longleftrightarrow> m AND 0xF000 = 0x1000"

definition special_file :: "u16 \<Rightarrow> bool" where
  "special_file m \<longleftrightarrow> m AND 0xF000 = 0x2000 \<or> S_ISBLK m \<or> S_ISFIFO m \<or> m AND 0xF000 = 0xC000"

text \<open>A stale handle is tried again once, with revalidation.\<close>

definition retry_estale :: "int \<Rightarrow> u32 \<Rightarrow> bool" where
  "retry_estale err lookup_flags \<longleftrightarrow> err = - ESTALE \<and> \<not> has lookup_flags LOOKUP_REVAL"

section \<open>State\<close>

record path =
  mnt :: nat
  dentry :: nat

text \<open>Credentials with the two fields that \<open>access\<close> uses besides.\<close>

record acred = cred +
  securebits :: u32
  non_rcu :: bool

text \<open>What a call can hold: locks, references and write intents.\<close>

datatype res =
    PathRef path
  | FdRef nat
  | MntWrite nat
  | InodeWrite nat
  | InodeLock nat
  | SbWrite nat
  | ReadCount nat
  | MntAccess nat
  | FopsRef nat
  | MappingLock nat
  | FileRef nat

text \<open>A request to change attributes; \<open>ia_file\<close> is the file it goes through, if any.\<close>

record iattr =
  ia_valid :: u32
  ia_mode :: u16
  ia_vfsuid :: u32
  ia_vfsgid :: u32
  ia_size :: u64
  ia_file :: "nat option"

text \<open>The inode, its mode before the change, the request, and the ledger at that moment.\<close>

record change =
  c_inode :: nat
  c_mode :: u16
  c_attr :: iattr
  c_held :: "res multiset"

record 'w kst =
  vfs :: 'w
  cur :: acred
  held :: "res multiset"
  changes :: "change list"

type_synonym ('w, 'a) act = "('w kst, 'a) state"

section \<open>The rest of the kernel\<close>

record 'w vfs_env =
  user_path_at :: "int \<Rightarrow> addr \<Rightarrow> u32 \<Rightarrow> acred \<Rightarrow> 'w \<Rightarrow> 'w \<times> int \<times> path"
  fdget :: "'w \<Rightarrow> u32 \<Rightarrow> nat option"
  fdget_raw :: "'w \<Rightarrow> u32 \<Rightarrow> nat option"
  d_inode :: "nat \<Rightarrow> nat"
  i_mode :: "'w \<Rightarrow> nat \<Rightarrow> u16"
  i_sb :: "'w \<Rightarrow> nat \<Rightarrow> nat"
  sb_maxbytes :: "'w \<Rightarrow> nat \<Rightarrow> u64"
  IS_APPEND :: "'w \<Rightarrow> nat \<Rightarrow> bool"
  IS_IMMUTABLE :: "'w \<Rightarrow> nat \<Rightarrow> bool"
  IS_SWAPFILE :: "'w \<Rightarrow> nat \<Rightarrow> bool"
  file_path :: "nat \<Rightarrow> path"
  file_inode :: "nat \<Rightarrow> nat"
  file_flags :: "'w \<Rightarrow> nat \<Rightarrow> u32"
  file_mode :: "'w \<Rightarrow> nat \<Rightarrow> u32"
  mnt_want_write :: "nat \<Rightarrow> 'w \<Rightarrow> 'w \<times> int"
  mnt_want_write_file :: "nat \<Rightarrow> 'w \<Rightarrow> 'w \<times> int"
  get_write_access :: "nat \<Rightarrow> 'w \<Rightarrow> 'w \<times> int"
  inode_permission :: "nat \<Rightarrow> nat \<Rightarrow> u32 \<Rightarrow> acred \<Rightarrow> 'w \<Rightarrow> 'w \<times> int"
  break_lease :: "nat \<Rightarrow> u32 \<Rightarrow> 'w \<Rightarrow> 'w \<times> int"
  break_deleg_wait :: "nat \<Rightarrow> 'w \<Rightarrow> 'w \<times> int"
  dentry_needs_remove_privs :: "nat \<Rightarrow> nat \<Rightarrow> 'w \<Rightarrow> 'w \<times> int"
  notify_change :: "nat \<Rightarrow> nat \<Rightarrow> iattr \<Rightarrow> bool \<Rightarrow> acred \<Rightarrow> 'w \<Rightarrow> 'w \<times> int \<times> nat option"
  security_path_truncate :: "path \<Rightarrow> 'w \<Rightarrow> 'w \<times> int"
  security_file_truncate :: "nat \<Rightarrow> 'w \<Rightarrow> 'w \<times> int"
  security_path_chmod :: "path \<Rightarrow> u16 \<Rightarrow> 'w \<Rightarrow> 'w \<times> int"
  security_path_chown :: "path \<Rightarrow> u32 \<Rightarrow> u32 \<Rightarrow> 'w \<Rightarrow> 'w \<times> int"
  security_path_chroot :: "path \<Rightarrow> 'w \<Rightarrow> 'w \<times> int"
  security_permission :: "nat \<Rightarrow> u32 \<Rightarrow> 'w \<Rightarrow> 'w \<times> int"
  fsnotify_area_perm :: "nat \<Rightarrow> u32 \<Rightarrow> u64 \<Rightarrow> u64 \<Rightarrow> 'w \<Rightarrow> 'w \<times> int"
  op_fallocate :: "nat \<Rightarrow> (u32 \<Rightarrow> u64 \<Rightarrow> u64 \<Rightarrow> 'w \<Rightarrow> 'w \<times> int) option"
  fsnotify_modify :: "nat \<Rightarrow> 'w \<Rightarrow> 'w"
  path_noexec :: "'w \<Rightarrow> path \<Rightarrow> bool"
  mnt_is_readonly :: "'w \<Rightarrow> nat \<Rightarrow> bool"
  path_permission :: "path \<Rightarrow> u32 \<Rightarrow> acred \<Rightarrow> 'w \<Rightarrow> 'w \<times> int"
  file_permission :: "nat \<Rightarrow> u32 \<Rightarrow> acred \<Rightarrow> 'w \<Rightarrow> 'w \<times> int"
  d_can_lookup :: "'w \<Rightarrow> nat \<Rightarrow> bool"
  ns_capable_chroot :: "acred \<Rightarrow> bool"
  set_fs_pwd :: "path \<Rightarrow> 'w \<Rightarrow> 'w"
  set_fs_root :: "path \<Rightarrow> 'w \<Rightarrow> 'w"
  audit_file :: "nat \<Rightarrow> 'w \<Rightarrow> 'w"
  ns_kuid :: "nat \<Rightarrow> u32 \<Rightarrow> u32"
  ns_kgid :: "nat \<Rightarrow> u32 \<Rightarrow> u32"
  from_vfsuid :: "'w \<Rightarrow> nat \<Rightarrow> nat \<Rightarrow> u32 \<Rightarrow> u32"
  from_vfsgid :: "'w \<Rightarrow> nat \<Rightarrow> nat \<Rightarrow> u32 \<Rightarrow> u32"
  setattr_should_drop_sgid :: "'w \<Rightarrow> nat \<Rightarrow> nat \<Rightarrow> u32"
  copy_creds :: "acred \<Rightarrow> acred option"
  uninit_iattr :: iattr

text \<open>
  A local \<open>struct iattr\<close> is not initialised: \<open>uninit_iattr\<close> is what it holds. The functions that
  say which privileges a change removes return an error or a mask of the three bits for
  that.
\<close>

definition kill_masks_ok :: "'w vfs_env \<Rightarrow> bool" where
  "kill_masks_ok env \<longleftrightarrow>
     (\<forall>m d w. 0 \<le> snd (dentry_needs_remove_privs env m d w) \<longrightarrow>
        (of_int (snd (dentry_needs_remove_privs env m d w)) :: u32)
          AND NOT (ATTR_KILL_SUID OR ATTR_KILL_SGID OR ATTR_KILL_PRIV) = 0) \<and>
     (\<forall>w m i. setattr_should_drop_sgid env w m i AND NOT (ATTR_KILL_SUID OR ATTR_KILL_SGID OR ATTR_KILL_PRIV) = 0)"

section \<open>Statements\<close>

text \<open>Reading the file system, calling an outside function, taking and giving back.\<close>

definition ask :: "('w \<Rightarrow> 'a) \<Rightarrow> ('w, 'a) act" where
  "ask f = State (\<lambda>s. (f (vfs s), s))"

definition my_cred :: "('w, acred) act" where
  "my_cred = State (\<lambda>s. (cur s, s))"

definition ext :: "('w \<Rightarrow> 'w \<times> 'a) \<Rightarrow> ('w, 'a) act" where
  "ext f = State (\<lambda>s. let (w, r) = f (vfs s) in (r, s\<lparr>vfs := w\<rparr>))"

definition ext_unit :: "('w \<Rightarrow> 'w) \<Rightarrow> ('w, unit) act" where
  "ext_unit f = State (\<lambda>s. ((), s\<lparr>vfs := f (vfs s)\<rparr>))"

definition hold :: "res \<Rightarrow> ('w, unit) act" where
  "hold r = State (\<lambda>s. ((), s\<lparr>held := add_mset r (held s)\<rparr>))"

definition release :: "res \<Rightarrow> ('w, unit) act" where
  "release r = State (\<lambda>s. ((), s\<lparr>held := held s - {#r#}\<rparr>))"

definition acquire :: "res \<Rightarrow> ('w \<Rightarrow> 'w \<times> int) \<Rightarrow> ('w, int) act" where
  "acquire r f = do {
     e \<leftarrow> ext f;
     if e = 0 then do { hold r; State_Monad.return 0 } else State_Monad.return e
   }"

text \<open>A path lookup, which holds the path it returns.\<close>

definition lookup_path :: "'w vfs_env \<Rightarrow> int \<Rightarrow> addr \<Rightarrow> u32 \<Rightarrow> ('w, int \<times> path) act" where
  "lookup_path env dfd filename lookup_flags = do {
     c \<leftarrow> my_cred;
     (e, p) \<leftarrow> ext (user_path_at env dfd filename lookup_flags c);
     if e = 0 then do { hold (PathRef p); State_Monad.return (0, p) } else State_Monad.return (e, p)
   }"

text \<open>A request to change attributes is put on record when it is made.\<close>

definition change_attrs :: "'w vfs_env \<Rightarrow> nat \<Rightarrow> nat \<Rightarrow> iattr \<Rightarrow> bool \<Rightarrow> ('w, int \<times> nat option) act" where
  "change_attrs env m d a deleg = do {
     let ino = d_inode env d;
     mode \<leftarrow> ask (\<lambda>w. i_mode env w ino);
     c \<leftarrow> my_cred;
     _ \<leftarrow> State (\<lambda>s. ((), s\<lparr>changes := changes s @ [\<lparr>c_inode = ino, c_mode = mode, c_attr = a, c_held = held s\<rparr>]\<rparr>));
     ext (notify_change env m d a deleg c)
   }"

text \<open>
  The loop of the \<open>retry\<close> labels. The body says whether it reached the test at the end, and
  the code; the second round runs with \<open>LOOKUP_REVAL\<close> set, so there is no third.
\<close>

function retry_loop :: "(u32 \<Rightarrow> ('w, bool \<times> int) act) \<Rightarrow> u32 \<Rightarrow> 'w kst \<Rightarrow> int \<times> 'w kst" where
  "retry_loop body lookup_flags s =
     (case run_state (body lookup_flags) s of
        ((at_end, err), s1) \<Rightarrow>
          if at_end \<and> retry_estale err lookup_flags
          then retry_loop body (lookup_flags OR LOOKUP_REVAL) s1
          else (err, s1))"
  by pat_completeness auto

lemma has_or_self: "f \<noteq> 0 \<Longrightarrow> has (x OR f) (f :: 'a::len word)"
  by (simp add: has_def bit.conj_disj_distrib2)

termination retry_loop
  by (relation "measure (\<lambda>(body, lookup_flags, s). if has lookup_flags LOOKUP_REVAL then 0 else 1)")
    (auto simp: retry_estale_def has_or_self)

declare retry_loop.simps [simp del]

definition retrying :: "(u32 \<Rightarrow> ('w, bool \<times> int) act) \<Rightarrow> u32 \<Rightarrow> ('w, int) act" where
  "retrying body lookup_flags = State (retry_loop body lookup_flags)"

section \<open>Rules\<close>

definition wp :: "('w, 'a) act \<Rightarrow> ('a \<Rightarrow> 'w kst \<Rightarrow> bool) \<Rightarrow> 'w kst \<Rightarrow> bool" where
  "wp m Q s = (case run_state m s of (a, s') \<Rightarrow> Q a s')"

lemma wp_bind [wp_simps]: "wp (State_Monad.bind m f) Q s = wp m (\<lambda>a. wp (f a) Q) s"
  by (simp add: wp_def split: prod.split)

lemma wp_return [wp_simps]: "wp (State_Monad.return a) Q s = Q a s"
  by (simp add: wp_def)

lemma wp_if [wp_simps]: "wp (if b then m else n) Q s = (if b then wp m Q s else wp n Q s)"
  by simp

lemma wp_case_prod [wp_simps]: "wp (case p of (a, b) \<Rightarrow> m a b) Q s = (case p of (a, b) \<Rightarrow> wp (m a b) Q s)"
  by (cases p) simp

lemma wp_let [wp_simps]: "wp (let x = t in m x) Q s = wp (m t) Q s"
  by simp

lemma wp_basic [wp_simps]:
  "wp (ask f) R s = R (f (vfs s)) s"
  "wp my_cred Rc s = Rc (cur s) s"
  "wp (ext g) R' s = (case g (vfs s) of (w, r) \<Rightarrow> R' r (s\<lparr>vfs := w\<rparr>))"
  "wp (ext_unit h) Q s = Q () (s\<lparr>vfs := h (vfs s)\<rparr>)"
  "wp (hold r) Q s = Q () (s\<lparr>held := add_mset r (held s)\<rparr>)"
  "wp (release r) Q s = Q () (s\<lparr>held := held s - {#r#}\<rparr>)"
  by (simp_all add: wp_def ask_def my_cred_def ext_def ext_unit_def hold_def release_def split: prod.split)

lemma run_basic [run_simps]:
  "run_state (ask f) s = (f (vfs s), s)"
  "run_state my_cred s = (cur s, s)"
  "run_state (ext g) s = (case g (vfs s) of (w, r) \<Rightarrow> (r, s\<lparr>vfs := w\<rparr>))"
  "run_state (ext_unit h) s = ((), s\<lparr>vfs := h (vfs s)\<rparr>)"
  "run_state (hold r) s = ((), s\<lparr>held := add_mset r (held s)\<rparr>)"
  "run_state (release r) s = ((), s\<lparr>held := held s - {#r#}\<rparr>)"
  by (simp_all add: ask_def my_cred_def ext_def ext_unit_def hold_def release_def)

lemma run_structure [run_simps]:
  "run_state (if b then m else n) s = (if b then run_state m s else run_state n s)"
  "run_state (let x = t in k x) s = run_state (k t) s"
  "run_state (case p of (a, c) \<Rightarrow> j a c) s = (case p of (a, c) \<Rightarrow> run_state (j a c) s)"
  by (simp_all split: prod.split)

lemma run_acquire [run_simps]:
  "run_state (acquire r f) s = (case f (vfs s) of (w, e) \<Rightarrow>
     (e, if e = 0 then s\<lparr>vfs := w, held := add_mset r (held s)\<rparr> else s\<lparr>vfs := w\<rparr>))"
  by (simp add: acquire_def run_basic split: prod.split)

lemma run_retrying [run_simps]: "run_state (retrying body lf) s = retry_loop body lf s"
  by (simp add: retrying_def)

section \<open>Tidy actions\<close>

text \<open>
  An attribute change is in order: the inode is locked, a write intent on the mount or the
  file system is held, a new size is not negative, a new mode keeps the file type, and new
  owners are valid ids.
\<close>

fun write_intent :: "res \<Rightarrow> bool" where
  "write_intent (MntWrite m) = True"
| "write_intent (SbWrite b) = True"
| "write_intent r = False"

definition intent_held :: "res multiset \<Rightarrow> bool" where
  "intent_held h \<longleftrightarrow> (\<exists>r \<in># h. write_intent r)"

lemma intent_held_add [simp]: "intent_held (add_mset r h) \<longleftrightarrow> write_intent r \<or> intent_held h"
  by (auto simp: intent_held_def)

definition change_ok :: "change \<Rightarrow> bool" where
  "change_ok c \<longleftrightarrow>
     InodeLock (c_inode c) \<in># c_held c \<and> intent_held (c_held c) \<and>
     (has (ia_valid (c_attr c)) ATTR_SIZE \<longrightarrow> 0 \<le> sint (ia_size (c_attr c))) \<and>
     (has (ia_valid (c_attr c)) ATTR_MODE \<longrightarrow> ia_mode (c_attr c) AND NOT S_IALLUGO = c_mode c AND NOT S_IALLUGO) \<and>
     (has (ia_valid (c_attr c)) ATTR_UID \<longrightarrow> uid_valid (ia_vfsuid (c_attr c))) \<and>
     (has (ia_valid (c_attr c)) ATTR_GID \<longrightarrow> gid_valid (ia_vfsgid (c_attr c)))"

definition evolves :: "'w kst \<Rightarrow> 'w kst \<Rightarrow> bool" where
  "evolves s s' \<longleftrightarrow> cur s' = cur s \<and> (\<exists>cs. changes s' = changes s @ cs \<and> list_all change_ok cs)"

lemma evolves_refl [simp]: "evolves s s"
  by (simp add: evolves_def)

lemma evolves_trans: "evolves s s' \<Longrightarrow> evolves s' s'' \<Longrightarrow> evolves s s''"
  by (auto simp: evolves_def)

lemma evolves_frame [simp]:
  "evolves s (s'\<lparr>vfs := w\<rparr>) = evolves s s'" "evolves s (s'\<lparr>held := h\<rparr>) = evolves s s'"
  "evolves (s\<lparr>vfs := w\<rparr>) s' = evolves s s'" "evolves (s\<lparr>held := h\<rparr>) s' = evolves s s'"
  by (simp_all add: evolves_def)

lemma evolves_change:
  "change_ok c \<Longrightarrow> evolves s (s\<lparr>changes := changes s @ [c]\<rparr>)"
  by (simp add: evolves_def)

text \<open>Started with a ledger that satisfies \<open>P\<close>, the action ends with the same ledger.\<close>

definition tidy :: "(res multiset \<Rightarrow> bool) \<Rightarrow> ('w, 'a) act \<Rightarrow> bool" where
  "tidy P m \<longleftrightarrow> (\<forall>s. P (held s) \<longrightarrow> wp m (\<lambda>a s'. held s' = held s \<and> evolves s s') s)"

abbreviation always :: "res multiset \<Rightarrow> bool" where
  "always \<equiv> (\<lambda>_. True)"

lemma tidyI: "(\<And>s. P (held s) \<Longrightarrow> wp m (\<lambda>a s'. held s' = held s \<and> evolves s s') s) \<Longrightarrow> tidy P m"
  by (simp add: tidy_def)

lemma tidy_if [tidy_intros]:
  "(b \<Longrightarrow> tidy P m) \<Longrightarrow> (\<not> b \<Longrightarrow> tidy P n) \<Longrightarrow> tidy P (if b then m else n)"
  by simp

lemma tidy_return [tidy_intros]: "tidy P (State_Monad.return a)"
  by (simp add: tidy_def wp_simps)

lemma wp_mono: "wp m Q s \<Longrightarrow> (\<And>a s'. Q a s' \<Longrightarrow> R a s') \<Longrightarrow> wp m R s"
  by (auto simp: wp_def split: prod.splits)

lemma tidy_call:
  assumes "tidy P m" and "P (held s)" and "\<And>a s'. held s' = held s \<Longrightarrow> evolves s s' \<Longrightarrow> Q a s'"
  shows "wp m Q s"
  using assms wp_mono[of m "\<lambda>a s'. held s' = held s \<and> evolves s s'" s Q] by (simp add: tidy_def)

lemma tidy_run:
  assumes "tidy P m" and "P (held s)" and "run_state m s = (a, s')"
  shows "held s' = held s \<and> evolves s s'"
proof -
  have "wp m (\<lambda>a s'. held s' = held s \<and> evolves s s') s"
    using assms(1,2) unfolding tidy_def by blast
  then show ?thesis using assms(3) unfolding wp_def by simp
qed

lemma tidy_retry_loop:
  "(\<And>lf. tidy P (body lf)) \<Longrightarrow> P (held s) \<Longrightarrow>
     held (snd (retry_loop body lf s)) = held s \<and> evolves s (snd (retry_loop body lf s))"
proof (induction body lf s rule: retry_loop.induct)
  case (1 body lf s)
  obtain at_end err s1 where r: "run_state (body lf) s = ((at_end, err), s1)"
    by (metis surj_pair)
  have s1: "held s1 = held s" "evolves s s1"
    using tidy_run[OF "1.prems"(1) "1.prems"(2) r] by simp_all
  show ?case
  proof (cases "at_end \<and> retry_estale err lf")
    case True
    then have "held (snd (retry_loop body (lf OR LOOKUP_REVAL) s1)) = held s1 \<and>
        evolves s1 (snd (retry_loop body (lf OR LOOKUP_REVAL) s1))"
      using "1.IH"[OF r[symmetric] refl True] "1.prems" s1(1) by simp
    moreover have "retry_loop body lf s = retry_loop body (lf OR LOOKUP_REVAL) s1"
      using True r by (subst retry_loop.simps) simp
    ultimately show ?thesis using s1 evolves_trans[OF s1(2)] by simp
  next
    case False
    then have "retry_loop body lf s = (err, s1)"
      using r by (subst retry_loop.simps) auto
    then show ?thesis using s1 by simp
  qed
qed

lemma tidy_retrying [tidy_intros]: "(\<And>lf. tidy P (body lf)) \<Longrightarrow> tidy P (retrying body lf)"
  by (rule tidyI) (simp add: wp_def retrying_def split_beta tidy_retry_loop[of P body])

text \<open>Taking a resource and giving it back around a tidy body.\<close>

lemma wp_acquire [wp_simps]:
  "wp (acquire r f) Q s = (case f (vfs s) of (w, e) \<Rightarrow>
     if e = 0 then Q 0 (s\<lparr>vfs := w, held := add_mset r (held s)\<rparr>) else Q e (s\<lparr>vfs := w\<rparr>))"
  by (simp add: acquire_def wp_simps split: prod.split)

lemma wp_lookup_path [wp_simps]:
  "wp (lookup_path env dfd fn lf) Q s = (case user_path_at env dfd fn lf (cur s) (vfs s) of (w, e, p) \<Rightarrow>
     if e = 0 then Q (0, p) (s\<lparr>vfs := w, held := add_mset (PathRef p) (held s)\<rparr>) else Q (e, p) (s\<lparr>vfs := w\<rparr>))"
  by (simp add: lookup_path_def wp_simps split: prod.split)

lemma wp_change_attrs:
  assumes "change_ok \<lparr>c_inode = d_inode env d, c_mode = i_mode env (vfs s) (d_inode env d), c_attr = a, c_held = held s\<rparr>"
    and "\<And>r s'. held s' = held s \<Longrightarrow> evolves s s' \<Longrightarrow> Q r s'"
  shows "wp (change_attrs env m d a deleg) Q s"
proof -
  have "wp (State (\<lambda>s. ((), f s))) R s = R () (f s)" for f :: "'a kst \<Rightarrow> 'a kst" and R and s
    by (simp add: wp_def)
  then show ?thesis
    using evolves_change[OF assms(1)]
    by (auto simp: change_attrs_def wp_simps intro!: assms(2) split: prod.split)
qed

text \<open>A mask of removed privileges announces no mode and no owner.\<close>

lemma and_not_zero: "(k :: 'a::len word) AND NOT m = 0 \<Longrightarrow> k = k AND m"
  by (metis bit.conj_cancel_right bit.conj_disj_distrib bit.conj_one_right bit.disj_cancel_right or.right_neutral)

lemma kill_bits:
  assumes "(k :: u32) AND NOT (ATTR_KILL_SUID OR ATTR_KILL_SGID OR ATTR_KILL_PRIV) = 0"
  shows "k AND ATTR_MODE = 0" "k AND ATTR_UID = 0" "k AND ATTR_GID = 0" "k AND ATTR_SIZE = 0"
proof -
  have k: "k = k AND 0x5800" using and_not_zero[OF assms] by simp
  have "k AND x = k AND (0x5800 AND x)" for x by (subst k) (simp add: and.assoc)
  from this[of 1] this[of 2] this[of 4] this[of 8]
  show "k AND ATTR_MODE = 0" "k AND ATTR_UID = 0" "k AND ATTR_GID = 0" "k AND ATTR_SIZE = 0" by simp_all
qed

section \<open>An instance\<close>

text \<open>
  A small file system for the witnesses: every path names one regular file, descriptor 3
  is open on it, and the state is the number of delegations that other clients hold, each
  of which makes one attribute change wait.
\<close>

definition plain_vfs_env :: "nat vfs_env" where
  "plain_vfs_env =
     \<lparr>user_path_at = (\<lambda>dfd fn lf c w. (w, 0, \<lparr>mnt = 1, dentry = 5\<rparr>)),
      fdget = (\<lambda>w fd. if fd = 3 then Some 7 else None),
      fdget_raw = (\<lambda>w fd. if fd = 3 then Some 7 else None),
      d_inode = (\<lambda>d. d + 100), i_mode = (\<lambda>w i. 0x81A4), i_sb = (\<lambda>w i. 1), sb_maxbytes = (\<lambda>w b. 1000000),
      IS_APPEND = (\<lambda>w i. False), IS_IMMUTABLE = (\<lambda>w i. False), IS_SWAPFILE = (\<lambda>w i. False),
      file_path = (\<lambda>f. \<lparr>mnt = 1, dentry = 5\<rparr>), file_inode = (\<lambda>f. 105),
      file_flags = (\<lambda>w f. 0x8002), file_mode = (\<lambda>w f. 0x3),
      mnt_want_write = (\<lambda>m w. (w, 0)), mnt_want_write_file = (\<lambda>f w. (w, 0)), get_write_access = (\<lambda>i w. (w, 0)),
      inode_permission = (\<lambda>m i k c w. (w, if fsuid c = 0 then 0 else - EACCES)), break_lease = (\<lambda>i k w. (w, 0)),
      break_deleg_wait = (\<lambda>i w. (w - 1, 0)), dentry_needs_remove_privs = (\<lambda>m d w. (w, 0)),
      notify_change = (\<lambda>m d a g c w. if 0 < w then (w, - 11, Some d) else (w, 0, None)),
      security_path_truncate = (\<lambda>p w. (w, 0)), security_file_truncate = (\<lambda>f w. (w, 0)),
      security_path_chmod = (\<lambda>p m w. (w, 0)), security_path_chown = (\<lambda>p u g w. (w, 0)),
      security_path_chroot = (\<lambda>p w. (w, 0)), security_permission = (\<lambda>f k w. (w, 0)),
      fsnotify_area_perm = (\<lambda>f k p n w. (w, 0)), op_fallocate = (\<lambda>f. Some (\<lambda>m p n w. (w, 0))),
      fsnotify_modify = (\<lambda>f w. w), path_noexec = (\<lambda>w p. False), mnt_is_readonly = (\<lambda>w m. False),
      path_permission = (\<lambda>p k c w. (w, 0)), file_permission = (\<lambda>f k c w. (w, 0)), d_can_lookup = (\<lambda>w d. True),
      ns_capable_chroot = (\<lambda>c. True), set_fs_pwd = (\<lambda>p w. w), set_fs_root = (\<lambda>p w. w), audit_file = (\<lambda>f w. w),
      ns_kuid = (\<lambda>n u. u), ns_kgid = (\<lambda>n g. g), from_vfsuid = (\<lambda>w m i u. u), from_vfsgid = (\<lambda>w m i g. g),
      setattr_should_drop_sgid = (\<lambda>w m i. 0), copy_creds = (\<lambda>c. Some (c\<lparr>non_rcu := False\<rparr>)),
      uninit_iattr = \<lparr>ia_valid = 0, ia_mode = 0, ia_vfsuid = 0, ia_vfsgid = 0, ia_size = 0, ia_file = None\<rparr>\<rparr>"

definition plain_acred :: acred where
  "plain_acred = \<lparr>uid = 1000, gid = 1000, suid = 0, sgid = 1000, euid = 0, egid = 1000, fsuid = 0, fsgid = 1000,
     cap_permitted = 0, cap_effective = 0, user = 1, ucounts = 1, user_ns = 0, securebits = 0, non_rcu = False\<rparr>"

definition plain_kst :: "nat \<Rightarrow> nat kst" where
  "plain_kst w = \<lparr>vfs = w, cur = plain_acred, held = {#}, changes = []\<rparr>"

lemma plain_kill_masks_ok: "kill_masks_ok plain_vfs_env"
  by (simp add: kill_masks_ok_def plain_vfs_env_def)

end
