(* ===== verification/Truncate.thy ===== *)
theory Truncate
  imports Vfs_Base File_Position
begin

text \<open>
  Changing the size of a file and reserving space (fs/open.c, \<open>do_truncate\<close> to \<open>fallocate\<close>).
  A \<open>loff_t\<close> is a 64-bit word that is read as signed.
\<close>

section \<open>Operations\<close>

abbreviation (input) O_WRONLY_LEASE :: u32 where "O_WRONLY_LEASE \<equiv> 0x1"
abbreviation (input) LARGEFILE :: u32 where "LARGEFILE \<equiv> 0x8000"

definition do_truncate :: "'w vfs_env \<Rightarrow> nat \<Rightarrow> nat \<Rightarrow> u64 \<Rightarrow> u32 \<Rightarrow> nat option \<Rightarrow> ('w, int) act" where
  "do_truncate env m d len time_attrs filp =
     (if sint len < 0 then State_Monad.return (- EINVAL)
      else do {
        let newattrs = (uninit_iattr env)\<lparr>ia_size := len, ia_valid := ATTR_SIZE OR time_attrs\<rparr>;
        let newattrs = (if filp \<noteq> None
          then newattrs\<lparr>ia_file := filp, ia_valid := ia_valid newattrs OR ATTR_FILE\<rparr> else newattrs);
        ret \<leftarrow> ext (dentry_needs_remove_privs env m d);
        if ret < 0 then State_Monad.return ret
        else do {
          let newattrs = (if ret \<noteq> 0
            then newattrs\<lparr>ia_valid := ia_valid newattrs OR (of_int ret OR ATTR_FORCE)\<rparr> else newattrs);
          hold (InodeLock (d_inode env d));
          (ret, _) \<leftarrow> change_attrs env m d newattrs False;
          release (InodeLock (d_inode env d));
          State_Monad.return ret
        }
      })"

definition vfs_truncate :: "'w vfs_env \<Rightarrow> path \<Rightarrow> u64 \<Rightarrow> ('w, int) act" where
  "vfs_truncate env p len = do {
     let ino = d_inode env (dentry p);
     mode \<leftarrow> ask (\<lambda>w. i_mode env w ino);
     if S_ISDIR mode then State_Monad.return (- EISDIR)
     else if \<not> S_ISREG mode then State_Monad.return (- EINVAL)
     else do {
       err \<leftarrow> acquire (MntWrite (mnt p)) (mnt_want_write env (mnt p));
       if err \<noteq> 0 then State_Monad.return err
       else do {
         c \<leftarrow> my_cred;
         err \<leftarrow> ext (inode_permission env (mnt p) ino MAY_WRITE c);
         app \<leftarrow> ask (\<lambda>w. IS_APPEND env w ino);
         err \<leftarrow> (if err \<noteq> 0 then State_Monad.return err
           else if app then State_Monad.return (- EPERM)
           else do {
             err \<leftarrow> acquire (InodeWrite ino) (get_write_access env ino);
             if err \<noteq> 0 then State_Monad.return err
             else do {
               err \<leftarrow> ext (break_lease env ino O_WRONLY_LEASE);
               err \<leftarrow> (if err \<noteq> 0 then State_Monad.return err
                 else do {
                   err \<leftarrow> ext (security_path_truncate env p);
                   if err = 0 then do_truncate env (mnt p) (dentry p) len 0 None
                   else State_Monad.return err
                 });
               release (InodeWrite ino);
               State_Monad.return err
             }
           });
         release (MntWrite (mnt p));
         State_Monad.return err
       }
     }
   }"

definition do_sys_truncate :: "'w vfs_env \<Rightarrow> addr \<Rightarrow> u64 \<Rightarrow> ('w, int) act" where
  "do_sys_truncate env pathname len =
     (if sint len < 0 then State_Monad.return (- EINVAL)
      else retrying (\<lambda>lookup_flags. do {
        (err, p) \<leftarrow> lookup_path env AT_FDCWD pathname lookup_flags;
        if err = 0 then do {
          err \<leftarrow> vfs_truncate env p len;
          release (PathRef p);
          State_Monad.return (True, err)
        } else State_Monad.return (True, err)
      }) LOOKUP_FOLLOW)"

definition sys_truncate :: "'w vfs_env \<Rightarrow> addr \<Rightarrow> u64 \<Rightarrow> ('w, int) act" where
  "sys_truncate env p len = do_sys_truncate env p len"

definition compat_sys_truncate :: "'w vfs_env \<Rightarrow> addr \<Rightarrow> u32 \<Rightarrow> ('w, int) act" where
  "compat_sys_truncate env p len = do_sys_truncate env p (scast len)"

definition do_sys_ftruncate :: "'w vfs_env \<Rightarrow> u32 \<Rightarrow> u64 \<Rightarrow> bool \<Rightarrow> ('w, int) act" where
  "do_sys_ftruncate env fd len small =
     (if sint len < 0 then State_Monad.return (- EINVAL)
      else do {
        f \<leftarrow> ask (\<lambda>w. fdget env w fd);
        case f of
          None \<Rightarrow> State_Monad.return (- EBADF)
        | Some f \<Rightarrow> do {
            hold (FdRef f);
            fl \<leftarrow> ask (\<lambda>w. file_flags env w f);
            fm \<leftarrow> ask (\<lambda>w. file_mode env w f);
            let p = file_path env f;
            let small = (if has fl LARGEFILE then False else small);
            let ino = d_inode env (dentry p);
            mode \<leftarrow> ask (\<lambda>w. i_mode env w ino);
            app \<leftarrow> ask (\<lambda>w. IS_APPEND env w (file_inode env f));
            err \<leftarrow> (if \<not> S_ISREG mode \<or> \<not> has fm MODE_WRITE then State_Monad.return (- EINVAL)
              else if small \<and> sint len > sint MAX_NON_LFS then State_Monad.return (- EINVAL)
              else if app then State_Monad.return (- EPERM)
              else do {
                sb \<leftarrow> ask (\<lambda>w. i_sb env w ino);
                hold (SbWrite sb);
                err \<leftarrow> ext (security_file_truncate env f);
                err \<leftarrow> (if err = 0
                  then do_truncate env (mnt p) (dentry p) len (ATTR_MTIME OR ATTR_CTIME) (Some f)
                  else State_Monad.return err);
                release (SbWrite sb);
                State_Monad.return err
              });
            release (FdRef f);
            State_Monad.return err
          }
      })"

definition sys_ftruncate :: "'w vfs_env \<Rightarrow> u32 \<Rightarrow> u64 \<Rightarrow> ('w, int) act" where
  "sys_ftruncate env fd len = do_sys_ftruncate env fd len True"

definition compat_sys_ftruncate :: "'w vfs_env \<Rightarrow> u32 \<Rightarrow> u32 \<Rightarrow> ('w, int) act" where
  "compat_sys_ftruncate env fd len = do_sys_ftruncate env fd (ucast len) True"

section \<open>Reserving space\<close>

abbreviation (input) FALLOC_FL_KEEP_SIZE :: u32 where "FALLOC_FL_KEEP_SIZE \<equiv> 0x1"
abbreviation (input) FALLOC_FL_PUNCH_HOLE :: u32 where "FALLOC_FL_PUNCH_HOLE \<equiv> 0x2"
abbreviation (input) FALLOC_FL_COLLAPSE_RANGE :: u32 where "FALLOC_FL_COLLAPSE_RANGE \<equiv> 0x8"
abbreviation (input) FALLOC_FL_ZERO_RANGE :: u32 where "FALLOC_FL_ZERO_RANGE \<equiv> 0x10"
abbreviation (input) FALLOC_FL_INSERT_RANGE :: u32 where "FALLOC_FL_INSERT_RANGE \<equiv> 0x20"
abbreviation (input) FALLOC_FL_UNSHARE_RANGE :: u32 where "FALLOC_FL_UNSHARE_RANGE \<equiv> 0x40"
abbreviation (input) FALLOC_FL_SUPPORTED_MASK :: u32 where "FALLOC_FL_SUPPORTED_MASK \<equiv> 0x7B"

text \<open>The checks of the mode alone, in their order.\<close>

definition falloc_mode_check :: "u32 \<Rightarrow> int" where
  "falloc_mode_check mode =
     (if has mode (NOT FALLOC_FL_SUPPORTED_MASK) then - EOPNOTSUPP
      else if mode AND (FALLOC_FL_PUNCH_HOLE OR FALLOC_FL_ZERO_RANGE)
                = (FALLOC_FL_PUNCH_HOLE OR FALLOC_FL_ZERO_RANGE) then - EOPNOTSUPP
      else if has mode FALLOC_FL_PUNCH_HOLE \<and> \<not> has mode FALLOC_FL_KEEP_SIZE then - EOPNOTSUPP
      else if has mode FALLOC_FL_COLLAPSE_RANGE \<and> has mode (NOT FALLOC_FL_COLLAPSE_RANGE) then - EINVAL
      else if has mode FALLOC_FL_INSERT_RANGE \<and> has mode (NOT FALLOC_FL_INSERT_RANGE) then - EINVAL
      else if has mode FALLOC_FL_UNSHARE_RANGE
                \<and> has mode (NOT (FALLOC_FL_UNSHARE_RANGE OR FALLOC_FL_KEEP_SIZE)) then - EINVAL
      else 0)"

definition vfs_fallocate :: "'w vfs_env \<Rightarrow> nat \<Rightarrow> u32 \<Rightarrow> u64 \<Rightarrow> u64 \<Rightarrow> ('w, int) act" where
  "vfs_fallocate env f mode offset len = do {
     let ino = file_inode env f;
     fm \<leftarrow> ask (\<lambda>w. file_mode env w f);
     app \<leftarrow> ask (\<lambda>w. IS_APPEND env w ino);
     imm \<leftarrow> ask (\<lambda>w. IS_IMMUTABLE env w ino);
     swp \<leftarrow> ask (\<lambda>w. IS_SWAPFILE env w ino);
     if sint offset < 0 \<or> sint len \<le> 0 then State_Monad.return (- EINVAL)
     else if falloc_mode_check mode \<noteq> 0 then State_Monad.return (falloc_mode_check mode)
     else if \<not> has fm MODE_WRITE then State_Monad.return (- EBADF)
     else if has mode (NOT FALLOC_FL_KEEP_SIZE) \<and> app then State_Monad.return (- EPERM)
     else if imm then State_Monad.return (- EPERM)
     else if swp then State_Monad.return (- ETXTBSY)
     else do {
       ret \<leftarrow> ext (security_permission env f MAY_WRITE);
       if ret \<noteq> 0 then State_Monad.return ret
       else do {
         ret \<leftarrow> ext (fsnotify_area_perm env f MAY_WRITE offset len);
         im \<leftarrow> ask (\<lambda>w. i_mode env w ino);
         maxbytes \<leftarrow> ask (\<lambda>w. sb_maxbytes env w (i_sb env w ino));
         if ret \<noteq> 0 then State_Monad.return ret
         else if S_ISFIFO im then State_Monad.return (- ESPIPE)
         else if S_ISDIR im then State_Monad.return (- EISDIR)
         else if \<not> S_ISREG im \<and> \<not> S_ISBLK im then State_Monad.return (- ENODEV)
         else if sint (offset + len) > sint maxbytes \<or> sint (offset + len) < 0
           then State_Monad.return (- EFBIG)
         else case op_fallocate env f of
           None \<Rightarrow> State_Monad.return (- EOPNOTSUPP)
         | Some op \<Rightarrow> do {
             sb \<leftarrow> ask (\<lambda>w. i_sb env w ino);
             hold (SbWrite sb);
             ret \<leftarrow> ext (op mode offset len);
             (if ret = 0 then ext_unit (fsnotify_modify env f) else State_Monad.return ());
             release (SbWrite sb);
             State_Monad.return ret
           }
       }
     }
   }"

definition ksys_fallocate :: "'w vfs_env \<Rightarrow> u32 \<Rightarrow> u32 \<Rightarrow> u64 \<Rightarrow> u64 \<Rightarrow> ('w, int) act" where
  "ksys_fallocate env fd mode offset len = do {
     f \<leftarrow> ask (\<lambda>w. fdget env w fd);
     case f of
       None \<Rightarrow> State_Monad.return (- EBADF)
     | Some f \<Rightarrow> do {
         hold (FdRef f);
         err \<leftarrow> vfs_fallocate env f mode offset len;
         release (FdRef f);
         State_Monad.return err
       }
   }"

definition sys_fallocate :: "'w vfs_env \<Rightarrow> u32 \<Rightarrow> u32 \<Rightarrow> u64 \<Rightarrow> u64 \<Rightarrow> ('w, int) act" where
  "sys_fallocate env fd mode offset len = ksys_fallocate env fd mode offset len"

section \<open>Every path gives back what it takes\<close>

lemma tidy_do_truncate:
  assumes "kill_masks_ok env" and "time_attrs AND ATTR_MODE = 0" "time_attrs AND ATTR_UID = 0" "time_attrs AND ATTR_GID = 0"
  shows "tidy intent_held (do_truncate env m d len time_attrs filp)"
proof (rule tidyI)
  fix s :: "'a kst"
  assume i: "intent_held (held s)"
  show "wp (do_truncate env m d len time_attrs filp) (\<lambda>a s'. held s' = held s \<and> evolves s s') s"
  proof (cases "sint len < 0")
    case True
    then show ?thesis by (simp add: do_truncate_def wp_simps)
  next
    case False
    obtain w ret where r: "dentry_needs_remove_privs env m d (vfs s) = (w, ret)" by (rule prod.exhaust)
    have k: "of_int ret AND ATTR_MODE = (0 :: u32)" "of_int ret AND ATTR_UID = (0 :: u32)"
      "of_int ret AND ATTR_GID = (0 :: u32)" if "0 \<le> ret"
      using kill_bits[of "of_int ret"] assms(1) r that unfolding kill_masks_ok_def by (metis snd_conv)+
    show ?thesis
      using False i assms(2-4) k
      by (auto simp: do_truncate_def wp_simps r change_ok_def has_def bit.conj_disj_distrib2
          intro!: wp_change_attrs)
  qed
qed

lemma tidy_vfs_truncate: "kill_masks_ok env \<Longrightarrow> tidy always (vfs_truncate env p len)"
  by (rule tidyI) (auto simp: vfs_truncate_def wp_simps
      intro!: tidy_call[OF tidy_do_truncate] split: prod.split)

lemma tidy_do_sys_truncate: "kill_masks_ok env \<Longrightarrow> tidy always (do_sys_truncate env pathname len)"
  unfolding do_sys_truncate_def
  by (intro tidy_intros, rule tidyI)
    (auto intro!: tidy_call[OF tidy_vfs_truncate] simp: wp_simps split: prod.split)

lemma tidy_do_sys_ftruncate: "kill_masks_ok env \<Longrightarrow> tidy always (do_sys_ftruncate env fd len small)"
  unfolding do_sys_ftruncate_def
  by (rule tidyI) (auto simp: wp_simps intro!: tidy_call[OF tidy_do_truncate] split: prod.split option.split)

lemma tidy_ksys_fallocate: "tidy always (ksys_fallocate env fd mode offset len)"
  unfolding ksys_fallocate_def vfs_fallocate_def
  by (rule tidyI) (auto simp: wp_simps split: prod.split option.split)

section \<open>Space is reserved in range\<close>

text \<open>
  What \<open>vfs_fallocate\<close> promises to the file system: an admissible mode, a regular file or a
  block device, and a range of positive length that ends, as an integer, within the largest
  size of the file system.
\<close>

definition falloc_in_range :: "'w vfs_env \<Rightarrow> nat \<Rightarrow> u32 \<Rightarrow> u64 \<Rightarrow> u64 \<Rightarrow> 'w \<Rightarrow> bool" where
  "falloc_in_range env f mode offset len w \<longleftrightarrow>
     falloc_mode_check mode = 0 \<and> 0 \<le> sint offset \<and> 0 < sint len \<and>
     sint offset + sint len \<le> sint (sb_maxbytes env w (i_sb env w (file_inode env f))) \<and>
     (S_ISREG (i_mode env w (file_inode env f)) \<or> S_ISBLK (i_mode env w (file_inode env f)))"

type_synonym 'w falloc_op = "u32 \<Rightarrow> u64 \<Rightarrow> u64 \<Rightarrow> 'w \<Rightarrow> 'w \<times> int"

definition falloc_agree :: "'w vfs_env \<Rightarrow> (nat \<Rightarrow> 'w falloc_op option) \<Rightarrow> bool" where
  "falloc_agree env ops \<longleftrightarrow> (\<forall>f. rel_option (\<lambda>a b. \<forall>mode offset len w.
     falloc_in_range env f mode offset len w \<longrightarrow> a mode offset len w = b mode offset len w) (op_fallocate env f) (ops f))"

lemma falloc_range_check:
  assumes "0 \<le> sint (offset :: u64)" and "0 < sint (len :: u64)"
  shows "sint (offset + len) > sint maxbytes \<or> sint (offset + len) < 0 \<longleftrightarrow> sint offset + sint len > sint (maxbytes :: u64)"
  using assms sint_add_64[of len offset] sint_range_64[of offset] sint_range_64[of len] sint_range_64[of maxbytes] by auto

lemma vfs_fallocate_agree:
  assumes "falloc_agree env ops"
  shows "vfs_fallocate (env\<lparr>op_fallocate := ops\<rparr>) f mode offset len = vfs_fallocate env f mode offset len"
proof (rule state_ext)
  fix s
  have rel: "rel_option (\<lambda>a b. \<forall>mode offset len w.
      falloc_in_range env f mode offset len w \<longrightarrow> a mode offset len w = b mode offset len w) (op_fallocate env f) (ops f)"
    using assms by (simp add: falloc_agree_def)
  show "run_state (vfs_fallocate (env\<lparr>op_fallocate := ops\<rparr>) f mode offset len) s = run_state (vfs_fallocate env f mode offset len) s"
  proof (cases "op_fallocate env f")
    case None
    then have "ops f = None" using rel by (auto elim: option.rel_cases)
    with None show ?thesis by (simp add: vfs_fallocate_def run_simps split: prod.split)
  next
    case (Some a)
    then obtain b where b: "ops f = Some b"
      and eq: "\<And>w. falloc_in_range env f mode offset len w \<Longrightarrow> a mode offset len w = b mode offset len w"
      using rel by (auto elim: option.rel_cases)
    show ?thesis
      using falloc_range_check[of offset len] eq
      by (simp add: vfs_fallocate_def run_simps Some b falloc_in_range_def split: prod.split)
  qed
qed

text \<open>
  C40. \<open>fallocate\<close> calls the file system only with ranges that make sense: replacing the
  \<open>fallocate\<close> operations of all files by others that agree on ranges of positive length, with
  non-negative start, ending (without overflow) within the largest file size, on regular files
  and block devices, and with admissible modes, changes nothing in the outcome of the call.
\<close>

theorem fallocate_in_range:
  assumes "falloc_agree env ops"
  shows "sys_fallocate (env\<lparr>op_fallocate := ops\<rparr>) fd mode offset len = sys_fallocate env fd mode offset len"
  by (rule state_ext)
    (simp add: sys_fallocate_def ksys_fallocate_def vfs_fallocate_agree[OF assms] run_simps split: option.split)

theorem fallocate_in_range_witness:
  "let ops = (\<lambda>f. Some (\<lambda>m p n w. if sint p < 0 then (w + 1, - 1) else (w, 0)))
   in sys_fallocate (plain_vfs_env\<lparr>op_fallocate := ops\<rparr>) 3 0 100 50 = sys_fallocate plain_vfs_env 3 0 100 50
      \<and> run_state (sys_fallocate plain_vfs_env 3 0 100 50) (plain_kst 0) = (0, plain_kst 0)"
proof -
  let ?ops = "\<lambda>f. Some (\<lambda>m p n w. if sint p < 0 then (w + 1, - 1) else (w, 0))"
  have "falloc_agree plain_vfs_env ?ops"
    by (auto simp: falloc_agree_def falloc_in_range_def plain_vfs_env_def)
  then have "sys_fallocate (plain_vfs_env\<lparr>op_fallocate := ?ops\<rparr>) 3 0 100 50 = sys_fallocate plain_vfs_env 3 0 100 50"
    by (rule fallocate_in_range)
  moreover have "run_state (sys_fallocate plain_vfs_env 3 0 100 50) (plain_kst 0) = (0, plain_kst 0)"
    by (simp add: sys_fallocate_def ksys_fallocate_def vfs_fallocate_def plain_vfs_env_def plain_kst_def run_simps
        falloc_mode_check_def has_def S_ISREG_def S_ISFIFO_def S_ISDIR_def S_ISBLK_def)
  ultimately show ?thesis by simp
qed

end
