(* ===== verification/Access.thy ===== *)
theory Access
  imports Vfs_Base
begin

text \<open>
  Asking for access with the real ids, and changing the working and the root directory
  (fs/open.c, \<open>access_need_override_creds\<close> to \<open>chroot\<close>).
\<close>

section \<open>Access with the real ids\<close>

abbreviation (input) NO_SETUID_FIXUP :: u32 where "NO_SETUID_FIXUP \<equiv> 0x4"
abbreviation (input) S_IRWXO :: u32 where "S_IRWXO \<equiv> 0x7"
abbreviation (input) S_IWOTH :: u32 where "S_IWOTH \<equiv> 0x2"

definition access_need_override_creds :: "'w vfs_env \<Rightarrow> u32 \<Rightarrow> acred \<Rightarrow> bool" where
  "access_need_override_creds env flags c =
     (if has flags AT_EACCESS then False
      else if fsuid c \<noteq> uid c \<or> fsgid c \<noteq> gid c then True
      else if \<not> has (securebits c) NO_SETUID_FIXUP then
        (let root_uid = ns_kuid env (user_ns c) 0
         in if uid c \<noteq> root_uid then cap_effective c \<noteq> 0
            else cap_effective c \<noteq> cap_permitted c)
      else False)"

definition set_cred :: "acred \<Rightarrow> ('w, unit) act" where
  "set_cred c = State (\<lambda>s. ((), s\<lparr>cur := c\<rparr>))"

definition access_override_creds :: "'w vfs_env \<Rightarrow> ('w, acred option) act" where
  "access_override_creds env = do {
     c \<leftarrow> my_cred;
     case copy_creds env c of
       None \<Rightarrow> State_Monad.return None
     | Some override_cred \<Rightarrow> do {
         let override_cred = override_cred\<lparr>fsuid := uid override_cred\<rparr>;
         let override_cred = override_cred\<lparr>fsgid := gid override_cred\<rparr>;
         let override_cred = (if \<not> has (securebits c) NO_SETUID_FIXUP then
             (let root_uid = ns_kuid env (user_ns override_cred) 0
              in if uid override_cred \<noteq> root_uid then override_cred\<lparr>cap_effective := 0\<rparr>
                 else override_cred\<lparr>cap_effective := cap_permitted override_cred\<rparr>)
           else override_cred);
         let override_cred = override_cred\<lparr>non_rcu := True\<rparr>;
         set_cred override_cred;
         State_Monad.return (Some c)
       }
   }"

text \<open>One round of the lookup and the test, lines 489 to 528.\<close>

definition faccessat_round :: "'w vfs_env \<Rightarrow> int \<Rightarrow> addr \<Rightarrow> u32 \<Rightarrow> u32 \<Rightarrow> ('w, bool \<times> int) act" where
  "faccessat_round env dfd filename mode lookup_flags = do {
     (res, p) \<leftarrow> lookup_path env dfd filename lookup_flags;
     if res \<noteq> 0 then State_Monad.return (False, res)
     else do {
       let ino = d_inode env (dentry p);
       im \<leftarrow> ask (\<lambda>w. i_mode env w ino);
       noexec \<leftarrow> ask (\<lambda>w. path_noexec env w p);
       res \<leftarrow> (if has mode MAY_EXEC \<and> S_ISREG im \<and> noexec then State_Monad.return (- EACCES)
         else do {
           c \<leftarrow> my_cred;
           res \<leftarrow> ext (inode_permission env (mnt p) ino (mode OR MAY_ACCESS) c);
           im \<leftarrow> ask (\<lambda>w. i_mode env w ino);
           ro \<leftarrow> ask (\<lambda>w. mnt_is_readonly env w (mnt p));
           State_Monad.return (if res \<noteq> 0 \<or> \<not> has mode S_IWOTH \<or> special_file im then res
             else if ro then - EROFS else res)
         });
       release (PathRef p);
       State_Monad.return (True, res)
     }
   }"

definition access_lookup_flags :: "u32 \<Rightarrow> u32" where
  "access_lookup_flags flags =
     (let lf = (LOOKUP_FOLLOW :: u32);
          lf = (if has flags AT_SYMLINK_NOFOLLOW then lf AND NOT LOOKUP_FOLLOW else lf)
      in if has flags AT_EMPTY_PATH then lf OR LOOKUP_EMPTY else lf)"

definition do_faccessat :: "'w vfs_env \<Rightarrow> int \<Rightarrow> addr \<Rightarrow> u32 \<Rightarrow> u32 \<Rightarrow> ('w, int) act" where
  "do_faccessat env dfd filename mode flags =
     (if has mode (NOT S_IRWXO) then State_Monad.return (- EINVAL)
      else if has flags (NOT (AT_EACCESS OR AT_SYMLINK_NOFOLLOW OR AT_EMPTY_PATH)) then State_Monad.return (- EINVAL)
      else do {
        c \<leftarrow> my_cred;
        let need = access_need_override_creds env flags c;
        old_cred \<leftarrow> (if need then access_override_creds env else State_Monad.return None);
        if need \<and> old_cred = None then State_Monad.return (- ENOMEM)
        else do {
          res \<leftarrow> retrying (faccessat_round env dfd filename mode) (access_lookup_flags flags);
          (case old_cred of None \<Rightarrow> State_Monad.return () | Some old \<Rightarrow> set_cred old);
          State_Monad.return res
        }
      })"

definition sys_faccessat :: "'w vfs_env \<Rightarrow> int \<Rightarrow> addr \<Rightarrow> u32 \<Rightarrow> ('w, int) act" where
  "sys_faccessat env dfd filename mode = do_faccessat env dfd filename mode 0"

definition sys_faccessat2 :: "'w vfs_env \<Rightarrow> int \<Rightarrow> addr \<Rightarrow> u32 \<Rightarrow> u32 \<Rightarrow> ('w, int) act" where
  "sys_faccessat2 env dfd filename mode flags = do_faccessat env dfd filename mode flags"

definition sys_access :: "'w vfs_env \<Rightarrow> addr \<Rightarrow> u32 \<Rightarrow> ('w, int) act" where
  "sys_access env filename mode = do_faccessat env AT_FDCWD filename mode 0"

section \<open>Directories\<close>

definition sys_chdir :: "'w vfs_env \<Rightarrow> addr \<Rightarrow> ('w, int) act" where
  "sys_chdir env filename = retrying (\<lambda>lookup_flags. do {
     (err, p) \<leftarrow> lookup_path env AT_FDCWD filename lookup_flags;
     if err \<noteq> 0 then State_Monad.return (False, err)
     else do {
       c \<leftarrow> my_cred;
       err \<leftarrow> ext (path_permission env p (MAY_EXEC OR MAY_CHDIR) c);
       (if err \<noteq> 0 then State_Monad.return () else ext_unit (set_fs_pwd env p));
       release (PathRef p);
       State_Monad.return (True, err)
     }
   }) (LOOKUP_FOLLOW OR LOOKUP_DIRECTORY)"

definition sys_fchdir :: "'w vfs_env \<Rightarrow> u32 \<Rightarrow> ('w, int) act" where
  "sys_fchdir env fd = do {
     f \<leftarrow> ask (\<lambda>w. fdget_raw env w fd);
     case f of
       None \<Rightarrow> State_Monad.return (- EBADF)
     | Some f \<Rightarrow> do {
         hold (FdRef f);
         dir \<leftarrow> ask (\<lambda>w. d_can_lookup env w (dentry (file_path env f)));
         err \<leftarrow> (if \<not> dir then State_Monad.return (- ENOTDIR)
           else do {
             c \<leftarrow> my_cred;
             err \<leftarrow> ext (file_permission env f (MAY_EXEC OR MAY_CHDIR) c);
             (if err = 0 then ext_unit (set_fs_pwd env (file_path env f)) else State_Monad.return ());
             State_Monad.return err
           });
         release (FdRef f);
         State_Monad.return err
       }
   }"

definition sys_chroot :: "'w vfs_env \<Rightarrow> addr \<Rightarrow> ('w, int) act" where
  "sys_chroot env filename = retrying (\<lambda>lookup_flags. do {
     (err, p) \<leftarrow> lookup_path env AT_FDCWD filename lookup_flags;
     if err \<noteq> 0 then State_Monad.return (False, err)
     else do {
       c \<leftarrow> my_cred;
       err \<leftarrow> ext (path_permission env p (MAY_EXEC OR MAY_CHDIR) c);
       err \<leftarrow> (if err \<noteq> 0 then State_Monad.return err
         else if \<not> ns_capable_chroot env c then State_Monad.return (- EPERM)
         else do {
           err \<leftarrow> ext (security_path_chroot env p);
           if err \<noteq> 0 then State_Monad.return err
           else do { ext_unit (set_fs_root env p); State_Monad.return 0 }
         });
       release (PathRef p);
       State_Monad.return (True, err)
     }
   }) (LOOKUP_FOLLOW OR LOOKUP_DIRECTORY)"

section \<open>Every path gives back what it takes\<close>

lemma wp_set_cred [wp_simps]: "wp (set_cred c) Q s = Q () (s\<lparr>cur := c\<rparr>)"
  by (simp add: wp_def set_cred_def)

lemma run_set_cred [run_simps]: "run_state (set_cred c) s = ((), s\<lparr>cur := c\<rparr>)"
  by (simp add: set_cred_def)

lemma tidy_faccessat_round: "tidy always (faccessat_round env dfd filename mode lf)"
  unfolding faccessat_round_def by (rule tidyI) (auto simp: wp_simps split: prod.split)

lemma tidy_do_faccessat: "tidy always (do_faccessat env dfd filename mode flags)"
proof -
  have r: "wp (retrying (faccessat_round env dfd filename mode) lf) Q s"
    if "\<And>a s'. held s' = held s \<Longrightarrow> evolves s s' \<Longrightarrow> Q a s'" for lf Q s
    by (rule tidy_call[OF tidy_retrying[OF tidy_faccessat_round]]) (simp_all add: that)
  have e: "evolves (s\<lparr>cur := c\<rparr>) s' \<Longrightarrow> evolves s (s'\<lparr>cur := cur s\<rparr>)" for s s' :: "'a kst" and c
    by (auto simp: evolves_def)
  show ?thesis
    unfolding do_faccessat_def access_override_creds_def
    by (rule tidyI) (auto simp: wp_simps intro!: r e split: option.split)
qed

lemma tidy_sys_chdir: "tidy always (sys_chdir env filename)"
  unfolding sys_chdir_def by (intro tidy_intros, rule tidyI) (auto simp: wp_simps split: prod.split)

lemma tidy_sys_fchdir: "tidy always (sys_fchdir env fd)"
  unfolding sys_fchdir_def by (rule tidyI) (auto simp: wp_simps split: prod.split option.split)

lemma tidy_sys_chroot: "tidy always (sys_chroot env filename)"
  unfolding sys_chroot_def by (intro tidy_intros, rule tidyI) (auto simp: wp_simps split: prod.split)

section \<open>The shortcut is sound\<close>

text \<open>The credentials with which access is judged.\<close>

definition real_cred :: "'w vfs_env \<Rightarrow> acred \<Rightarrow> acred" where
  "real_cred env c = c\<lparr>fsuid := uid c, fsgid := gid c,
     cap_effective := (if has (securebits c) NO_SETUID_FIXUP then cap_effective c
                       else if uid c = ns_kuid env (user_ns c) 0 then cap_permitted c else 0)\<rparr>"

text \<open>
  The reference: without asking whether it is necessary, judge with these credentials, then
  restore. \<open>copy_creds\<close> copies (and clears the mark for deferred freeing), and lookup and
  permission do not read that mark.
\<close>

definition faccessat_reference :: "'w vfs_env \<Rightarrow> int \<Rightarrow> addr \<Rightarrow> u32 \<Rightarrow> u32 \<Rightarrow> ('w, int) act" where
  "faccessat_reference env dfd filename mode flags = do {
     c \<leftarrow> my_cred;
     set_cred (real_cred env c);
     res \<leftarrow> retrying (faccessat_round env dfd filename mode) (access_lookup_flags flags);
     set_cred c;
     State_Monad.return res
   }"

definition copies_creds :: "'w vfs_env \<Rightarrow> bool" where
  "copies_creds env \<longleftrightarrow> (\<forall>c. copy_creds env c = Some (c\<lparr>non_rcu := False\<rparr>))"

definition ignores_rcu_mark :: "'w vfs_env \<Rightarrow> bool" where
  "ignores_rcu_mark env \<longleftrightarrow> (\<forall>c b. (\<forall>dfd fn lf. user_path_at env dfd fn lf (c\<lparr>non_rcu := b\<rparr>) = user_path_at env dfd fn lf c) \<and>
     (\<forall>m i k. inode_permission env m i k (c\<lparr>non_rcu := b\<rparr>) = inode_permission env m i k c))"

definition mark_rcu :: "bool \<Rightarrow> 'w kst \<Rightarrow> 'w kst" where
  "mark_rcu b s = s\<lparr>cur := (cur s)\<lparr>non_rcu := b\<rparr>\<rparr>"

lemma run_lookup_path [run_simps]:
  "run_state (lookup_path env dfd fn lf) s = (case user_path_at env dfd fn lf (cur s) (vfs s) of (w, e, p) \<Rightarrow>
     ((e, p), if e = 0 then s\<lparr>vfs := w, held := add_mset (PathRef p) (held s)\<rparr> else s\<lparr>vfs := w\<rparr>))"
  by (simp add: lookup_path_def run_simps split: prod.split)

lemma mark_rcu_frame:
  "vfs (mark_rcu b s) = vfs s" "held (mark_rcu b s) = held s" "cur (mark_rcu b s) = (cur s)\<lparr>non_rcu := b\<rparr>"
  "(mark_rcu b s)\<lparr>vfs := w\<rparr> = mark_rcu b (s\<lparr>vfs := w\<rparr>)" "(mark_rcu b s)\<lparr>held := h\<rparr> = mark_rcu b (s\<lparr>held := h\<rparr>)"
  by (simp_all add: mark_rcu_def)

lemma faccessat_round_mark:
  assumes "ignores_rcu_mark env"
  shows "run_state (faccessat_round env dfd fn mode lf) (mark_rcu b s) =
    (case run_state (faccessat_round env dfd fn mode lf) s of (r, s') \<Rightarrow> (r, mark_rcu b s'))"
proof -
  have i: "user_path_at env dfd fn lf ((cur s)\<lparr>non_rcu := b\<rparr>) = user_path_at env dfd fn lf (cur s)"
    "\<And>m i k. inode_permission env m i k ((cur s)\<lparr>non_rcu := b\<rparr>) = inode_permission env m i k (cur s)"
    using assms by (simp_all add: ignores_rcu_mark_def)
  obtain w e p where u: "user_path_at env dfd fn lf (cur s) (vfs s) = (w, e, p)" by (rule prod_cases3)
  obtain w1 r1 where q: "inode_permission env (mnt p) (d_inode env (dentry p)) (mode OR MAY_ACCESS) (cur s) w = (w1, r1)"
    by (rule prod.exhaust)
  show ?thesis by (simp add: faccessat_round_def run_simps mark_rcu_frame i u q)
qed

lemma retry_loop_mark:
  assumes "ignores_rcu_mark env"
  shows "retry_loop (faccessat_round env dfd fn mode) lf (mark_rcu b s) =
    (case retry_loop (faccessat_round env dfd fn mode) lf s of (r, s') \<Rightarrow> (r, mark_rcu b s'))"
proof (induction "faccessat_round env dfd fn mode" lf s rule: retry_loop.induct)
  case (1 lf s)
  obtain at_end err s1 where r: "run_state (faccessat_round env dfd fn mode lf) s = ((at_end, err), s1)"
    by (metis surj_pair)
  then have r': "run_state (faccessat_round env dfd fn mode lf) (mark_rcu b s) = ((at_end, err), mark_rcu b s1)"
    using faccessat_round_mark[OF assms] by simp
  show ?case
    using "1.hyps"[OF r[symmetric] refl] r r' by (simp add: retry_loop.simps[of _ lf])
qed

lemma need_override_false:
  assumes "\<not> access_need_override_creds env flags c" and "\<not> has flags AT_EACCESS"
  shows "real_cred env c = c"
proof -
  have ids: "uid c = fsuid c" "gid c = fsgid c"
    using assms by (simp_all add: access_need_override_creds_def split: if_splits)
  have cap: "(if has (securebits c) NO_SETUID_FIXUP then cap_effective c
      else if uid c = ns_kuid env (user_ns c) 0 then cap_permitted c else 0) = cap_effective c"
    using assms by (simp add: access_need_override_creds_def Let_def split: if_splits)
  show ?thesis unfolding real_cred_def cap unfolding ids by simp
qed

lemma run_access_override_creds:
  assumes "copies_creds env"
  shows "run_state (access_override_creds env) s = (Some (cur s), mark_rcu True (s\<lparr>cur := real_cred env (cur s)\<rparr>))"
  using assms by (simp add: access_override_creds_def copies_creds_def real_cred_def mark_rcu_def run_simps)

text \<open>
  C16. The shortcut of \<open>access\<close> is sound. The code skips building credentials when
  \<open>access_need_override_creds\<close> says that the result would be what the task already has. Unless
  effective ids were asked for, \<open>do_faccessat\<close> with valid arguments has the same result and
  the same final state, the credentials of the task included, as always judging with the real
  ids and the capabilities that go with them, and restoring the credentials afterwards.
\<close>

theorem access_shortcut_sound:
  assumes "copies_creds env" and "ignores_rcu_mark env" and "\<not> has flags AT_EACCESS"
    and "\<not> has mode (NOT S_IRWXO)" and "\<not> has flags (NOT (AT_EACCESS OR AT_SYMLINK_NOFOLLOW OR AT_EMPTY_PATH))"
  shows "do_faccessat env dfd filename mode flags = faccessat_reference env dfd filename mode flags"
proof (rule state_ext)
  fix s :: "'a kst"
  let ?round = "faccessat_round env dfd filename mode"
  let ?lf = "access_lookup_flags flags"
  let ?s1 = "s\<lparr>cur := real_cred env (cur s)\<rparr>"
  obtain r s2 where loop: "retry_loop ?round ?lf ?s1 = (r, s2)" by (rule prod.exhaust)
  have cur: "cur s2 = cur ?s1"
    using tidy_run[OF tidy_retrying[OF tidy_faccessat_round], where s = ?s1] loop by (simp add: run_simps evolves_def)
  have ref: "run_state (faccessat_reference env dfd filename mode flags) s = (r, s2\<lparr>cur := cur s\<rparr>)"
    by (simp add: faccessat_reference_def run_simps loop)
  show "run_state (do_faccessat env dfd filename mode flags) s = run_state (faccessat_reference env dfd filename mode flags) s"
  proof (cases "access_need_override_creds env flags (cur s)")
    case True
    have "retry_loop ?round ?lf (mark_rcu True ?s1) = (r, mark_rcu True s2)"
      using retry_loop_mark[OF assms(2), of dfd filename mode ?lf True ?s1] loop by simp
    then show ?thesis
      using True assms(4,5) unfolding ref
      by (simp add: do_faccessat_def run_simps run_access_override_creds[OF assms(1)]) (simp add: mark_rcu_def)
  next
    case False
    then have id: "?s1 = s" using need_override_false[OF False assms(3)] by simp
    then show ?thesis
      using False assms(4,5) loop cur unfolding ref by (simp add: do_faccessat_def run_simps)
  qed
qed

theorem access_shortcut_sound_witness:
  "do_faccessat plain_vfs_env AT_FDCWD 4096 2 0 = faccessat_reference plain_vfs_env AT_FDCWD 4096 2 0
   \<and> run_state (do_faccessat plain_vfs_env AT_FDCWD 4096 2 0) (plain_kst 0) = (- EACCES, plain_kst 0)"
proof -
  have "copies_creds plain_vfs_env" "ignores_rcu_mark plain_vfs_env"
    by (simp_all add: copies_creds_def ignores_rcu_mark_def plain_vfs_env_def)
  then have eq: "do_faccessat plain_vfs_env AT_FDCWD 4096 2 0 = faccessat_reference plain_vfs_env AT_FDCWD 4096 2 0"
    by (rule access_shortcut_sound) (simp_all add: has_def)
  have "run_state (faccessat_reference plain_vfs_env AT_FDCWD 4096 2 0) (plain_kst 0) = (- EACCES, plain_kst 0)"
    by (simp add: faccessat_reference_def run_simps retry_loop.simps faccessat_round_def retry_estale_def
        plain_vfs_env_def plain_kst_def plain_acred_def real_cred_def has_def)
  then show ?thesis using eq by simp
qed

end
