(* ===== verification/Attributes.thy ===== *)
theory Attributes
  imports Vfs_Base
begin

text \<open>
  Mode and owner of a file (fs/open.c, \<open>chmod_common\<close> to \<open>fchown\<close>). A change that meets a
  delegation waits for it to be broken and starts again; nothing bounds the number of
  rounds, so the loop is a partial function and a call that never returns has the value
  \<open>None\<close>.
\<close>

section \<open>Calls that may not return\<close>

type_synonym ('w, 'a) oact = "'w kst \<Rightarrow> ('a \<times> 'w kst) option"

definition total_act :: "('w, 'a) act \<Rightarrow> ('w, 'a) oact" where
  "total_act m = (\<lambda>s. Some (run_state m s))"

definition obind :: "('w, 'a) oact \<Rightarrow> ('a \<Rightarrow> ('w, 'b) oact) \<Rightarrow> ('w, 'b) oact" where
  "obind m f = (\<lambda>s. case m s of None \<Rightarrow> None | Some (a, s') \<Rightarrow> f a s')"

text \<open>The loop of the \<open>retry_deleg\<close> labels around one round under the inode lock.\<close>

partial_function (option) deleg_loop ::
  "('w, int \<times> nat option) act \<Rightarrow> (nat \<Rightarrow> 'w \<Rightarrow> 'w \<times> int) \<Rightarrow> 'w kst \<Rightarrow> (int \<times> 'w kst) option" where
  "deleg_loop round wait s =
     (case run_state round s of
        ((err, None), s1) \<Rightarrow> Some (err, s1)
      | ((err, Some d), s1) \<Rightarrow>
          (case run_state (ext (wait d)) s1 of
             (err, s2) \<Rightarrow> if err = 0 then deleg_loop round wait s2 else Some (err, s2)))"

text \<open>The loop of the \<open>retry\<close> labels, as for the calls that always return.\<close>

function oretry :: "(u32 \<Rightarrow> ('w, bool \<times> int) oact) \<Rightarrow> u32 \<Rightarrow> 'w kst \<Rightarrow> (int \<times> 'w kst) option" where
  "oretry body lookup_flags s =
     (case body lookup_flags s of
        None \<Rightarrow> None
      | Some ((at_end, err), s1) \<Rightarrow>
          if at_end \<and> retry_estale err lookup_flags
          then oretry body (lookup_flags OR LOOKUP_REVAL) s1
          else Some (err, s1))"
  by pat_completeness auto

termination oretry
  by (relation "measure (\<lambda>(body, lookup_flags, s). if has lookup_flags LOOKUP_REVAL then 0 else 1)")
    (auto simp: retry_estale_def has_or_self)

declare oretry.simps [simp del]

section \<open>Mode\<close>

definition chmod_round :: "'w vfs_env \<Rightarrow> path \<Rightarrow> u16 \<Rightarrow> ('w, int \<times> nat option) act" where
  "chmod_round env p mode = do {
     let ino = d_inode env (dentry p);
     hold (InodeLock ino);
     err \<leftarrow> ext (security_path_chmod env p mode);
     im \<leftarrow> ask (\<lambda>w. i_mode env w ino);
     r \<leftarrow> (if err \<noteq> 0 then State_Monad.return (err, None)
       else change_attrs env (mnt p) (dentry p)
         ((uninit_iattr env)\<lparr>ia_mode := (mode AND S_IALLUGO) OR (im AND NOT S_IALLUGO), ia_valid := ATTR_MODE OR ATTR_CTIME\<rparr>) True);
     release (InodeLock ino);
     State_Monad.return r
   }"

definition chmod_common :: "'w vfs_env \<Rightarrow> path \<Rightarrow> u16 \<Rightarrow> ('w, int) oact" where
  "chmod_common env p mode =
     obind (total_act (acquire (MntWrite (mnt p)) (mnt_want_write env (mnt p)))) (\<lambda>err.
       if err \<noteq> 0 then total_act (State_Monad.return err)
       else obind (deleg_loop (chmod_round env p mode) (break_deleg_wait env)) (\<lambda>err.
         total_act (do { release (MntWrite (mnt p)); State_Monad.return err })))"

definition vfs_fchmod :: "'w vfs_env \<Rightarrow> nat \<Rightarrow> u16 \<Rightarrow> ('w, int) oact" where
  "vfs_fchmod env f mode = obind (total_act (ext_unit (audit_file env f))) (\<lambda>_. chmod_common env (file_path env f) mode)"

definition sys_fchmod :: "'w vfs_env \<Rightarrow> u32 \<Rightarrow> u16 \<Rightarrow> ('w, int) oact" where
  "sys_fchmod env fd mode =
     obind (total_act (ask (\<lambda>w. fdget env w fd))) (\<lambda>f. case f of
       None \<Rightarrow> total_act (State_Monad.return (- EBADF))
     | Some f \<Rightarrow> obind (total_act (hold (FdRef f))) (\<lambda>_.
         obind (vfs_fchmod env f mode) (\<lambda>err.
           total_act (do { release (FdRef f); State_Monad.return err }))))"

definition at_lookup_flags :: "u32 \<Rightarrow> u32" where
  "at_lookup_flags flags =
     (let lf = (if has flags AT_SYMLINK_NOFOLLOW then 0 else LOOKUP_FOLLOW)
      in if has flags AT_EMPTY_PATH then lf OR LOOKUP_EMPTY else lf)"

definition do_fchmodat :: "'w vfs_env \<Rightarrow> int \<Rightarrow> addr \<Rightarrow> u16 \<Rightarrow> u32 \<Rightarrow> ('w, int) oact" where
  "do_fchmodat env dfd filename mode flags =
     (if has flags (NOT (AT_SYMLINK_NOFOLLOW OR AT_EMPTY_PATH)) then total_act (State_Monad.return (- EINVAL))
      else oretry (\<lambda>lookup_flags.
        obind (total_act (lookup_path env dfd filename lookup_flags)) (\<lambda>(err, p).
          if err = 0 then
            obind (chmod_common env p mode) (\<lambda>err.
              total_act (do { release (PathRef p); State_Monad.return (True, err) }))
          else total_act (State_Monad.return (False, err)))) (at_lookup_flags flags))"

definition sys_fchmodat2 :: "'w vfs_env \<Rightarrow> int \<Rightarrow> addr \<Rightarrow> u16 \<Rightarrow> u32 \<Rightarrow> ('w, int) oact" where
  "sys_fchmodat2 env dfd filename mode flags = do_fchmodat env dfd filename mode flags"

definition sys_fchmodat :: "'w vfs_env \<Rightarrow> int \<Rightarrow> addr \<Rightarrow> u16 \<Rightarrow> ('w, int) oact" where
  "sys_fchmodat env dfd filename mode = do_fchmodat env dfd filename mode 0"

definition sys_chmod :: "'w vfs_env \<Rightarrow> addr \<Rightarrow> u16 \<Rightarrow> ('w, int) oact" where
  "sys_chmod env filename mode = do_fchmodat env AT_FDCWD filename mode 0"

section \<open>Owner\<close>

definition setattr_vfsuid :: "iattr \<Rightarrow> u32 \<Rightarrow> iattr option" where
  "setattr_vfsuid attr kuid =
     (if \<not> uid_valid kuid then None
      else Some (attr\<lparr>ia_valid := ia_valid attr OR ATTR_UID, ia_vfsuid := kuid\<rparr>))"

definition setattr_vfsgid :: "iattr \<Rightarrow> u32 \<Rightarrow> iattr option" where
  "setattr_vfsgid attr kgid =
     (if \<not> gid_valid kgid then None
      else Some (attr\<lparr>ia_valid := ia_valid attr OR ATTR_GID, ia_vfsgid := kgid\<rparr>))"

text \<open>The request that \<open>chown_common\<close> builds before it takes the lock, lines 773 to 779.\<close>

definition chown_attrs :: "iattr \<Rightarrow> u32 \<Rightarrow> u32 \<Rightarrow> u32 \<Rightarrow> u32 \<Rightarrow> iattr option" where
  "chown_attrs uninit usr kuid grp kgid =
     (let a = uninit\<lparr>ia_vfsuid := - 1, ia_vfsgid := - 1, ia_valid := ATTR_CTIME\<rparr>
      in case (if usr \<noteq> KEEP then setattr_vfsuid a kuid else Some a) of
           None \<Rightarrow> None
         | Some a \<Rightarrow> if grp \<noteq> KEEP then setattr_vfsgid a kgid else Some a)"

definition chown_round :: "'w vfs_env \<Rightarrow> path \<Rightarrow> u32 \<Rightarrow> u32 \<Rightarrow> u32 \<Rightarrow> u32 \<Rightarrow> ('w, int \<times> nat option) act" where
  "chown_round env p usr kuid grp kgid =
     (case chown_attrs (uninit_iattr env) usr kuid grp kgid of
        None \<Rightarrow> State_Monad.return (- EINVAL, None)
      | Some a \<Rightarrow> do {
          let ino = d_inode env (dentry p);
          hold (InodeLock ino);
          im \<leftarrow> ask (\<lambda>w. i_mode env w ino);
          drop_sgid \<leftarrow> ask (\<lambda>w. setattr_should_drop_sgid env w (mnt p) ino);
          let a = (if \<not> S_ISDIR im
            then a\<lparr>ia_valid := ia_valid a OR (ATTR_KILL_SUID OR ATTR_KILL_PRIV OR drop_sgid)\<rparr> else a);
          fu \<leftarrow> ask (\<lambda>w. from_vfsuid env w (mnt p) ino (ia_vfsuid a));
          fg \<leftarrow> ask (\<lambda>w. from_vfsgid env w (mnt p) ino (ia_vfsgid a));
          err \<leftarrow> ext (security_path_chown env p fu fg);
          r \<leftarrow> (if err = 0 then change_attrs env (mnt p) (dentry p) a True else State_Monad.return (err, None));
          release (InodeLock ino);
          State_Monad.return r
        })"

definition chown_common :: "'w vfs_env \<Rightarrow> path \<Rightarrow> u32 \<Rightarrow> u32 \<Rightarrow> ('w, int) oact" where
  "chown_common env p usr grp =
     obind (total_act my_cred) (\<lambda>c.
       let kuid = ns_kuid env (user_ns c) usr;
           kgid = ns_kgid env (user_ns c) grp
       in deleg_loop (chown_round env p usr kuid grp kgid) (break_deleg_wait env))"

definition do_fchownat :: "'w vfs_env \<Rightarrow> int \<Rightarrow> addr \<Rightarrow> u32 \<Rightarrow> u32 \<Rightarrow> u32 \<Rightarrow> ('w, int) oact" where
  "do_fchownat env dfd filename usr grp flag =
     (if has flag (NOT (AT_SYMLINK_NOFOLLOW OR AT_EMPTY_PATH)) then total_act (State_Monad.return (- EINVAL))
      else oretry (\<lambda>lookup_flags.
        obind (total_act (lookup_path env dfd filename lookup_flags)) (\<lambda>(err, p).
          if err \<noteq> 0 then total_act (State_Monad.return (False, err))
          else obind (total_act (acquire (MntWrite (mnt p)) (mnt_want_write env (mnt p)))) (\<lambda>err.
            if err \<noteq> 0 then total_act (do { release (PathRef p); State_Monad.return (True, err) })
            else obind (chown_common env p usr grp) (\<lambda>err.
              total_act (do {
                release (MntWrite (mnt p));
                release (PathRef p);
                State_Monad.return (True, err)
              }))))) (at_lookup_flags flag))"

definition sys_fchownat :: "'w vfs_env \<Rightarrow> int \<Rightarrow> addr \<Rightarrow> u32 \<Rightarrow> u32 \<Rightarrow> u32 \<Rightarrow> ('w, int) oact" where
  "sys_fchownat env dfd filename usr grp flag = do_fchownat env dfd filename usr grp flag"

definition sys_chown :: "'w vfs_env \<Rightarrow> addr \<Rightarrow> u32 \<Rightarrow> u32 \<Rightarrow> ('w, int) oact" where
  "sys_chown env filename usr grp = do_fchownat env AT_FDCWD filename usr grp 0"

definition sys_lchown :: "'w vfs_env \<Rightarrow> addr \<Rightarrow> u32 \<Rightarrow> u32 \<Rightarrow> ('w, int) oact" where
  "sys_lchown env filename usr grp = do_fchownat env AT_FDCWD filename usr grp AT_SYMLINK_NOFOLLOW"

definition vfs_fchown :: "'w vfs_env \<Rightarrow> nat \<Rightarrow> u32 \<Rightarrow> u32 \<Rightarrow> ('w, int) oact" where
  "vfs_fchown env f usr grp =
     obind (total_act (acquire (MntWrite (mnt (file_path env f))) (mnt_want_write_file env f))) (\<lambda>err.
       if err \<noteq> 0 then total_act (State_Monad.return err)
       else obind (total_act (ext_unit (audit_file env f))) (\<lambda>_.
         obind (chown_common env (file_path env f) usr grp) (\<lambda>err.
           total_act (do { release (MntWrite (mnt (file_path env f))); State_Monad.return err }))))"

definition ksys_fchown :: "'w vfs_env \<Rightarrow> u32 \<Rightarrow> u32 \<Rightarrow> u32 \<Rightarrow> ('w, int) oact" where
  "ksys_fchown env fd usr grp =
     obind (total_act (ask (\<lambda>w. fdget env w fd))) (\<lambda>f. case f of
       None \<Rightarrow> total_act (State_Monad.return (- EBADF))
     | Some f \<Rightarrow> obind (total_act (hold (FdRef f))) (\<lambda>_.
         obind (vfs_fchown env f usr grp) (\<lambda>err.
           total_act (do { release (FdRef f); State_Monad.return err }))))"

definition sys_fchown :: "'w vfs_env \<Rightarrow> u32 \<Rightarrow> u32 \<Rightarrow> u32 \<Rightarrow> ('w, int) oact" where
  "sys_fchown env fd usr grp = ksys_fchown env fd usr grp"

section \<open>Every path gives back what it takes\<close>

definition owp :: "('w, 'a) oact \<Rightarrow> ('a \<Rightarrow> 'w kst \<Rightarrow> bool) \<Rightarrow> 'w kst \<Rightarrow> bool" where
  "owp m Q s = (case m s of None \<Rightarrow> True | Some (a, s') \<Rightarrow> Q a s')"

lemma owp_simps [wp_simps]:
  "owp (obind k f) Q s = owp k (\<lambda>b. owp (f b) Q) s"
  "owp (total_act m) Q s = wp m Q s"
  "owp (if b then n1 else n2) Q s = (if b then owp n1 Q s else owp n2 Q s)"
  "owp (case p of (x, y) \<Rightarrow> j x y) Q s = (case p of (x, y) \<Rightarrow> owp (j x y) Q s)"
  by (auto simp: owp_def obind_def total_act_def wp_def split: option.split prod.split)

definition otidy :: "(res multiset \<Rightarrow> bool) \<Rightarrow> ('w, 'a) oact \<Rightarrow> bool" where
  "otidy P m \<longleftrightarrow> (\<forall>s. P (held s) \<longrightarrow> owp m (\<lambda>a s'. held s' = held s \<and> evolves s s') s)"

lemma otidyI: "(\<And>s. P (held s) \<Longrightarrow> owp m (\<lambda>a s'. held s' = held s \<and> evolves s s') s) \<Longrightarrow> otidy P m"
  by (simp add: otidy_def)

lemma otidyD:
  assumes "otidy P m" and "P (held s)" and "m s = Some (a, s')"
  shows "held s' = held s \<and> evolves s s'"
proof -
  have "owp m (\<lambda>a s'. held s' = held s \<and> evolves s s') s"
    using assms(1,2) unfolding otidy_def by blast
  then show ?thesis using assms(3) unfolding owp_def by simp
qed

lemma otidy_call:
  assumes "otidy P m" and "P (held s)" and "\<And>a s'. held s' = held s \<Longrightarrow> evolves s s' \<Longrightarrow> Q a s'"
  shows "owp m Q s"
  using otidyD[OF assms(1,2)] assms(3) unfolding owp_def by (simp split: option.split)

lemma otidy_if [tidy_intros]:
  "(b \<Longrightarrow> otidy P m) \<Longrightarrow> (\<not> b \<Longrightarrow> otidy P n) \<Longrightarrow> otidy P (if b then m else n)"
  by simp

lemma otidy_total [tidy_intros]: "tidy P m \<Longrightarrow> otidy P (total_act m)"
  by (simp add: otidy_def tidy_def owp_simps)

lemma deleg_loop_tidy:
  assumes "deleg_loop round wait s = Some y"
  shows "tidy P round \<longrightarrow> P (held s) \<longrightarrow> held (snd y) = held s \<and> evolves s (snd y)"
proof (rule deleg_loop.raw_induct[OF _ assms], intro impI)
  fix loop round wait and s :: "'a kst" and y
  assume IH: "\<And>round wait s y. loop round wait s = Some y \<Longrightarrow>
      tidy P round \<longrightarrow> P (held s) \<longrightarrow> held (snd y) = held s \<and> evolves s (snd y)"
    and eq: "(case run_state round s of ((err, None), s1) \<Rightarrow> Some (err, s1)
      | ((err, Some d), s1) \<Rightarrow> (case run_state (ext (wait d)) s1 of
             (err, s2) \<Rightarrow> if err = 0 then loop round wait s2 else Some (err, s2))) = Some y"
    and tidy: "tidy P round" and pre: "P (held s)"
  obtain err dl s1 where r: "run_state round s = ((err, dl), s1)" by (metis surj_pair)
  have s1: "held s1 = held s" "evolves s s1"
    using tidy_run[OF tidy pre r] by simp_all
  show "held (snd y) = held s \<and> evolves s (snd y)"
  proof (cases dl)
    case None
    then show ?thesis using eq r s1 by auto
  next
    case (Some d)
    obtain w e where w: "wait d (vfs s1) = (w, e)" by (rule prod.exhaust)
    show ?thesis
    proof (cases "e = 0")
      case True
      then have "loop round wait (s1\<lparr>vfs := w\<rparr>) = Some y"
        using eq r Some w by (simp add: run_simps)
      from IH[OF this] show ?thesis using tidy pre s1 evolves_trans[OF s1(2)] by simp
    next
      case False
      then show ?thesis using eq r Some w s1 by (auto simp: run_simps)
    qed
  qed
qed

lemma otidy_deleg_loop: "tidy P round \<Longrightarrow> otidy P (deleg_loop round wait)"
  by (rule otidyI) (use deleg_loop_tidy[of round wait _ _ P] in \<open>fastforce simp: owp_def split: option.split\<close>)

lemma oretry_tidy:
  "(\<And>lf. otidy P (body lf)) \<Longrightarrow> P (held s) \<Longrightarrow> oretry body lf s = Some y \<Longrightarrow> held (snd y) = held s \<and> evolves s (snd y)"
proof (induction body lf s rule: oretry.induct)
  case (1 body lf s)
  obtain at_end err s1 where b: "body lf s = Some ((at_end, err), s1)"
    using "1.prems"(3) by (auto simp: oretry.simps[of body lf s] split: option.splits)
  have s1: "held s1 = held s" "evolves s s1"
    using otidyD[OF "1.prems"(1,2) b] by simp_all
  show ?case
  proof (cases "at_end \<and> retry_estale err lf")
    case True
    then have "oretry body (lf OR LOOKUP_REVAL) s1 = Some y"
      using "1.prems"(3) b by (simp add: oretry.simps[of body lf s])
    from "1.IH"[OF b refl refl True "1.prems"(1) _ this] show ?thesis
      using "1.prems"(2) s1 evolves_trans[OF s1(2)] by simp
  next
    case False
    then have "y = (err, s1)" using "1.prems"(3) b by (auto simp: oretry.simps[of body lf s])
    then show ?thesis using s1 by simp
  qed
qed

lemma otidy_oretry [tidy_intros]: "(\<And>lf. otidy P (body lf)) \<Longrightarrow> otidy P (oretry body lf)"
  by (rule otidyI) (use oretry_tidy[of P body] in \<open>fastforce simp: owp_def split: option.split\<close>)

lemma tidy_chmod_round: "tidy intent_held (chmod_round env p mode)"
  unfolding chmod_round_def
  by (rule tidyI) (auto simp: wp_simps change_ok_def has_def bit.conj_disj_distrib2 and.assoc
      intro!: wp_change_attrs split: prod.split)

lemma otidy_chmod_common: "otidy always (chmod_common env p mode)"
  unfolding chmod_common_def
  by (rule otidyI) (auto simp: wp_simps intro!: otidy_call[OF otidy_deleg_loop[OF tidy_chmod_round]] split: prod.split)

lemma otidy_sys_fchmod: "otidy always (sys_fchmod env fd mode)"
  unfolding sys_fchmod_def vfs_fchmod_def
  by (rule otidyI) (auto simp: wp_simps intro!: otidy_call[OF otidy_chmod_common] split: option.split)

lemma otidy_do_fchmodat: "otidy always (do_fchmodat env dfd filename mode flags)"
  unfolding do_fchmodat_def
  by (intro tidy_intros, rule otidyI)
    (auto simp: wp_simps intro!: otidy_call[OF otidy_chmod_common] split: prod.split)

lemma chown_attrs_cases:
  assumes "chown_attrs uninit usr kuid grp kgid = Some a"
  obtains "ia_valid a AND ATTR_MODE = 0" "ia_valid a AND ATTR_SIZE = 0"
    "has (ia_valid a) ATTR_UID \<longrightarrow> uid_valid (ia_vfsuid a)" "has (ia_valid a) ATTR_GID \<longrightarrow> gid_valid (ia_vfsgid a)"
  using assms
  by (auto simp: chown_attrs_def setattr_vfsuid_def setattr_vfsgid_def Let_def has_def bit.conj_disj_distrib2
      split: if_splits)

lemma tidy_chown_round:
  assumes "kill_masks_ok env"
  shows "tidy intent_held (chown_round env p usr kuid grp kgid)"
proof (cases "chown_attrs (uninit_iattr env) usr kuid grp kgid")
  case None
  then show ?thesis by (simp add: chown_round_def tidy_return)
next
  case (Some a)
  have k: "setattr_should_drop_sgid env w m i AND NOT (ATTR_KILL_SUID OR ATTR_KILL_SGID OR ATTR_KILL_PRIV) = 0" for w m i
    using assms by (simp add: kill_masks_ok_def)
  note b = kill_bits[OF k]
  show ?thesis
    by (rule chown_attrs_cases[OF Some], rule tidyI)
      (auto simp: chown_round_def Some wp_simps change_ok_def has_def bit.conj_disj_distrib2 b
        intro!: wp_change_attrs split: prod.split)
qed

lemma otidy_chown_common:
  "kill_masks_ok env \<Longrightarrow> otidy intent_held (chown_common env p usr grp)"
  unfolding chown_common_def Let_def
  by (rule otidyI) (auto simp: wp_simps intro!: otidy_call[OF otidy_deleg_loop[OF tidy_chown_round]])

lemma otidy_do_fchownat: "kill_masks_ok env \<Longrightarrow> otidy always (do_fchownat env dfd filename usr grp flag)"
  unfolding do_fchownat_def
  by (intro tidy_intros, rule otidyI)
    (auto simp: wp_simps intro!: otidy_call[OF otidy_chown_common] split: prod.split)

lemma otidy_ksys_fchown: "kill_masks_ok env \<Longrightarrow> otidy always (ksys_fchown env fd usr grp)"
  unfolding ksys_fchown_def vfs_fchown_def
  by (rule otidyI) (auto simp: wp_simps intro!: otidy_call[OF otidy_chown_common] split: prod.split option.split)

section \<open>Changes return\<close>

text \<open>
  Waiting helps: a number \<open>pending\<close> read off the file system (the delegations that are out)
  goes down when a change was turned away by a delegation and the wait for it succeeded,
  and the security hooks that run in between do not raise it.
\<close>

definition deleg_progress :: "'w vfs_env \<Rightarrow> ('w \<Rightarrow> nat) \<Rightarrow> bool" where
  "deleg_progress env pending \<longleftrightarrow>
     (\<forall>p m w. pending (fst (security_path_chmod env p m w)) \<le> pending w) \<and>
     (\<forall>p u g w. pending (fst (security_path_chown env p u g w)) \<le> pending w) \<and>
     (\<forall>m d a c w w' e x. notify_change env m d a True c w = (w', e, Some x) \<longrightarrow>
        snd (break_deleg_wait env x w') = 0 \<longrightarrow> pending (fst (break_deleg_wait env x w')) < pending w)"

definition returns :: "('w, 'a) oact \<Rightarrow> bool" where
  "returns m \<longleftrightarrow> (\<forall>s. m s \<noteq> None)"

lemma returns_total: "returns (total_act m)"
  by (simp add: returns_def total_act_def)

lemma returns_obind: "returns m \<Longrightarrow> (\<And>a. returns (f a)) \<Longrightarrow> returns (obind m f)"
  by (fastforce simp: returns_def obind_def split: option.split prod.split)

lemma returns_if: "(b \<Longrightarrow> returns m) \<Longrightarrow> (\<not> b \<Longrightarrow> returns n) \<Longrightarrow> returns (if b then m else n)"
  by simp

lemma returns_case_prod: "(\<And>a b. returns (f a b)) \<Longrightarrow> returns (case p of (a, b) \<Rightarrow> f a b)"
  by (cases p) simp

lemma returns_case_option: "returns m \<Longrightarrow> (\<And>a. returns (f a)) \<Longrightarrow> returns (case x of None \<Rightarrow> m | Some a \<Rightarrow> f a)"
  by (cases x) simp_all

lemma oretry_returns: "(\<And>lf. returns (body lf)) \<Longrightarrow> oretry body lf s \<noteq> None"
proof (induction body lf s rule: oretry.induct)
  case (1 body lf s)
  obtain at_end err s1 where b: "body lf s = Some ((at_end, err), s1)"
    using "1.prems"[of lf] unfolding returns_def by (metis option.exhaust surj_pair)
  then show ?case
    using "1.IH"[OF b refl refl] "1.prems" by (simp add: oretry.simps[of body lf s])
qed

lemma deleg_loop_returns:
  assumes "\<And>s err d s1. run_state round s = ((err, Some d), s1) \<Longrightarrow> snd (wait d (vfs s1)) = 0 \<Longrightarrow>
    (pending (fst (wait d (vfs s1))) :: nat) < pending (vfs s)"
  shows "deleg_loop round wait s \<noteq> None"
proof (induction "pending (vfs s)" arbitrary: s rule: less_induct)
  case less
  obtain err dl s1 where r: "run_state round s = ((err, dl), s1)" by (metis surj_pair)
  show ?case
  proof (cases dl)
    case None
    then show ?thesis using r by (simp add: deleg_loop.simps)
  next
    case (Some d)
    obtain w e where w: "wait d (vfs s1) = (w, e)" by (rule prod.exhaust)
    then have "e = 0 \<Longrightarrow> deleg_loop round wait (s1\<lparr>vfs := w\<rparr>) \<noteq> None"
      using assms[of s err d s1] r Some less by simp
    then show ?thesis using r Some w by (subst deleg_loop.simps) (simp add: run_simps)
  qed
qed

lemma run_change_attrs:
  "run_state (change_attrs env m d a deleg) s = (r, s') \<Longrightarrow> \<exists>w. notify_change env m d a deleg (cur s) (vfs s) = (w, r) \<and> vfs s' = w"
  by (auto simp: change_attrs_def run_simps split: prod.splits)

lemma returns_chmod_common:
  assumes "deleg_progress env pending"
  shows "returns (chmod_common env p mode)"
proof -
  have "pending (fst (break_deleg_wait env d (vfs s1))) < pending (vfs s)"
    if r: "run_state (chmod_round env p mode) s = ((err, Some d), s1)" "snd (break_deleg_wait env d (vfs s1)) = 0" for s err d s1
  proof -
    obtain w e where w: "security_path_chmod env p mode (vfs s) = (w, e)" by (rule prod.exhaust)
    obtain w' a where "notify_change env (mnt p) (dentry p) a True (cur s) w = (w', err, Some d)" "vfs s1 = w'"
      using r(1) w by (auto simp: chmod_round_def run_simps split: prod.splits if_splits dest!: run_change_attrs)
    moreover have "pending w \<le> pending (vfs s)" using assms w unfolding deleg_progress_def by (metis fst_conv)
    ultimately show ?thesis using assms r(2) unfolding deleg_progress_def by (meson le_less_trans less_le_trans)
  qed
  then have "deleg_loop (chmod_round env p mode) (break_deleg_wait env) s \<noteq> None" for s
    by (rule deleg_loop_returns)
  then have "returns (deleg_loop (chmod_round env p mode) (break_deleg_wait env))"
    by (simp add: returns_def)
  then show ?thesis
    unfolding chmod_common_def by (intro returns_obind returns_if returns_total)
qed

lemma returns_chown_common:
  assumes "deleg_progress env pending"
  shows "returns (chown_common env p usr grp)"
proof -
  have "pending (fst (break_deleg_wait env d (vfs s1))) < pending (vfs s)"
    if r: "run_state (chown_round env p usr ku grp kg) s = ((err, Some d), s1)" "snd (break_deleg_wait env d (vfs s1)) = 0"
    for s err d s1 ku kg
  proof -
    obtain w w' a u g e where w: "security_path_chown env p u g (vfs s) = (w, e)"
      and "notify_change env (mnt p) (dentry p) a True (cur s) w = (w', err, Some d)" "vfs s1 = w'"
      using r(1) by (auto simp: chown_round_def run_simps split: prod.splits if_splits option.splits dest!: run_change_attrs)
    moreover have "pending w \<le> pending (vfs s)" using assms w unfolding deleg_progress_def by (metis fst_conv)
    ultimately show ?thesis using assms r(2) unfolding deleg_progress_def by (meson le_less_trans less_le_trans)
  qed
  then have "deleg_loop (chown_round env p usr ku grp kg) (break_deleg_wait env) s \<noteq> None" for ku kg s
    by (rule deleg_loop_returns)
  then have "returns (deleg_loop (chown_round env p usr ku grp kg) (break_deleg_wait env))" for ku kg
    by (simp add: returns_def)
  then show ?thesis
    unfolding chown_common_def Let_def by (intro returns_obind returns_total)
qed

lemmas returns_rules = returns_obind returns_if returns_case_prod returns_case_option returns_total

lemma returns_fchmod: "deleg_progress env pending \<Longrightarrow> returns (sys_fchmod env fd mode)"
  unfolding sys_fchmod_def vfs_fchmod_def by (intro returns_rules returns_chmod_common)

lemma returns_fchown: "deleg_progress env pending \<Longrightarrow> returns (sys_fchown env fd usr grp)"
  unfolding sys_fchown_def ksys_fchown_def vfs_fchown_def by (intro returns_rules returns_chown_common)

lemma returns_fchmodat: "deleg_progress env pending \<Longrightarrow> returns (do_fchmodat env dfd filename mode flags)"
  unfolding do_fchmodat_def
  by (intro returns_if returns_total) (unfold returns_def, intro allI oretry_returns returns_rules returns_chmod_common)

lemma returns_fchownat: "deleg_progress env pending \<Longrightarrow> returns (do_fchownat env dfd filename usr grp flag)"
  unfolding do_fchownat_def
  by (intro returns_if returns_total) (unfold returns_def, intro allI oretry_returns returns_rules returns_chown_common)



text \<open>The hypothesis is needed: where every change meets a new delegation, the call never returns.\<close>

lemma deleg_loop_forever:
  assumes "\<And>s. \<exists>err d s1. run_state round s = ((err, Some d), s1) \<and> snd (wait d (vfs s1)) = 0"
  shows "deleg_loop round wait s = None"
proof (rule ccontr)
  assume "deleg_loop round wait s \<noteq> None"
  then obtain y where y: "deleg_loop round wait s = Some y" by blast
  have "\<not> (round = round' \<and> wait = wait')" if "deleg_loop round' wait' s = Some y" for round' wait' s y
  proof (rule deleg_loop.raw_induct[OF _ that], rule notI)
    fix loop round1 wait1 and s :: "'a kst" and y
    assume IH: "\<And>round1 wait1 s y. loop round1 wait1 s = Some y \<Longrightarrow> \<not> (round = round1 \<and> wait = wait1)"
      and eq: "(case run_state round1 s of ((err, None), s1) \<Rightarrow> Some (err, s1)
        | ((err, Some d), s1) \<Rightarrow> (case run_state (ext (wait1 d)) s1 of
               (err, s2) \<Rightarrow> if err = 0 then loop round1 wait1 s2 else Some (err, s2))) = Some y"
      and same: "round = round1 \<and> wait = wait1"
    obtain err d s1 where "run_state round s = ((err, Some d), s1)" "snd (wait d (vfs s1)) = 0"
      using assms by blast
    then have "loop round1 wait1 (s1\<lparr>vfs := fst (wait d (vfs s1))\<rparr>) = Some y"
      using eq same by (simp add: run_simps split_beta)
    then show False using IH same by blast
  qed
  then show False using y by blast
qed

lemma chmod_waits_forever:
  "sys_fchmod (plain_vfs_env\<lparr>notify_change := (\<lambda>m d a g c w. (w, - 11, Some d))\<rparr>) 3 0 s = None"
proof -
  let ?env = "plain_vfs_env\<lparr>notify_change := (\<lambda>m d a g c w. (w, - 11, Some d))\<rparr>"
  have plain: "security_path_chmod plain_vfs_env p m w = (w, 0)" "snd (break_deleg_wait plain_vfs_env d w) = 0"
    "mnt_want_write plain_vfs_env n w = (w, 0)" "fdget plain_vfs_env w 3 = Some 7" for p m w d n
    by (simp_all add: plain_vfs_env_def)
  have "\<exists>err d s1. run_state (chmod_round ?env p mode) s = ((err, Some d), s1) \<and> snd (break_deleg_wait ?env d (vfs s1)) = 0"
    for p mode s
    by (simp add: chmod_round_def change_attrs_def run_simps plain)
  note loop = deleg_loop_forever[OF this]
  have "chmod_common ?env p mode s = None" for p mode s
    using loop[of p mode] by (simp add: chmod_common_def obind_def total_act_def run_simps plain)
  then show ?thesis
    by (simp add: sys_fchmod_def vfs_fchmod_def obind_def total_act_def run_simps plain)
qed

end
