(* ===== verification/Path_Calls.thy ===== *)
theory Path_Calls
  imports Truncate Access Attributes
begin

text \<open>
  The calls of fs/open.c on paths and descriptors together: whatever the rest of the kernel
  answers, a call gives back every lock, reference and write intent it took, restores the
  credentials, and changes attributes only under the inode lock and a write intent.
\<close>

datatype path_call =
    C_truncate addr u64
  | C_compat_truncate addr u32
  | C_ftruncate u32 u64
  | C_compat_ftruncate u32 u32
  | C_fallocate u32 u32 u64 u64
  | C_access addr u32
  | C_faccessat int addr u32
  | C_faccessat2 int addr u32 u32
  | C_chdir addr
  | C_fchdir u32
  | C_chroot addr
  | C_chmod addr u16
  | C_fchmod u32 u16
  | C_fchmodat int addr u16
  | C_fchmodat2 int addr u16 u32
  | C_chown addr u32 u32
  | C_lchown addr u32 u32
  | C_fchown u32 u32 u32
  | C_fchownat int addr u32 u32 u32

fun do_path_call :: "'w vfs_env \<Rightarrow> path_call \<Rightarrow> ('w, int) oact" where
  "do_path_call env (C_truncate p n) = total_act (sys_truncate env p n)"
| "do_path_call env (C_compat_truncate p n) = total_act (compat_sys_truncate env p n)"
| "do_path_call env (C_ftruncate fd n) = total_act (sys_ftruncate env fd n)"
| "do_path_call env (C_compat_ftruncate fd n) = total_act (compat_sys_ftruncate env fd n)"
| "do_path_call env (C_fallocate fd mode off n) = total_act (sys_fallocate env fd mode off n)"
| "do_path_call env (C_access p mode) = total_act (sys_access env p mode)"
| "do_path_call env (C_faccessat dfd p mode) = total_act (sys_faccessat env dfd p mode)"
| "do_path_call env (C_faccessat2 dfd p mode fl) = total_act (sys_faccessat2 env dfd p mode fl)"
| "do_path_call env (C_chdir p) = total_act (sys_chdir env p)"
| "do_path_call env (C_fchdir fd) = total_act (sys_fchdir env fd)"
| "do_path_call env (C_chroot p) = total_act (sys_chroot env p)"
| "do_path_call env (C_chmod p mode) = sys_chmod env p mode"
| "do_path_call env (C_fchmod fd mode) = sys_fchmod env fd mode"
| "do_path_call env (C_fchmodat dfd p mode) = sys_fchmodat env dfd p mode"
| "do_path_call env (C_fchmodat2 dfd p mode fl) = sys_fchmodat2 env dfd p mode fl"
| "do_path_call env (C_chown p u g) = sys_chown env p u g"
| "do_path_call env (C_lchown p u g) = sys_lchown env p u g"
| "do_path_call env (C_fchown fd u g) = sys_fchown env fd u g"
| "do_path_call env (C_fchownat dfd p u g fl) = sys_fchownat env dfd p u g fl"

lemmas path_call_defs = sys_truncate_def compat_sys_truncate_def sys_ftruncate_def compat_sys_ftruncate_def
  sys_fallocate_def sys_access_def sys_faccessat_def sys_faccessat2_def sys_chmod_def sys_fchmodat_def
  sys_fchmodat2_def sys_chown_def sys_lchown_def sys_fchown_def sys_fchownat_def

lemma otidy_path_call: "kill_masks_ok env \<Longrightarrow> otidy always (do_path_call env c)"
  by (cases c)
    (simp_all add: path_call_defs otidy_total tidy_do_sys_truncate tidy_do_sys_ftruncate tidy_ksys_fallocate
      tidy_do_faccessat tidy_sys_chdir tidy_sys_fchdir tidy_sys_chroot otidy_sys_fchmod otidy_do_fchmodat
      otidy_do_fchownat otidy_ksys_fchown)

text \<open>A sequence of calls, each in the environment it meets; one that never returns ends it.\<close>

definition path_step :: "'w vfs_env \<times> path_call \<Rightarrow> 'w kst \<Rightarrow> 'w kst" where
  "path_step ec s = (case do_path_call (fst ec) (snd ec) s of None \<Rightarrow> s | Some (r, s') \<Rightarrow> s')"

definition at_rest :: "acred \<Rightarrow> 'w kst \<Rightarrow> bool" where
  "at_rest c s \<longleftrightarrow> held s = {#} \<and> cur s = c \<and> list_all change_ok (changes s)"

interpretation pathcalls: kept_invariant path_step "\<lambda>ec. kill_masks_ok (fst ec)" "at_rest c"
proof unfold_locales
  fix ec :: "'a vfs_env \<times> path_call" and s :: "'a kst"
  assume k: "kill_masks_ok (fst ec)" and s: "at_rest c s"
  show "at_rest c (path_step ec s)"
  proof (cases "do_path_call (fst ec) (snd ec) s")
    case None
    then show ?thesis using s by (simp add: path_step_def)
  next
    case (Some y)
    then obtain r s' where y: "do_path_call (fst ec) (snd ec) s = Some (r, s')" by (cases y) simp
    from otidyD[OF otidy_path_call[OF k] _ y] s show ?thesis
      by (auto simp: path_step_def y at_rest_def evolves_def)
  qed
qed

text \<open>
  C13. The path calls of fs/open.c leave nothing behind: after any sequence of \<open>truncate\<close>,
  \<open>fallocate\<close>, \<open>access\<close>, \<open>chdir\<close>, \<open>chroot\<close>, \<open>chmod\<close> and \<open>chown\<close> calls in all their forms, with any
  outcome of every lookup, permission check, hook and file system operation, no lock,
  reference or write intent is held, the credentials are those of the start, and every
  attribute change was requested under the lock of its inode and a write intent, with a
  non-negative size, the file type kept, and valid owners.
\<close>

theorem path_calls_leave_nothing:
  assumes "list_all (\<lambda>ec. kill_masks_ok (fst ec)) ecs" and "held s = {#}" and "changes s = []"
  shows "held (fold path_step ecs s) = {#} \<and> cur (fold path_step ecs s) = cur s \<and>
    list_all change_ok (changes (fold path_step ecs s))"
  using pathcalls.run_inv[OF assms(1), of "cur s" s] assms(2,3) by (simp add: at_rest_def)

lemma plain_fields:
  "user_path_at plain_vfs_env dfd fn lf c w = (w, 0, \<lparr>mnt = 1, dentry = 5\<rparr>)"
  "fdget plain_vfs_env w 3 = Some 7" "d_inode plain_vfs_env d = d + 100" "i_mode plain_vfs_env w i = 0x81A4"
  "i_sb plain_vfs_env w i = 1" "IS_APPEND plain_vfs_env w i = False" "file_path plain_vfs_env f = \<lparr>mnt = 1, dentry = 5\<rparr>"
  "file_flags plain_vfs_env w f = 0x8002" "file_mode plain_vfs_env w f = 0x3" "mnt_want_write plain_vfs_env n w = (w, 0)"
  "get_write_access plain_vfs_env i w = (w, 0)" "break_lease plain_vfs_env i k w = (w, 0)"
  "inode_permission plain_vfs_env n i k c w = (w, if fsuid c = 0 then 0 else - EACCES)"
  "dentry_needs_remove_privs plain_vfs_env n d w = (w, 0)" "notify_change plain_vfs_env n d a g c 0 = (0, 0, None)"
  "security_path_truncate plain_vfs_env p w = (w, 0)" "security_file_truncate plain_vfs_env f w = (w, 0)"
  by (simp_all add: plain_vfs_env_def)

theorem path_calls_leave_nothing_witness:
  "let s = fold path_step [(plain_vfs_env, C_truncate 4096 10), (plain_vfs_env, C_ftruncate 3 20)] (plain_kst 0)
   in held s = {#} \<and> cur s = plain_acred \<and> list_all change_ok (changes s) \<and> length (changes s) = 2"
proof -
  let ?ecs = "[(plain_vfs_env, C_truncate 4096 10), (plain_vfs_env, C_ftruncate 3 20)]"
  have "fsuid plain_acred = 0" by (simp add: plain_acred_def)
  then have "length (changes (fold path_step ?ecs (plain_kst 0))) = 2"
    by (simp add: path_step_def total_act_def path_call_defs do_sys_truncate_def vfs_truncate_def do_truncate_def
        do_sys_ftruncate_def change_attrs_def run_simps retry_loop.simps retry_estale_def S_ISREG_def S_ISDIR_def has_def
        plain_fields plain_kst_def)
  then show ?thesis
    using path_calls_leave_nothing[of ?ecs "plain_kst 0"] plain_kill_masks_ok by (simp add: plain_kst_def Let_def)
qed

end
