(* ===== verification/Dentry_Open.thy ===== *)
theory Dentry_Open
  imports Vfs_Base
begin

text \<open>
  Opening an inode into a file structure (fs/open.c, \<open>file_get_write_access\<close> to
  \<open>kernel_file_open\<close>, and \<open>generic_file_open\<close> to \<open>stream_open\<close>).

  Outside code, the record \<open>dopen_env\<close>: the tables of file operations, hooks, allocation of a
  file structure, and the \<open>open\<close> operation of the file system, which acts on the file, the
  file system and the ledger. A path always has a mount, as the \<open>BUG_ON\<close> of \<open>dentry_open\<close>
  demands. \<open>put_file_access\<close> and \<open>fput\<close> are functions from a file to what
  they give back.
\<close>

section \<open>State\<close>

abbreviation (input) FM_READ :: u32 where "FM_READ \<equiv> 0x1"
abbreviation (input) FM_WRITE :: u32 where "FM_WRITE \<equiv> 0x2"
abbreviation (input) FM_LSEEK :: u32 where "FM_LSEEK \<equiv> 0x4"
abbreviation (input) FM_PREAD :: u32 where "FM_PREAD \<equiv> 0x8"
abbreviation (input) FM_PWRITE :: u32 where "FM_PWRITE \<equiv> 0x10"
abbreviation (input) FM_PATH :: u32 where "FM_PATH \<equiv> 0x4000"
abbreviation (input) FM_ATOMIC_POS :: u32 where "FM_ATOMIC_POS \<equiv> 0x8000"
abbreviation (input) FM_WRITER :: u32 where "FM_WRITER \<equiv> 0x10000"
abbreviation (input) FM_CAN_READ :: u32 where "FM_CAN_READ \<equiv> 0x20000"
abbreviation (input) FM_CAN_WRITE :: u32 where "FM_CAN_WRITE \<equiv> 0x40000"
abbreviation (input) FM_OPENED :: u32 where "FM_OPENED \<equiv> 0x80000"
abbreviation (input) FM_STREAM :: u32 where "FM_STREAM \<equiv> 0x200000"
abbreviation (input) FM_CAN_ODIRECT :: u32 where "FM_CAN_ODIRECT \<equiv> 0x400000"
abbreviation (input) FM_BACKING :: u32 where "FM_BACKING \<equiv> 0x2000000"

abbreviation (input) FL_CREAT :: u32 where "FL_CREAT \<equiv> 0x40"
abbreviation (input) FL_EXCL :: u32 where "FL_EXCL \<equiv> 0x80"
abbreviation (input) FL_NOCTTY :: u32 where "FL_NOCTTY \<equiv> 0x100"
abbreviation (input) FL_TRUNC :: u32 where "FL_TRUNC \<equiv> 0x200"
abbreviation (input) FL_DIRECT :: u32 where "FL_DIRECT \<equiv> 0x4000"
abbreviation (input) FL_LARGEFILE :: u32 where "FL_LARGEFILE \<equiv> 0x8000"
abbreviation (input) FL_PATH :: u32 where "FL_PATH \<equiv> 0x200000"

text \<open>A table of file operations: the empty one, or one of a module.\<close>

datatype fops = Empty_fops | Fops nat

record ofile =
  o_id :: nat
  o_flags :: u32
  o_mode :: u32
  o_path :: "path option"
  o_inode :: "nat option"
  o_mapping :: nat
  o_op :: "fops option"
  o_wb_err :: u32
  o_sb_err :: u32
  o_iocb_flags :: u32
  o_ra :: nat

type_synonym 'w open_op = "nat \<Rightarrow> ofile \<Rightarrow> ('w, ofile \<times> int) act"

record 'w dopen_env =
  base :: "'w vfs_env"
  i_mapping :: "nat \<Rightarrow> nat"
  filemap_sample_wb_err :: "'w \<Rightarrow> nat \<Rightarrow> u32"
  file_sample_sb_err :: "'w \<Rightarrow> ofile \<Rightarrow> u32"
  mnt_get_write_access :: "nat \<Rightarrow> 'w \<Rightarrow> 'w \<times> int"
  backing_mnt :: "nat \<Rightarrow> nat"
  i_fop_get :: "nat \<Rightarrow> 'w \<Rightarrow> 'w \<times> nat option"
  fop_open :: "fops \<Rightarrow> 'w open_op option"
  fop_read :: "fops \<Rightarrow> bool"
  fop_read_iter :: "fops \<Rightarrow> bool"
  fop_write :: "fops \<Rightarrow> bool"
  fop_write_iter :: "fops \<Rightarrow> bool"
  fop_llseek :: "fops \<Rightarrow> bool"
  mapping_direct_IO :: "'w \<Rightarrow> nat \<Rightarrow> bool"
  security_file_open :: "ofile \<Rightarrow> 'w \<Rightarrow> 'w \<times> int"
  iocb_flags :: "ofile \<Rightarrow> u32"
  ra_state :: "nat \<Rightarrow> nat"
  filemap_nr_thps :: "'w \<Rightarrow> nat \<Rightarrow> bool"
  unmap_mapping_range :: "nat \<Rightarrow> 'w \<Rightarrow> 'w"
  truncate_inode_pages :: "nat \<Rightarrow> 'w \<Rightarrow> 'w"
  fsnotify_open :: "ofile \<Rightarrow> 'w \<Rightarrow> 'w"
  put_file_access :: "ofile \<Rightarrow> res multiset"
  fput_releases :: "ofile \<Rightarrow> res multiset"
  alloc_empty_file :: "u32 \<Rightarrow> acred \<Rightarrow> 'w \<Rightarrow> 'w \<times> (int + ofile)"
  alloc_empty_file_noaccount :: "u32 \<Rightarrow> acred \<Rightarrow> 'w \<Rightarrow> 'w \<times> (int + ofile)"
  vfs_create :: "nat \<Rightarrow> nat \<Rightarrow> u16 \<Rightarrow> 'w \<Rightarrow> 'w \<times> int"

definition release_all :: "res multiset \<Rightarrow> ('w, unit) act" where
  "release_all rs = State (\<lambda>s. ((), s\<lparr>held := held s - rs\<rparr>))"

section \<open>Opening\<close>

definition file_get_write_access :: "'w dopen_env \<Rightarrow> ofile \<Rightarrow> path \<Rightarrow> nat \<Rightarrow> ('w, int) act" where
  "file_get_write_access env f p ino = do {
     err \<leftarrow> acquire (InodeWrite ino) (get_write_access (base env) ino);
     if err \<noteq> 0 then State_Monad.return err
     else do {
       err \<leftarrow> acquire (MntAccess (mnt p)) (mnt_get_write_access env (mnt p));
       if err \<noteq> 0 then do { release (InodeWrite ino); State_Monad.return err }
       else if has (o_mode f) FM_BACKING then do {
         err \<leftarrow> acquire (MntAccess (backing_mnt env (o_id f))) (mnt_get_write_access env (backing_mnt env (o_id f)));
         if err \<noteq> 0 then do {
           release (MntAccess (mnt p));
           release (InodeWrite ino);
           State_Monad.return err
         } else State_Monad.return 0
       } else State_Monad.return 0
     }
   }"

text \<open>The labels \<open>cleanup_file\<close> and \<open>cleanup_all\<close> of \<open>do_dentry_open\<close>.\<close>

definition cleanup_file :: "ofile \<Rightarrow> path \<Rightarrow> int \<Rightarrow> ('w, ofile \<times> int) act" where
  "cleanup_file f p err = do {
     release (PathRef p);
     State_Monad.return (f\<lparr>o_path := None, o_inode := None\<rparr>, err)
   }"

definition cleanup_all :: "'w dopen_env \<Rightarrow> ofile \<Rightarrow> path \<Rightarrow> int \<Rightarrow> ('w, ofile \<times> int) act" where
  "cleanup_all env f p err = do {
     let err = (if err > 0 then - EINVAL else err);
     (case o_op f of Some (Fops n) \<Rightarrow> release (FopsRef n) | _ \<Rightarrow> State_Monad.return ());
     release_all (put_file_access env f);
     cleanup_file f p err
   }"

text \<open>The mode bits that lines 959 to 969 set once the file is open.\<close>

definition open_mode :: "'w dopen_env \<Rightarrow> fops \<Rightarrow> bool \<Rightarrow> u32 \<Rightarrow> u32" where
  "open_mode env op dio m =
     (let m = m OR FM_OPENED;
          m = (if has m FM_READ \<and> (fop_read env op \<or> fop_read_iter env op) then m OR FM_CAN_READ else m);
          m = (if has m FM_WRITE \<and> (fop_write env op \<or> fop_write_iter env op) then m OR FM_CAN_WRITE else m);
          m = (if has m FM_LSEEK \<and> \<not> fop_llseek env op then m AND NOT FM_LSEEK else m)
      in if dio then m OR FM_CAN_ODIRECT else m)"

text \<open>Lines 959 to 1012: the file is open; set up what it can do.\<close>

definition finish_setup :: "'w dopen_env \<Rightarrow> ofile \<Rightarrow> fops \<Rightarrow> nat \<Rightarrow> ('w, ofile \<times> int) act" where
  "finish_setup env f op ino = do {
     dio \<leftarrow> ask (\<lambda>w. mapping_direct_IO env w (o_mapping f));
     let f = f\<lparr>o_mode := open_mode env op dio (o_mode f)\<rparr>;
     let f = f\<lparr>o_flags := o_flags f AND NOT (FL_CREAT OR FL_EXCL OR FL_NOCTTY OR FL_TRUNC)\<rparr>;
     let f = f\<lparr>o_iocb_flags := iocb_flags env f\<rparr>;
     let f = f\<lparr>o_ra := ra_state env (o_mapping f)\<rparr>;
     if has (o_flags f) FL_DIRECT \<and> \<not> has (o_mode f) FM_CAN_ODIRECT then State_Monad.return (f, - EINVAL)
     else do {
       thps \<leftarrow> ask (\<lambda>w. filemap_nr_thps env w (i_mapping env ino));
       (if has (o_mode f) FM_WRITE \<and> thps then do {
          hold (MappingLock (i_mapping env ino));
          ext_unit (unmap_mapping_range env (i_mapping env ino));
          ext_unit (truncate_inode_pages env (i_mapping env ino));
          release (MappingLock (i_mapping env ino))
        } else State_Monad.return ());
       ext_unit (fsnotify_open env f);
       State_Monad.return (f, 0)
     }
   }"

text \<open>Lines 936 to 957, with the file operations \<open>i_fop\<close> of the inode, then the above.\<close>

definition open_with_fops :: "'w dopen_env \<Rightarrow> ofile \<Rightarrow> path \<Rightarrow> nat \<Rightarrow> 'w open_op option \<Rightarrow> ('w, ofile \<times> int) act" where
  "open_with_fops env f p ino opn = do {
     op \<leftarrow> ext (i_fop_get env ino);
     case op of
       None \<Rightarrow> cleanup_all env (f\<lparr>o_op := None\<rparr>) p (- ENODEV)
     | Some n \<Rightarrow> do {
         hold (FopsRef n);
         let f = f\<lparr>o_op := Some (Fops n)\<rparr>;
         err \<leftarrow> ext (security_file_open env f);
         if err \<noteq> 0 then cleanup_all env f p err
         else do {
           err \<leftarrow> ext (break_lease (base env) ino (o_flags f));
           if err \<noteq> 0 then cleanup_all env f p err
           else do {
             let f = f\<lparr>o_mode := o_mode f OR (FM_LSEEK OR FM_PREAD OR FM_PWRITE)\<rparr>;
             (f, err) \<leftarrow> (case (case opn of None \<Rightarrow> fop_open env (Fops n) | Some g \<Rightarrow> Some g) of
               None \<Rightarrow> State_Monad.return (f, 0)
             | Some g \<Rightarrow> g ino f);
             if err \<noteq> 0 then cleanup_all env f p err
             else finish_setup env f (case o_op f of None \<Rightarrow> Empty_fops | Some op \<Rightarrow> op) ino
           }
         }
       }
   }"

text \<open>Lines 923 to 930: the read count or the write access, by the mode of the file.\<close>

definition take_access :: "'w dopen_env \<Rightarrow> ofile \<Rightarrow> path \<Rightarrow> nat \<Rightarrow> ('w, ofile \<times> int) act" where
  "take_access env f p ino = do {
     im \<leftarrow> ask (\<lambda>w. i_mode (base env) w ino);
     if o_mode f AND (FM_READ OR FM_WRITE) = FM_READ
     then do { hold (ReadCount ino); State_Monad.return (f, 0) }
     else if has (o_mode f) FM_WRITE \<and> \<not> special_file im then do {
       err \<leftarrow> file_get_write_access env f p ino;
       State_Monad.return (if err \<noteq> 0 then f else f\<lparr>o_mode := o_mode f OR FM_WRITER\<rparr>, err)
     } else State_Monad.return (f, 0)
   }"

definition do_dentry_open :: "'w dopen_env \<Rightarrow> ofile \<Rightarrow> path \<Rightarrow> nat \<Rightarrow> 'w open_op option \<Rightarrow> ('w, ofile \<times> int) act" where
  "do_dentry_open env f p ino opn = do {
     hold (PathRef p);
     wb \<leftarrow> ask (\<lambda>w. filemap_sample_wb_err env w (i_mapping env ino));
     let f = f\<lparr>o_inode := Some ino, o_mapping := i_mapping env ino, o_wb_err := wb\<rparr>;
     sb \<leftarrow> ask (\<lambda>w. file_sample_sb_err env w f);
     let f = f\<lparr>o_sb_err := sb\<rparr>;
     if has (o_flags f) FL_PATH
     then State_Monad.return (f\<lparr>o_mode := FM_PATH OR FM_OPENED, o_op := Some Empty_fops\<rparr>, 0)
     else do {
       (f, err) \<leftarrow> take_access env f p ino;
       if err \<noteq> 0 then cleanup_file f p err
       else do {
         im \<leftarrow> ask (\<lambda>w. i_mode (base env) w ino);
         open_with_fops env
           (if S_ISREG im \<or> S_ISDIR im then f\<lparr>o_mode := o_mode f OR FM_ATOMIC_POS\<rparr> else f) p ino opn
       }
     }
   }"

section \<open>Callers\<close>

definition finish_open :: "'w dopen_env \<Rightarrow> ofile \<Rightarrow> path \<Rightarrow> nat \<Rightarrow> 'w open_op option \<Rightarrow> (('w, ofile \<times> int) act) option" where
  "finish_open env f p d opn =
     (if has (o_mode f) FM_OPENED then None
      else (let p = p\<lparr>dentry := d\<rparr>
            in Some (do_dentry_open env (f\<lparr>o_path := Some p\<rparr>) p (d_inode (base env) d) opn)))"

definition finish_no_open :: "ofile \<Rightarrow> path \<Rightarrow> nat \<Rightarrow> ofile \<times> int" where
  "finish_no_open f p d = (f\<lparr>o_path := Some (p\<lparr>dentry := d\<rparr>)\<rparr>, 0)"

definition vfs_open :: "'w dopen_env \<Rightarrow> path \<Rightarrow> ofile \<Rightarrow> ('w, ofile \<times> int) act" where
  "vfs_open env p f = do_dentry_open env (f\<lparr>o_path := Some p\<rparr>) p (d_inode (base env) (dentry p)) None"

text \<open>A file that failed is given back with \<open>fput\<close>; the result is the file or the error.\<close>

definition open_result :: "'w dopen_env \<Rightarrow> ofile \<Rightarrow> int \<Rightarrow> ('w, int + ofile) act" where
  "open_result env f err =
     (if err \<noteq> 0 then do { release_all (fput_releases env f); State_Monad.return (Inl err) }
      else State_Monad.return (Inr f))"

definition dentry_open :: "'w dopen_env \<Rightarrow> path \<Rightarrow> u32 \<Rightarrow> acred \<Rightarrow> ('w, int + ofile) act" where
  "dentry_open env p flags c = do {
     f \<leftarrow> ext (alloc_empty_file env flags c);
     case f of
       Inl err \<Rightarrow> State_Monad.return (Inl err)
     | Inr f \<Rightarrow> do {
         hold (FileRef (o_id f));
         (f, err) \<leftarrow> vfs_open env p f;
         open_result env f err
       }
   }"

definition dentry_create :: "'w dopen_env \<Rightarrow> path \<Rightarrow> u32 \<Rightarrow> u16 \<Rightarrow> acred \<Rightarrow> ('w, int + ofile) act" where
  "dentry_create env p flags mode c = do {
     f \<leftarrow> ext (alloc_empty_file env flags c);
     case f of
       Inl err \<Rightarrow> State_Monad.return (Inl err)
     | Inr f \<Rightarrow> do {
         hold (FileRef (o_id f));
         err \<leftarrow> ext (vfs_create env (mnt p) (dentry p) mode);
         (f, err) \<leftarrow> (if err = 0 then vfs_open env p f else State_Monad.return (f, err));
         open_result env f err
       }
   }"

definition kernel_file_open :: "'w dopen_env \<Rightarrow> path \<Rightarrow> u32 \<Rightarrow> nat \<Rightarrow> acred \<Rightarrow> ('w, int + ofile) act" where
  "kernel_file_open env p flags ino c = do {
     f \<leftarrow> ext (alloc_empty_file_noaccount env flags c);
     case f of
       Inl err \<Rightarrow> State_Monad.return (Inl err)
     | Inr f \<Rightarrow> do {
         hold (FileRef (o_id f));
         (f, err) \<leftarrow> do_dentry_open env (f\<lparr>o_path := Some p\<rparr>) p ino None;
         open_result env f err
       }
   }"

text \<open>Ready-made \<open>open\<close> operations.\<close>

definition generic_file_open :: "u64 \<Rightarrow> ofile \<Rightarrow> int" where
  "generic_file_open isize f =
     (if \<not> has (o_flags f) FL_LARGEFILE \<and> sint isize > sint MAX_NON_LFS then - EOVERFLOW else 0)"

definition nonseekable_open :: "ofile \<Rightarrow> ofile \<times> int" where
  "nonseekable_open f = (f\<lparr>o_mode := o_mode f AND NOT (FM_LSEEK OR FM_PREAD OR FM_PWRITE)\<rparr>, 0)"

definition stream_open :: "ofile \<Rightarrow> ofile \<times> int" where
  "stream_open f =
     (let f = f\<lparr>o_mode := o_mode f AND NOT (FM_LSEEK OR FM_PREAD OR FM_PWRITE OR FM_ATOMIC_POS)\<rparr>
      in (f\<lparr>o_mode := o_mode f OR FM_STREAM\<rparr>, 0))"

section \<open>What an open file holds\<close>

definition access_held :: "'w dopen_env \<Rightarrow> ofile \<Rightarrow> nat \<Rightarrow> path \<Rightarrow> res multiset" where
  "access_held env f ino p =
     (if o_mode f AND (FM_READ OR FM_WRITE) = FM_READ then {#ReadCount ino#}
      else if has (o_mode f) FM_WRITER then
        {#InodeWrite ino, MntAccess (mnt p)#} + (if has (o_mode f) FM_BACKING then {#MntAccess (backing_mnt env (o_id f))#} else {#})
      else {#})"

definition fops_held :: "fops option \<Rightarrow> res multiset" where
  "fops_held op = (case op of Some (Fops n) \<Rightarrow> {#FopsRef n#} | _ \<Rightarrow> {#})"

definition file_holds :: "'w dopen_env \<Rightarrow> ofile \<Rightarrow> res multiset" where
  "file_holds env f =
     (case (o_path f, o_inode f) of
        (Some p, Some ino) \<Rightarrow> {#PathRef p#} + fops_held (o_op f) + (if has (o_mode f) FM_PATH then {#} else access_held env f ino p)
      | _ \<Rightarrow> {#})"

text \<open>A file structure fresh from allocation: only the access asked for is set in its mode.\<close>

definition fresh_file :: "ofile \<Rightarrow> bool" where
  "fresh_file f \<longleftrightarrow> \<not> has (o_mode f) (FM_PATH OR FM_WRITER OR FM_CAN_READ OR FM_CAN_WRITE OR FM_OPENED)"

text \<open>
  What the outside functions promise. \<open>put_file_access\<close> gives back the read count or the write
  access that the mode of the file records; the last \<open>fput\<close> gives back the file structure
  and, for an opened file, what it holds. An \<open>open\<close> operation keeps the identity and the access
  bits of the file, and may exchange the table of operations together with its reference.
\<close>

definition access_bits :: u32 where
  "access_bits = FM_READ OR FM_WRITE OR FM_PATH OR FM_WRITER OR FM_CAN_READ OR FM_CAN_WRITE OR FM_OPENED OR FM_BACKING"

definition open_op_ok :: "'w open_op \<Rightarrow> bool" where
  "open_op_ok g \<longleftrightarrow> (\<forall>ino f n s f' err s'. o_op f = Some (Fops n) \<longrightarrow> FopsRef n \<in># held s \<longrightarrow> run_state (g ino f) s = ((f', err), s') \<longrightarrow>
     o_id f' = o_id f \<and> o_path f' = o_path f \<and> o_inode f' = o_inode f \<and> o_flags f' = o_flags f \<and>
     o_mode f' AND access_bits = o_mode f AND access_bits \<and>
     (\<exists>n'. o_op f' = Some (Fops n') \<and> held s' = held s - {#FopsRef n#} + {#FopsRef n'#}))"

definition dopen_env_ok :: "'w dopen_env \<Rightarrow> bool" where
  "dopen_env_ok env \<longleftrightarrow>
     (\<forall>f ino p. o_inode f = Some ino \<longrightarrow> o_path f = Some p \<longrightarrow> put_file_access env f = access_held env f ino p) \<and>
     (\<forall>f. fput_releases env f = {#FileRef (o_id f)#} + (if has (o_mode f) FM_OPENED then file_holds env f else {#})) \<and>
     (\<forall>op g. fop_open env op = Some g \<longrightarrow> open_op_ok g) \<and>
     (\<forall>fl c w. case snd (alloc_empty_file env fl c w) of Inl e \<Rightarrow> e < 0 | Inr f \<Rightarrow> fresh_file f) \<and>
     (\<forall>fl c w. case snd (alloc_empty_file_noaccount env fl c w) of Inl e \<Rightarrow> e < 0 | Inr f \<Rightarrow> fresh_file f)"

text \<open>
  What the mode promises to \<open>read\<close>, \<open>write\<close> and \<open>lseek\<close>: a file that can be read was opened for
  reading and has an operation for it, likewise for writing, one that can be positioned has a
  \<open>llseek\<close> operation, and a mere path can do none of it.
\<close>

definition mode_consistent :: "'w dopen_env \<Rightarrow> ofile \<Rightarrow> bool" where
  "mode_consistent env f \<longleftrightarrow> (\<exists>op. o_op f = Some op \<and>
     (has (o_mode f) FM_CAN_READ \<longrightarrow> has (o_mode f) FM_READ \<and> (fop_read env op \<or> fop_read_iter env op)) \<and>
     (has (o_mode f) FM_CAN_WRITE \<longrightarrow> has (o_mode f) FM_WRITE \<and> (fop_write env op \<or> fop_write_iter env op)) \<and>
     (has (o_mode f) FM_LSEEK \<longrightarrow> fop_llseek env op) \<and>
     (has (o_mode f) FM_PATH \<longrightarrow> \<not> has (o_mode f) (FM_READ OR FM_WRITE OR FM_CAN_READ OR FM_CAN_WRITE OR FM_LSEEK)))"

text \<open>The outcome: an opened file holds what its mode says; one that was not opened holds nothing.\<close>

definition accounts :: "'w dopen_env \<Rightarrow> nat \<Rightarrow> res multiset \<Rightarrow> ofile \<times> int \<Rightarrow> 'w kst \<Rightarrow> bool" where
  "accounts env i h = (\<lambda>(f, err) s. o_id f = i \<and>
     (if has (o_mode f) FM_OPENED then held s = h + file_holds env f \<and> mode_consistent env f
     else held s = h \<and> err \<noteq> 0))"

lemma wp_release_all [wp_simps]: "wp (release_all rs) Q s = Q () (s\<lparr>held := held s - rs\<rparr>)"
  by (simp add: wp_def release_all_def)

lemma and_submask: "(x :: u32) AND m = y AND m \<Longrightarrow> m AND d = d \<Longrightarrow> x AND d = y AND d"
  by (metis and.assoc)

lemma access_bits_keep:
  assumes "x AND access_bits = y AND access_bits"
  shows "x AND 3 = y AND 3" "has x FM_WRITER = has y FM_WRITER" "has x FM_BACKING = has y FM_BACKING"
    "has x FM_OPENED = has y FM_OPENED" "has x FM_PATH = has y FM_PATH" "has x FM_READ = has y FM_READ" "has x FM_WRITE = has y FM_WRITE"
    "has x FM_CAN_READ = has y FM_CAN_READ" "has x FM_CAN_WRITE = has y FM_CAN_WRITE"
  unfolding has_def
  by (simp_all add: and_submask[OF assms] access_bits_def)

lemma wp_file_get_write_access:
  assumes "\<And>err w. err \<noteq> 0 \<Longrightarrow> Q err (s\<lparr>vfs := w\<rparr>)"
    and "\<And>w. Q 0 (s\<lparr>vfs := w, held := held s + ({#InodeWrite ino, MntAccess (mnt p)#} +
      (if has (o_mode f) FM_BACKING then {#MntAccess (backing_mnt env (o_id f))#} else {#}))\<rparr>)"
  shows "wp (file_get_write_access env f p ino) Q s"
  using assms unfolding file_get_write_access_def
  by (auto simp: wp_simps add_mset_commute split: prod.split)

lemma wp_cleanup_all:
  assumes "dopen_env_ok env" and "o_id f = i" and "o_inode f = Some ino" and "o_path f = Some p" and "err \<noteq> 0"
    and "\<not> has (o_mode f) FM_OPENED" and "held s = h + {#PathRef p#} + fops_held (o_op f) + access_held env f ino p"
  shows "wp (cleanup_all env f p err) (accounts env i h) s"
proof -
  have "put_file_access env f = access_held env f ino p" using assms(1,3,4) by (simp add: dopen_env_ok_def)
  then show ?thesis
    using assms(2,5-7) unfolding cleanup_all_def cleanup_file_def
    by (auto simp: wp_simps accounts_def fops_held_def split: option.split fops.split)
qed

lemma or_disjoint: "(c :: u32) AND d = 0 \<Longrightarrow> (x OR c) AND d = x AND d"
  by (simp add: bit.conj_disj_distrib2)

lemma and_not_disjoint: "(c :: u32) AND d = 0 \<Longrightarrow> (x AND NOT c) AND d = x AND d"
proof -
  assume "c AND d = 0"
  then have "NOT c AND d = (NOT c OR c) AND d" by (simp only: bit.conj_disj_distrib2) simp
  then have "NOT c AND d = d" by simp
  then show ?thesis by (simp add: and.assoc)
qed

lemma open_mode_keeps:
  assumes "FM_CAN_READ AND d = 0" "FM_CAN_WRITE AND d = 0" "FM_LSEEK AND d = 0" "FM_CAN_ODIRECT AND d = 0"
  shows "open_mode env op dio m AND d = (m OR FM_OPENED) AND d"
  using assms and_not_disjoint[of FM_LSEEK d] by (simp add: open_mode_def Let_def or_disjoint)

lemma open_mode_bits:
  "has (open_mode env op dio m) FM_OPENED" "has (open_mode env op dio m) FM_PATH = has m FM_PATH"
  "open_mode env op dio m AND 3 = m AND 3" "has (open_mode env op dio m) FM_WRITER = has m FM_WRITER"
  "has (open_mode env op dio m) FM_BACKING = has m FM_BACKING"
  "has (open_mode env op dio m) FM_READ = has m FM_READ" "has (open_mode env op dio m) FM_WRITE = has m FM_WRITE"
  by (simp_all add: has_def open_mode_keeps or_disjoint bit.conj_disj_distrib2)

lemma open_mode_can:
  assumes "\<not> has m FM_CAN_READ" and "\<not> has m FM_CAN_WRITE"
  shows "has (open_mode env op dio m) FM_CAN_READ \<longleftrightarrow> has m FM_READ \<and> (fop_read env op \<or> fop_read_iter env op)"
    "has (open_mode env op dio m) FM_CAN_WRITE \<longleftrightarrow> has m FM_WRITE \<and> (fop_write env op \<or> fop_write_iter env op)"
    "has (open_mode env op dio m) FM_LSEEK \<longleftrightarrow> has m FM_LSEEK \<and> fop_llseek env op"
  using assms and_not_disjoint[of FM_LSEEK FM_CAN_READ] and_not_disjoint[of FM_LSEEK FM_CAN_WRITE]
  by (auto simp: open_mode_def Let_def has_def bit.conj_disj_distrib2 and.assoc)

lemma wp_finish_setup:
  assumes "o_id f = i" and "o_inode f = Some ino" and "o_path f = Some p" and "\<not> has (o_mode f) FM_PATH"
    and "o_op f = Some op" and "\<not> has (o_mode f) FM_CAN_READ" and "\<not> has (o_mode f) FM_CAN_WRITE"
    and "held s = h + {#PathRef p#} + fops_held (o_op f) + access_held env f ino p"
  shows "wp (finish_setup env f op ino') (accounts env i h) s"
  unfolding finish_setup_def
  by (simp add: wp_simps accounts_def open_mode_bits open_mode_can file_holds_def mode_consistent_def assms access_held_def)

lemma access_held_cong:
  assumes "o_id f' = o_id f" and "o_mode f' AND 3 = o_mode f AND 3"
    and "has (o_mode f') FM_WRITER = has (o_mode f) FM_WRITER" "has (o_mode f') FM_BACKING = has (o_mode f) FM_BACKING"
  shows "access_held env f' ino p = access_held env f ino p"
  using assms by (simp add: access_held_def)

lemma wp_open_op:
  assumes "open_op_ok g" and "o_op f = Some (Fops n)" and "FopsRef n \<in># held s"
    and "\<And>f' err n' s'. o_id f' = o_id f \<Longrightarrow> o_path f' = o_path f \<Longrightarrow> o_inode f' = o_inode f \<Longrightarrow>
      o_mode f' AND access_bits = o_mode f AND access_bits \<Longrightarrow> o_op f' = Some (Fops n') \<Longrightarrow>
      held s' = held s - {#FopsRef n#} + {#FopsRef n'#} \<Longrightarrow> Q (f', err) s'"
  shows "wp (g ino f) Q s"
proof -
  obtain f' err s' where r: "run_state (g ino f) s = ((f', err), s')" by (metis surj_pair)
  note ok = assms(1)[unfolded open_op_ok_def, rule_format, OF assms(2,3) r]
  from ok obtain n' where "o_op f' = Some (Fops n')" "held s' = held s - {#FopsRef n#} + {#FopsRef n'#}" by blast
  with ok have "Q (f', err) s'" by (intro assms(4)) simp_all
  then show ?thesis by (simp add: wp_def r)
qed

abbreviation (input) SEEK_BITS :: u32 where "SEEK_BITS \<equiv> 0x1C"

lemma seek_bits:
  fixes m :: u32
  shows "has (m OR SEEK_BITS) FM_OPENED = has m FM_OPENED"
    "has (m OR SEEK_BITS) FM_PATH = has m FM_PATH"
    "(m OR SEEK_BITS) AND 3 = m AND 3"
    "has (m OR SEEK_BITS) FM_WRITER = has m FM_WRITER"
    "has (m OR SEEK_BITS) FM_BACKING = has m FM_BACKING"
    "has (m OR SEEK_BITS) FM_CAN_READ = has m FM_CAN_READ"
    "has (m OR SEEK_BITS) FM_CAN_WRITE = has m FM_CAN_WRITE"
  by (simp_all add: has_def or_disjoint)

definition unopened :: "u32 \<Rightarrow> bool" where
  "unopened m \<longleftrightarrow> \<not> has m FM_OPENED \<and> \<not> has m FM_PATH \<and> \<not> has m FM_CAN_READ \<and> \<not> has m FM_CAN_WRITE"

lemma wp_after_open:
  assumes ok: "dopen_env_ok env" and f: "o_path f = Some p" "o_inode f = Some ino" "unopened m" "o_id f = i"
    and op: "o_op f = Some op"
    and bits: "o_mode f AND access_bits = (m OR SEEK_BITS) AND access_bits"
    and held: "held s = h + {#PathRef p#} + fops_held (o_op f) + access_held env (f\<lparr>o_mode := m\<rparr>) ino p"
  shows "wp (if err \<noteq> 0 then cleanup_all env f p err else finish_setup env f op ino) (accounts env i h) s"
proof -
  note b = access_bits_keep[OF bits, unfolded seek_bits]
  have a: "access_held env (f\<lparr>o_mode := m\<rparr>) ino p = access_held env f ino p"
    by (rule access_held_cong) (simp_all add: b)
  show ?thesis
  proof (cases "err = 0")
    case True
    then show ?thesis using f b held a op by (simp add: wp_finish_setup unopened_def)
  next
    case False
    then show ?thesis using f b held a by (simp add: wp_cleanup_all[OF ok] unopened_def)
  qed
qed

lemma access_held_op: "access_held env (f\<lparr>o_op := x\<rparr>) ino p = access_held env f ino p"
  by (simp add: access_held_def)

lemma wp_open_then_setup:
  assumes ok: "dopen_env_ok env" and f: "o_inode f = Some ino" "o_path f = Some p" "unopened m" "o_id f = i"
    and g: "\<And>g. opn = Some g \<Longrightarrow> open_op_ok g" and op: "o_op f = Some (Fops n)"
    and m: "o_mode f = m OR SEEK_BITS"
    and held: "held s = h + {#PathRef p#} + {#FopsRef n#} + access_held env (f\<lparr>o_mode := m\<rparr>) ino p"
  shows "wp (case opn of None \<Rightarrow> State_Monad.return (f, 0) | Some g \<Rightarrow> g ino f)
    (\<lambda>a. wp (case a of (f, err) \<Rightarrow> if err \<noteq> 0 then cleanup_all env f p err else finish_setup env f (case o_op f of None \<Rightarrow> Empty_fops | Some op \<Rightarrow> op) ino) (accounts env i h)) s"
proof (cases opn)
  case None
  have "wp (if (0 :: int) \<noteq> 0 then cleanup_all env f p 0 else finish_setup env f (case o_op f of None \<Rightarrow> Empty_fops | Some op \<Rightarrow> op) ino) (accounts env i h) s"
    by (rule wp_after_open[OF ok f(2,1,3,4)]) (simp_all add: m op fops_held_def held)
  then show ?thesis by (simp add: None wp_return)
next
  case (Some g)
  show ?thesis
    unfolding Some option.case
  proof (rule wp_open_op[OF g[OF Some] op])
    show "FopsRef n \<in># held s" by (simp add: held)
  next
    fix f' :: ofile and err n' and s' :: "'a kst"
    assume f': "o_id f' = o_id f" "o_path f' = o_path f" "o_inode f' = o_inode f"
      "o_mode f' AND access_bits = o_mode f AND access_bits" "o_op f' = Some (Fops n')"
      and s': "held s' = held s - {#FopsRef n#} + {#FopsRef n'#}"
    have "access_held env (f'\<lparr>o_mode := m\<rparr>) ino p = access_held env (f\<lparr>o_mode := m\<rparr>) ino p"
      using f'(1) by (simp add: access_held_def)
    then have "wp (if err \<noteq> 0 then cleanup_all env f' p err else finish_setup env f' (case o_op f' of None \<Rightarrow> Empty_fops | Some op \<Rightarrow> op) ino) (accounts env i h) s'"
      by (intro wp_after_open[OF ok, where m = m]) (use f f' s' held m in \<open>simp_all add: fops_held_def\<close>)
    then show "wp (case (f', err) of (f, err) \<Rightarrow> if err \<noteq> 0 then cleanup_all env f p err else finish_setup env f (case o_op f of None \<Rightarrow> Empty_fops | Some op \<Rightarrow> op) ino) (accounts env i h) s'"
      by simp
  qed
qed

lemma wp_open_with_fops:
  assumes ok: "dopen_env_ok env" and f: "o_inode f = Some ino" "o_path f = Some p" "unopened (o_mode f)" "o_id f = i"
    and opn: "\<And>g. opn = Some g \<Longrightarrow> open_op_ok g"
    and held: "held s = h + {#PathRef p#} + access_held env f ino p"
  shows "wp (open_with_fops env f p ino opn) (accounts env i h) s"
proof -
  obtain w op where w: "i_fop_get env ino (vfs s) = (w, op)" by (rule prod.exhaust)
  show ?thesis
  proof (cases op)
    case None
    then show ?thesis
      using held f by (simp add: open_with_fops_def wp_simps w wp_cleanup_all[OF ok] fops_held_def access_held_op unopened_def)
  next
    case (Some n)
    let ?f1 = "f\<lparr>o_op := Some (Fops n)\<rparr>"
    let ?g = "case opn of None \<Rightarrow> fop_open env (Fops n) | Some g \<Rightarrow> Some g"
    obtain w1 e1 where se: "security_file_open env ?f1 w = (w1, e1)" by (rule prod.exhaust)
    obtain w2 e2 where bl: "break_lease (base env) ino (o_flags f) w1 = (w2, e2)" by (rule prod.exhaust)
    have h1: "held (s\<lparr>held := add_mset (FopsRef n) (held s), vfs := w'\<rparr>) =
        h + {#PathRef p#} + fops_held (o_op ?f1) + access_held env ?f1 ino p" for w'
      unfolding access_held_op by (simp add: held fops_held_def)
    have clean: "wp (cleanup_all env ?f1 p err) (accounts env i h) (s\<lparr>held := add_mset (FopsRef n) (held s), vfs := w'\<rparr>)"
      if "err \<noteq> 0" for err w'
      by (rule wp_cleanup_all[OF ok _ _ _ _ _ h1]) (use that f in \<open>simp_all add: unopened_def\<close>)
    have "open_op_ok g" if "?g = Some g" for g
      using that ok opn unfolding dopen_env_ok_def by (auto split: option.splits)
    then have "wp (case ?g of None \<Rightarrow> State_Monad.return (?f1\<lparr>o_mode := o_mode f OR SEEK_BITS\<rparr>, 0)
        | Some g \<Rightarrow> g ino (?f1\<lparr>o_mode := o_mode f OR SEEK_BITS\<rparr>))
      (\<lambda>a. wp (case a of (f, err) \<Rightarrow> if err \<noteq> 0 then cleanup_all env f p err
          else finish_setup env f (case o_op f of None \<Rightarrow> Empty_fops | Some op \<Rightarrow> op) ino) (accounts env i h))
      (s\<lparr>held := add_mset (FopsRef n) (held s), vfs := w2\<rparr>)"
      by (intro wp_open_then_setup[OF ok, where m = "o_mode f" and n = n])
        (use f h1[of w2] in \<open>simp_all add: access_held_def fops_held_def\<close>)
    then show ?thesis
      using clean by (simp add: open_with_fops_def wp_simps w Some se bl)
  qed
qed

text \<open>How the access that a file has taken shows in its mode.\<close>

lemma fresh_bits:
  assumes "fresh_file f"
  shows "unopened (o_mode f)" "\<not> has (o_mode f) FM_WRITER"
proof -
  have z: "o_mode f AND 0xF4000 = 0" using assms by (simp add: fresh_file_def has_def)
  have "o_mode f AND d = 0" if "0xF4000 AND d = d" for d
  proof -
    have "o_mode f AND d = o_mode f AND (0xF4000 AND d)" by (simp only: that)
    also have "\<dots> = (o_mode f AND 0xF4000) AND d" by (simp only: and.assoc)
    finally show ?thesis by (simp add: z)
  qed
  then show "unopened (o_mode f)" "\<not> has (o_mode f) FM_WRITER" by (simp_all add: unopened_def has_def)
qed

lemma unopened_or:
  "unopened m \<Longrightarrow> unopened (m OR FM_WRITER)" "unopened m \<Longrightarrow> unopened (m OR FM_ATOMIC_POS)"
  by (simp_all add: unopened_def has_def or_disjoint)

lemma access_held_atomic_pos:
  "access_held env (f\<lparr>o_mode := o_mode f OR FM_ATOMIC_POS\<rparr>) ino p = access_held env f ino p"
  by (rule access_held_cong) (simp_all add: has_def or_disjoint)

lemma access_held_cases:
  "o_mode f AND 3 = 1 \<Longrightarrow> access_held env f ino p = {#ReadCount ino#}"
  "has (o_mode f) FM_WRITE \<Longrightarrow> access_held env (f\<lparr>o_mode := o_mode f OR FM_WRITER\<rparr>) ino p =
     {#InodeWrite ino, MntAccess (mnt p)#} + (if has (o_mode f) FM_BACKING then {#MntAccess (backing_mnt env (o_id f))#} else {#})"
  "o_mode f AND 3 \<noteq> 1 \<Longrightarrow> \<not> has (o_mode f) FM_WRITER \<Longrightarrow> access_held env f ino p = {#}"
proof -
  show "access_held env (f\<lparr>o_mode := o_mode f OR FM_WRITER\<rparr>) ino p =
     {#InodeWrite ino, MntAccess (mnt p)#} + (if has (o_mode f) FM_BACKING then {#MntAccess (backing_mnt env (o_id f))#} else {#})"
    if w: "has (o_mode f) FM_WRITE"
  proof -
    have "(1 :: u32) AND 2 = 0" "(3 :: u32) AND 2 = 2" by simp_all
    then have "o_mode f AND 3 \<noteq> 1" using w unfolding has_def by (metis and.assoc)
    then show ?thesis by (simp add: access_held_def has_def or_disjoint bit.conj_disj_distrib2)
  qed
qed (simp_all add: access_held_def)

lemma wp_take_access:
  assumes "unopened (o_mode f)" and "\<not> has (o_mode f) FM_WRITER"
    and "\<And>err w. err \<noteq> 0 \<Longrightarrow> Q (f, err) (s\<lparr>vfs := w\<rparr>)"
    and "\<And>m w. unopened m \<Longrightarrow> Q (f\<lparr>o_mode := m\<rparr>, 0) (s\<lparr>vfs := w, held := held s + access_held env (f\<lparr>o_mode := m\<rparr>) ino p\<rparr>)"
  shows "wp (take_access env f p ino) Q s"
proof -
  have keep: "Q (f, 0) (s\<lparr>held := held s + access_held env f ino p\<rparr>)"
    using assms(4)[OF assms(1), of "vfs s"] by simp
  show ?thesis
  proof (cases "o_mode f AND 3 = 1")
    case True
    then show ?thesis
      using keep access_held_cases(1)[OF True, of env ino p] by (simp add: take_access_def wp_simps)
  next
    case False
    show ?thesis
    proof (cases "has (o_mode f) FM_WRITE \<and> \<not> special_file (i_mode (base env) (vfs s) ino)")
      case True
      have "Q (f\<lparr>o_mode := o_mode f OR FM_WRITER\<rparr>, 0) (s\<lparr>vfs := w, held := held s + ({#InodeWrite ino, MntAccess (mnt p)#} +
          (if has (o_mode f) FM_BACKING then {#MntAccess (backing_mnt env (o_id f))#} else {#}))\<rparr>)" for w
        using assms(4)[OF unopened_or(1)[OF assms(1)], of w] True by (simp add: access_held_cases(2))
      then have "wp (file_get_write_access env f p ino)
          (\<lambda>err. wp (State_Monad.return (if err \<noteq> 0 then f else f\<lparr>o_mode := o_mode f OR FM_WRITER\<rparr>, err)) Q) s"
        by (intro wp_file_get_write_access) (simp_all add: assms(3) wp_return)
      then show ?thesis using False True by (simp add: take_access_def wp_simps)
    next
      case no: False
      then show ?thesis
        using keep access_held_cases(3)[OF False assms(2), of env ino p] False by (simp add: take_access_def wp_simps) blast
    qed
  qed
qed

lemma accounts_failed:
  "o_id f = i \<Longrightarrow> unopened (o_mode f) \<Longrightarrow> err \<noteq> 0 \<Longrightarrow> held s = h \<Longrightarrow> accounts env i h (f, err) s"
  by (simp add: accounts_def unopened_def)

lemma wp_do_dentry_open:
  assumes ok: "dopen_env_ok env" and f: "fresh_file f" "o_path f = Some p"
    and opn: "\<And>g. opn = Some g \<Longrightarrow> open_op_ok g"
  shows "wp (do_dentry_open env f p ino opn) (accounts env (o_id f) (held s)) s"
proof -
  note fb = fresh_bits[OF f(1)]
  let ?f1 = "f\<lparr>o_inode := Some ino, o_mapping := i_mapping env ino,
    o_wb_err := filemap_sample_wb_err env (vfs s) (i_mapping env ino)\<rparr>"
  let ?f2 = "?f1\<lparr>o_sb_err := file_sample_sb_err env (vfs s) ?f1\<rparr>"
  let ?s1 = "s\<lparr>held := add_mset (PathRef p) (held s)\<rparr>"
  have opened: "wp (open_with_fops env (if b then f'\<lparr>o_mode := o_mode f' OR FM_ATOMIC_POS\<rparr> else f') p ino opn) (accounts env (o_id f) (held s)) s'"
    if "o_id f' = o_id f" "o_inode f' = Some ino" "o_path f' = Some p" "unopened (o_mode f')"
      "held s' = held s + {#PathRef p#} + access_held env f' ino p" for b f' and s' :: "'a kst"
    using that by (intro wp_open_with_fops[OF ok _ _ _ _ opn]) (simp_all add: unopened_or access_held_atomic_pos)
  have "wp (take_access env ?f2 p ino) (\<lambda>a. wp (case a of (f, err) \<Rightarrow> if err \<noteq> 0 then cleanup_file f p err
      else ask (\<lambda>w. i_mode (base env) w ino) \<bind> (\<lambda>im. open_with_fops env
          (if S_ISREG im \<or> S_ISDIR im then f\<lparr>o_mode := o_mode f OR FM_ATOMIC_POS\<rparr> else f) p ino opn)) (accounts env (o_id f) (held s))) ?s1"
    by (rule wp_take_access)
      (use f(2) fb in \<open>simp_all add: wp_simps cleanup_file_def accounts_failed opened\<close>)
  then show ?thesis
    using f(2) by (simp add: do_dentry_open_def wp_simps accounts_def file_holds_def fops_held_def mode_consistent_def has_def)
qed


section \<open>Opening takes and gives back exactly\<close>

text \<open>What a caller of the three open functions finds.\<close>

definition open_outcome :: "'w dopen_env \<Rightarrow> res multiset \<Rightarrow> int + ofile \<Rightarrow> 'w kst \<Rightarrow> bool" where
  "open_outcome env h r s = (case r of
      Inl e \<Rightarrow> e \<noteq> 0 \<and> held s = h
    | Inr f \<Rightarrow> has (o_mode f) FM_OPENED \<and> held s = h + {#FileRef (o_id f)#} + file_holds env f \<and> mode_consistent env f)"

lemma wp_open_result:
  assumes "dopen_env_ok env" and "accounts env (o_id f) (add_mset (FileRef (o_id f)) h) (f, err) s"
  shows "wp (open_result env f err) (open_outcome env h) s"
proof -
  have "fput_releases env f = {#FileRef (o_id f)#} + (if has (o_mode f) FM_OPENED then file_holds env f else {#})"
    using assms(1) by (simp add: dopen_env_ok_def)
  then show ?thesis
    using assms(2) by (auto simp: open_result_def open_outcome_def wp_simps accounts_def split: if_splits)
qed

lemma wp_open_and_result:
  assumes ok: "dopen_env_ok env" and f: "fresh_file f" "o_path f = Some p"
    and opn: "\<And>g. opn = Some g \<Longrightarrow> open_op_ok g" and held: "held s = add_mset (FileRef (o_id f)) h"
  shows "wp (do_dentry_open env f p ino opn)
    (\<lambda>a. wp (case a of (f, err) \<Rightarrow> open_result env f err) (open_outcome env h)) s"
proof (rule wp_mono[OF wp_do_dentry_open[OF ok f opn]])
  fix a and s' :: "'a kst"
  assume acc: "accounts env (o_id f) (held s) a s'"
  obtain f' err where a: "a = (f', err)" by (rule prod.exhaust)
  have "o_id f' = o_id f" using acc by (simp add: a accounts_def)
  then show "wp (case a of (f, err) \<Rightarrow> open_result env f err) (open_outcome env h) s'"
    using wp_open_result[OF ok, of f' h err s'] acc by (simp add: a held)
qed

lemma fresh_path: "fresh_file f \<Longrightarrow> fresh_file (f\<lparr>o_path := x\<rparr>)"
  by (simp add: fresh_file_def)

lemma alloc_cases:
  assumes "dopen_env_ok env"
  shows "alloc_empty_file env fl c w = (w', Inr f) \<Longrightarrow> fresh_file f" "alloc_empty_file env fl c w = (w', Inl e) \<Longrightarrow> e \<noteq> 0"
    "alloc_empty_file_noaccount env fl c w = (w', Inr f) \<Longrightarrow> fresh_file f" "alloc_empty_file_noaccount env fl c w = (w', Inl e) \<Longrightarrow> e \<noteq> 0"
proof -
  have "case snd (alloc_empty_file env fl c w) of Inl e \<Rightarrow> e < 0 | Inr f \<Rightarrow> fresh_file f"
    "case snd (alloc_empty_file_noaccount env fl c w) of Inl e \<Rightarrow> e < 0 | Inr f \<Rightarrow> fresh_file f"
    using assms by (simp_all add: dopen_env_ok_def)
  then show "alloc_empty_file env fl c w = (w', Inr f) \<Longrightarrow> fresh_file f" "alloc_empty_file env fl c w = (w', Inl e) \<Longrightarrow> e \<noteq> 0"
    "alloc_empty_file_noaccount env fl c w = (w', Inr f) \<Longrightarrow> fresh_file f" "alloc_empty_file_noaccount env fl c w = (w', Inl e) \<Longrightarrow> e \<noteq> 0"
    by simp_all
qed

lemma wp_dentry_open:
  assumes ok: "dopen_env_ok env"
  shows "wp (dentry_open env p flags c) (open_outcome env (held s)) s"
  using alloc_cases(1,2)[OF ok]
  by (auto simp: dentry_open_def vfs_open_def wp_simps open_outcome_def fresh_path
      intro!: wp_open_and_result[OF ok, where f = "_\<lparr>o_path := Some p\<rparr>"] split: prod.split sum.split)

lemma wp_dentry_create:
  assumes ok: "dopen_env_ok env"
  shows "wp (dentry_create env p flags mode c) (open_outcome env (held s)) s"
proof -
  have failed: "wp (open_result env f err) (open_outcome env h) s'"
    if "fresh_file f" "err \<noteq> 0" "held s' = add_mset (FileRef (o_id f)) h" for f err h and s' :: "'a kst"
    by (rule wp_open_result[OF ok]) (use that fresh_bits in \<open>simp add: accounts_failed\<close>)
  show ?thesis
    using alloc_cases(1,2)[OF ok]
    by (auto simp: dentry_create_def vfs_open_def wp_simps open_outcome_def[of env _ "Inl _"] fresh_path
        intro!: failed wp_open_and_result[OF ok, where f = "_\<lparr>o_path := Some p\<rparr>"] split: prod.split sum.split)
qed

lemma wp_kernel_file_open:
  assumes ok: "dopen_env_ok env"
  shows "wp (kernel_file_open env p flags ino c) (open_outcome env (held s)) s"
  using alloc_cases(3,4)[OF ok]
  by (auto simp: kernel_file_open_def wp_simps open_outcome_def fresh_path
      intro!: wp_open_and_result[OF ok, where f = "_\<lparr>o_path := Some p\<rparr>"] split: prod.split sum.split)

text \<open>The ready-made operations meet the contract of an \<open>open\<close> operation.\<close>

lemma nonseekable_open_ok: "open_op_ok (\<lambda>ino f. State_Monad.return (nonseekable_open f))"
  using and_not_disjoint[of SEEK_BITS access_bits]
  by (auto simp: open_op_ok_def nonseekable_open_def access_bits_def)

lemma stream_open_ok: "open_op_ok (\<lambda>ino f. State_Monad.return (stream_open f))"
  using and_not_disjoint[of "0x801C" access_bits]
  by (auto simp: open_op_ok_def stream_open_def access_bits_def Let_def or_disjoint)

section \<open>An instance\<close>

definition plain_dopen0 :: "nat dopen_env" where
  "plain_dopen0 =
     \<lparr>base = plain_vfs_env, i_mapping = (\<lambda>i. i), filemap_sample_wb_err = (\<lambda>w m. 0), file_sample_sb_err = (\<lambda>w f. 0),
      mnt_get_write_access = (\<lambda>m w. (w, 0)), backing_mnt = (\<lambda>i. 2), i_fop_get = (\<lambda>i w. (w, Some 4)),
      fop_open = (\<lambda>op. Some (\<lambda>ino f. State_Monad.return (nonseekable_open f))),
      fop_read = (\<lambda>op. False), fop_read_iter = (\<lambda>op. True), fop_write = (\<lambda>op. False), fop_write_iter = (\<lambda>op. True),
      fop_llseek = (\<lambda>op. True), mapping_direct_IO = (\<lambda>w m. False), security_file_open = (\<lambda>f w. (w, 0)),
      iocb_flags = (\<lambda>f. 0), ra_state = (\<lambda>m. m), filemap_nr_thps = (\<lambda>w m. False), unmap_mapping_range = (\<lambda>m w. w),
      truncate_inode_pages = (\<lambda>m w. w), fsnotify_open = (\<lambda>f w. w), put_file_access = (\<lambda>f. {#}), fput_releases = (\<lambda>f. {#}),
      alloc_empty_file = (\<lambda>fl c w. (w, Inr \<lparr>o_id = 9, o_flags = fl, o_mode = 3, o_path = None, o_inode = None, o_mapping = 0,
        o_op = None, o_wb_err = 0, o_sb_err = 0, o_iocb_flags = 0, o_ra = 0\<rparr>)),
      alloc_empty_file_noaccount = (\<lambda>fl c w. (w, Inl (- ENOMEM))),
      vfs_create = (\<lambda>m d k w. (w, 0))\<rparr>"

definition plain_dopen :: "nat dopen_env" where
  "plain_dopen = plain_dopen0\<lparr>
     put_file_access := (\<lambda>f. case (o_inode f, o_path f) of (Some i, Some p) \<Rightarrow> access_held plain_dopen0 f i p | _ \<Rightarrow> {#}),
     fput_releases := (\<lambda>f. {#FileRef (o_id f)#} + (if has (o_mode f) FM_OPENED then file_holds plain_dopen0 f else {#}))\<rparr>"

lemma plain_dopen_ok: "dopen_env_ok plain_dopen"
proof -
  have a: "access_held plain_dopen = access_held plain_dopen0" "file_holds plain_dopen = file_holds plain_dopen0"
    unfolding file_holds_def by (simp_all add: fun_eq_iff access_held_def plain_dopen_def split: option.split)
  show ?thesis
    unfolding dopen_env_ok_def a
    by (simp add: plain_dopen_def) (simp add: plain_dopen0_def nonseekable_open_ok fresh_file_def has_def)
qed

text \<open>
  C14. Opening takes and gives back exactly. Whatever fails on the way (write access to
  the inode, the mount or a backing mount, the table of operations, a security hook, a
  lease, the \<open>open\<close> operation, direct I/O that the file system cannot do), an open that returns
  an error leaves the ledger of references, read counts and write accesses as it was; one that
  succeeds has added the file and exactly what its mode records, and the mode lets a file be
  read, written or positioned only if it was opened for that and has the operation.
\<close>

theorem opening_takes_and_gives_back:
  assumes "dopen_env_ok env"
  shows "wp (dentry_open env p flags c) (open_outcome env (held s)) s \<and>
    wp (dentry_create env p flags mode c) (open_outcome env (held s)) s \<and>
    wp (kernel_file_open env p flags ino c) (open_outcome env (held s)) s"
  by (intro conjI wp_dentry_open wp_dentry_create wp_kernel_file_open assms)

theorem opening_takes_and_gives_back_witness:
  "wp (dentry_open plain_dopen \<lparr>mnt = 1, dentry = 5\<rparr> 2 plain_acred) (open_outcome plain_dopen {#}) (plain_kst 0) \<and>
   wp (dentry_open plain_dopen \<lparr>mnt = 1, dentry = 5\<rparr> 2 plain_acred) (\<lambda>r s. \<not> isl r) (plain_kst 0)"
proof -
  have fields: "alloc_empty_file plain_dopen = alloc_empty_file plain_dopen0" "base plain_dopen = plain_vfs_env"
    "mnt_get_write_access plain_dopen = (\<lambda>m w. (w, 0))" "i_fop_get plain_dopen = (\<lambda>i w. (w, Some 4))"
    "security_file_open plain_dopen = (\<lambda>f w. (w, 0))"
    "fop_open plain_dopen = (\<lambda>op. Some (\<lambda>ino f. State_Monad.return (nonseekable_open f)))"
    by (simp_all add: plain_dopen_def plain_dopen0_def)
  have vfs: "get_write_access plain_vfs_env = (\<lambda>i w. (w, 0))" "break_lease plain_vfs_env = (\<lambda>i k w. (w, 0))"
    "i_mode plain_vfs_env = (\<lambda>w i. 0x81A4)"
    by (simp_all add: plain_vfs_env_def)
  have "wp (dentry_open plain_dopen \<lparr>mnt = 1, dentry = 5\<rparr> 2 plain_acred) (\<lambda>r s. \<not> isl r) (plain_kst 0)"
    by (simp add: dentry_open_def vfs_open_def do_dentry_open_def take_access_def file_get_write_access_def
        open_with_fops_def finish_setup_def open_result_def nonseekable_open_def wp_simps fields vfs
        special_file_def S_ISBLK_def S_ISFIFO_def has_def plain_dopen0_def)
  moreover have "held (plain_kst 0) = {#}" by (simp add: plain_kst_def)
  ultimately show ?thesis
    using opening_takes_and_gives_back[OF plain_dopen_ok, where p = "\<lparr>mnt = 1, dentry = 5\<rparr>" and flags = 2
        and c = plain_acred and s = "plain_kst 0"] by simp
qed

end
