(* ===== verification/Open_Calls.thy ===== *)
theory Open_Calls
  imports Vfs_Base Syscall_Usage
begin

text \<open>
  The calls that open and close descriptors (fs/open.c, \<open>build_open_how\<close> to \<open>vhangup\<close>), with the
  hook \<open>track_syscall\<close> that the repository adds to \<open>openat\<close>.

  The descriptor table is state: a slot is free, reserved for an open in progress, or has a
  file. Outside code, the record \<open>oc_env\<close>: the choice of a descriptor, the copy of a file name,
  the lookup and creation of the file (\<open>do_filp_open\<close>), flushing and the last \<open>fput\<close>.
\<close>

section \<open>Flags\<close>

text \<open>Flag words of \<open>openat2\<close> are 64 bits wide.\<close>

abbreviation (input) O_WRONLY :: u64 where "O_WRONLY \<equiv> 0x1"
abbreviation (input) O_CREAT :: u64 where "O_CREAT \<equiv> 0x40"
abbreviation (input) O_EXCL :: u64 where "O_EXCL \<equiv> 0x80"
abbreviation (input) O_TRUNC :: u64 where "O_TRUNC \<equiv> 0x200"
abbreviation (input) O_APPEND :: u64 where "O_APPEND \<equiv> 0x400"
abbreviation (input) O_DSYNC :: u64 where "O_DSYNC \<equiv> 0x1000"
abbreviation (input) O_LARGEFILE :: u64 where "O_LARGEFILE \<equiv> 0x8000"
abbreviation (input) O_DIRECTORY :: u64 where "O_DIRECTORY \<equiv> 0x10000"
abbreviation (input) O_NOFOLLOW :: u64 where "O_NOFOLLOW \<equiv> 0x20000"
abbreviation (input) O_CLOEXEC :: u64 where "O_CLOEXEC \<equiv> 0x80000"
abbreviation (input) SYNC_BIT :: u64 where "SYNC_BIT \<equiv> 0x100000"
abbreviation (input) O_PATH :: u64 where "O_PATH \<equiv> 0x200000"
abbreviation (input) TMPFILE_BIT :: u64 where "TMPFILE_BIT \<equiv> 0x400000"
abbreviation (input) NONOTIFY_BIT :: u64 where "NONOTIFY_BIT \<equiv> 0x4000000"
abbreviation (input) VALID_OPEN_FLAGS :: u64 where "VALID_OPEN_FLAGS \<equiv> 0x7FFFC3"
abbreviation (input) O_PATH_FLAGS :: u64 where "O_PATH_FLAGS \<equiv> 0x2B0000"

abbreviation (input) RESOLVE_NO_XDEV :: u64 where "RESOLVE_NO_XDEV \<equiv> 0x1"
abbreviation (input) RESOLVE_NO_MAGICLINKS :: u64 where "RESOLVE_NO_MAGICLINKS \<equiv> 0x2"
abbreviation (input) RESOLVE_NO_SYMLINKS :: u64 where "RESOLVE_NO_SYMLINKS \<equiv> 0x4"
abbreviation (input) RESOLVE_BENEATH :: u64 where "RESOLVE_BENEATH \<equiv> 0x8"
abbreviation (input) RESOLVE_IN_ROOT :: u64 where "RESOLVE_IN_ROOT \<equiv> 0x10"
abbreviation (input) RESOLVE_CACHED :: u64 where "RESOLVE_CACHED \<equiv> 0x20"
abbreviation (input) VALID_RESOLVE_FLAGS :: u64 where "VALID_RESOLVE_FLAGS \<equiv> 0x3F"

abbreviation (input) LOOKUP_OPEN :: u32 where "LOOKUP_OPEN \<equiv> 0x100"
abbreviation (input) LOOKUP_CREATE :: u32 where "LOOKUP_CREATE \<equiv> 0x200"
abbreviation (input) LOOKUP_EXCL :: u32 where "LOOKUP_EXCL \<equiv> 0x400"
abbreviation (input) LOOKUP_NO_SYMLINKS :: u32 where "LOOKUP_NO_SYMLINKS \<equiv> 0x10000"
abbreviation (input) LOOKUP_NO_MAGICLINKS :: u32 where "LOOKUP_NO_MAGICLINKS \<equiv> 0x20000"
abbreviation (input) LOOKUP_NO_XDEV :: u32 where "LOOKUP_NO_XDEV \<equiv> 0x40000"
abbreviation (input) LOOKUP_BENEATH :: u32 where "LOOKUP_BENEATH \<equiv> 0x80000"
abbreviation (input) LOOKUP_IN_ROOT :: u32 where "LOOKUP_IN_ROOT \<equiv> 0x100000"
abbreviation (input) LOOKUP_CACHED :: u32 where "LOOKUP_CACHED \<equiv> 0x200000"

abbreviation (input) MODE_BITS :: u64 where "MODE_BITS \<equiv> 0xFFF"
abbreviation (input) S_IFREG :: u16 where "S_IFREG \<equiv> 0x8000"

record open_how =
  how_flags :: u64
  how_mode :: u64
  how_resolve :: u64

record open_flags =
  open_flag :: u32
  of_mode :: u16
  acc_mode :: u32
  intent :: u32
  lookup_flags :: u32

text \<open>The permissions that the two access bits ask for.\<close>

definition ACC_MODE :: "u64 \<Rightarrow> u32" where
  "ACC_MODE flags = (if flags AND 3 = 0 then MAY_READ else if flags AND 3 = 1 then MAY_WRITE else MAY_READ OR MAY_WRITE)"

definition WILL_CREATE :: "u64 \<Rightarrow> bool" where
  "WILL_CREATE flags \<longleftrightarrow> has flags (O_CREAT OR TMPFILE_BIT)"

definition build_open_how :: "u32 \<Rightarrow> u16 \<Rightarrow> open_how" where
  "build_open_how flags mode =
     (let how = \<lparr>how_flags = ucast flags AND VALID_OPEN_FLAGS, how_mode = ucast mode AND MODE_BITS, how_resolve = 0\<rparr>;
          how = (if has (how_flags how) O_PATH then how\<lparr>how_flags := how_flags how AND O_PATH_FLAGS\<rparr> else how)
      in if \<not> WILL_CREATE (how_flags how) then how\<lparr>how_mode := 0\<rparr> else how)"

text \<open>The checks of lines 1228 to 1273, on the flags without the stripped ones.\<close>

definition open_flags_check :: "open_how \<Rightarrow> u64 \<Rightarrow> u32 \<Rightarrow> int" where
  "open_flags_check how flags acc =
     (if has flags (NOT VALID_OPEN_FLAGS) then - EINVAL
      else if has (how_resolve how) (NOT VALID_RESOLVE_FLAGS) then - EINVAL
      else if has (how_resolve how) RESOLVE_BENEATH \<and> has (how_resolve how) RESOLVE_IN_ROOT then - EINVAL
      else if WILL_CREATE flags \<and> has (how_mode how) (NOT MODE_BITS) then - EINVAL
      else if \<not> WILL_CREATE flags \<and> how_mode how \<noteq> 0 then - EINVAL
      else if flags AND (O_DIRECTORY OR O_CREAT) = (O_DIRECTORY OR O_CREAT) then - EINVAL
      else if has flags TMPFILE_BIT \<and> \<not> has flags O_DIRECTORY then - EINVAL
      else if has flags TMPFILE_BIT \<and> \<not> has acc MAY_WRITE then - EINVAL
      else if has flags O_PATH \<and> has flags (NOT O_PATH_FLAGS) then - EINVAL
      else 0)"

text \<open>The permissions to check, lines 1272 and 1286 to 1295.\<close>

definition open_acc_mode :: "u64 \<Rightarrow> u32 \<Rightarrow> u32" where
  "open_acc_mode flags acc =
     (let acc = (if has flags O_PATH then 0 else acc);
          acc = (if has flags O_TRUNC then acc OR MAY_WRITE else acc)
      in if has flags O_APPEND then acc OR MAY_APPEND else acc)"

text \<open>The intent, lines 1297 to 1302, and the lookup flags, lines 1307 to 1327.\<close>

definition open_intent :: "u64 \<Rightarrow> u32" where
  "open_intent flags =
     (let i = (if has flags O_PATH then 0 else LOOKUP_OPEN)
      in if has flags O_CREAT then (if has flags O_EXCL then i OR LOOKUP_CREATE OR LOOKUP_EXCL else i OR LOOKUP_CREATE) else i)"

definition open_lookup_flags :: "u64 \<Rightarrow> u64 \<Rightarrow> u32" where
  "open_lookup_flags flags resolve =
     (let l = 0;
          l = (if has flags O_DIRECTORY then l OR LOOKUP_DIRECTORY else l);
          l = (if \<not> has flags O_NOFOLLOW then l OR LOOKUP_FOLLOW else l);
          l = (if has resolve RESOLVE_NO_XDEV then l OR LOOKUP_NO_XDEV else l);
          l = (if has resolve RESOLVE_NO_MAGICLINKS then l OR LOOKUP_NO_MAGICLINKS else l);
          l = (if has resolve RESOLVE_NO_SYMLINKS then l OR LOOKUP_NO_SYMLINKS else l);
          l = (if has resolve RESOLVE_BENEATH then l OR LOOKUP_BENEATH else l);
          l = (if has resolve RESOLVE_IN_ROOT then l OR LOOKUP_IN_ROOT else l)
      in if has resolve RESOLVE_CACHED then l OR LOOKUP_CACHED else l)"

definition build_open_flags :: "open_how \<Rightarrow> int + open_flags" where
  "build_open_flags how =
     (let acc = ACC_MODE (how_flags how);
          flags = how_flags how AND NOT (NONOTIFY_BIT OR O_CLOEXEC);
          err = open_flags_check how flags acc
      in if err \<noteq> 0 then Inl err
         else
           (let mode = (if WILL_CREATE flags then ucast (how_mode how) OR S_IFREG else 0);
                flags = (if has flags SYNC_BIT then flags OR O_DSYNC else flags);
                lflags = (if has flags O_CREAT \<and> has flags O_EXCL then flags OR O_NOFOLLOW else flags)
            in if has (how_resolve how) RESOLVE_CACHED \<and> has lflags (O_TRUNC OR O_CREAT OR TMPFILE_BIT) then Inl (- EAGAIN)
               else Inr \<lparr>open_flag = ucast flags, of_mode = mode, acc_mode = open_acc_mode flags acc,
                 intent = open_intent flags, lookup_flags = open_lookup_flags lflags (how_resolve how)\<rparr>))"

section \<open>State\<close>

datatype fdslot = FdFree | FdReserved | FdFile nat

text \<open>The descriptors, the copied file names that are held, and the file system.\<close>

record 'w ofs =
  fdt :: "nat \<Rightarrow> fdslot"
  onames :: "nat multiset"
  ow :: 'w

record 'w oc_env =
  force_o_largefile :: bool
  getname :: "addr \<Rightarrow> 'w \<Rightarrow> 'w \<times> (int + nat)"
  getname_kernel :: "addr \<Rightarrow> 'w \<Rightarrow> 'w \<times> (int + nat)"
  get_unused_fd_flags :: "u32 \<Rightarrow> (nat \<Rightarrow> fdslot) \<Rightarrow> int"
  do_filp_open :: "int \<Rightarrow> nat \<Rightarrow> open_flags \<Rightarrow> 'w \<Rightarrow> 'w \<times> (int + nat)"
  do_file_open_root :: "path \<Rightarrow> addr \<Rightarrow> open_flags \<Rightarrow> 'w \<Rightarrow> 'w \<times> (int + nat)"
  copy_struct_from_user :: "nat \<Rightarrow> addr \<Rightarrow> u64 \<Rightarrow> 'w \<Rightarrow> u8 list \<times> int"
  audit_openat2_how :: "open_how \<Rightarrow> 'w \<Rightarrow> 'w"
  file_count :: "'w \<Rightarrow> nat \<Rightarrow> nat"
  op_flush :: "nat \<Rightarrow> ('w \<Rightarrow> 'w \<times> int) option"
  open_fmode :: "'w \<Rightarrow> nat \<Rightarrow> u32"
  dnotify_flush :: "nat \<Rightarrow> 'w \<Rightarrow> 'w"
  locks_remove_posix :: "nat \<Rightarrow> 'w \<Rightarrow> 'w"
  fput :: "nat \<Rightarrow> 'w \<Rightarrow> 'w"
  fput_sync :: "nat \<Rightarrow> 'w \<Rightarrow> 'w"
  do_close_range :: "u32 \<Rightarrow> u32 \<Rightarrow> u32 \<Rightarrow> 'w ofs \<Rightarrow> 'w ofs \<times> int"
  capable_tty_config :: bool
  tty_vhangup_self :: "'w \<Rightarrow> 'w"

section \<open>Opening\<close>

text \<open>Opening from inside the kernel: the file, or the error.\<close>

definition file_open_name :: "'w oc_env \<Rightarrow> nat \<Rightarrow> u32 \<Rightarrow> u16 \<Rightarrow> 'w ofs \<Rightarrow> 'w ofs \<times> (int + nat)" where
  "file_open_name env name flags mode s =
     (case build_open_flags (build_open_how flags mode) of
        Inl err \<Rightarrow> (s, Inl err)
      | Inr op \<Rightarrow> (let (w, f) = do_filp_open env AT_FDCWD name op (ow s) in (s\<lparr>ow := w\<rparr>, f)))"

definition filp_open :: "'w oc_env \<Rightarrow> addr \<Rightarrow> u32 \<Rightarrow> u16 \<Rightarrow> 'w ofs \<Rightarrow> 'w ofs \<times> (int + nat)" where
  "filp_open env filename flags mode s =
     (let (w, name) = getname_kernel env filename (ow s); s = s\<lparr>ow := w\<rparr>
      in case name of
           Inl err \<Rightarrow> (s, Inl err)
         | Inr name \<Rightarrow>
             (let s = s\<lparr>onames := add_mset name (onames s)\<rparr>;
                  (s, f) = file_open_name env name flags mode s
              in (s\<lparr>onames := onames s - {#name#}\<rparr>, f)))"

definition file_open_root :: "'w oc_env \<Rightarrow> path \<Rightarrow> addr \<Rightarrow> u32 \<Rightarrow> u16 \<Rightarrow> 'w ofs \<Rightarrow> 'w ofs \<times> (int + nat)" where
  "file_open_root env root filename flags mode s =
     (case build_open_flags (build_open_how flags mode) of
        Inl err \<Rightarrow> (s, Inl err)
      | Inr op \<Rightarrow> (let (w, f) = do_file_open_root env root filename op (ow s) in (s\<lparr>ow := w\<rparr>, f)))"

definition do_sys_openat2 :: "'w oc_env \<Rightarrow> int \<Rightarrow> addr \<Rightarrow> open_how \<Rightarrow> 'w ofs \<Rightarrow> 'w ofs \<times> int" where
  "do_sys_openat2 env dfd filename how s =
     (case build_open_flags how of
        Inl err \<Rightarrow> (s, err)
      | Inr op \<Rightarrow>
          (let (w, tmp) = getname env filename (ow s); s = s\<lparr>ow := w\<rparr>
           in case tmp of
                Inl err \<Rightarrow> (s, err)
              | Inr tmp \<Rightarrow>
                  (let s = s\<lparr>onames := add_mset tmp (onames s)\<rparr>;
                       fd = get_unused_fd_flags env (ucast (how_flags how)) (fdt s);
                       (s, fd) = (if fd \<ge> 0 then
                           (let s = s\<lparr>fdt := (fdt s)(nat fd := FdReserved)\<rparr>;
                                (w, f) = do_filp_open env dfd tmp op (ow s);
                                s = s\<lparr>ow := w\<rparr>
                            in case f of
                                 Inl err \<Rightarrow> (s\<lparr>fdt := (fdt s)(nat fd := FdFree)\<rparr>, err)
                               | Inr f \<Rightarrow> (s\<lparr>fdt := (fdt s)(nat fd := FdFile f)\<rparr>, fd))
                         else (s, fd))
                   in (s\<lparr>onames := onames s - {#tmp#}\<rparr>, fd))))"

definition do_sys_open :: "'w oc_env \<Rightarrow> int \<Rightarrow> addr \<Rightarrow> u32 \<Rightarrow> u16 \<Rightarrow> 'w ofs \<Rightarrow> 'w ofs \<times> int" where
  "do_sys_open env dfd filename flags mode s = do_sys_openat2 env dfd filename (build_open_how flags mode) s"

definition sys_open :: "'w oc_env \<Rightarrow> addr \<Rightarrow> u32 \<Rightarrow> u16 \<Rightarrow> 'w ofs \<Rightarrow> 'w ofs \<times> int" where
  "sys_open env filename flags mode s =
     (let flags = (if force_o_largefile env then flags OR 0x8000 else flags)
      in do_sys_open env AT_FDCWD filename flags mode s)"

definition sys_openat :: "'w oc_env \<Rightarrow> timespec64 \<Rightarrow> int \<Rightarrow> addr \<Rightarrow> u32 \<Rightarrow> u16 \<Rightarrow> usage_state \<times> 'w ofs \<Rightarrow> kfault + (usage_state \<times> 'w ofs) \<times> int" where
  "sys_openat env now dfd filename flags mode = (\<lambda>(u, s).
     case track_syscall now NR_openat u of
       Inl k \<Rightarrow> Inl k
     | Inr u \<Rightarrow>
         (let flags = (if force_o_largefile env then flags OR 0x8000 else flags);
              (s, r) = do_sys_open env dfd filename flags mode s
          in Inr ((u, s), r)))"

abbreviation (input) OPEN_HOW_SIZE_VER0 :: u64 where "OPEN_HOW_SIZE_VER0 \<equiv> 24"

definition read_open_how :: "u8 list \<Rightarrow> open_how" where
  "read_open_how bs = \<lparr>how_flags = le_word (field 0 8 bs), how_mode = le_word (field 8 8 bs), how_resolve = le_word (field 16 8 bs)\<rparr>"

definition sys_openat2 :: "'w oc_env \<Rightarrow> int \<Rightarrow> addr \<Rightarrow> addr \<Rightarrow> u64 \<Rightarrow> 'w ofs \<Rightarrow> 'w ofs \<times> int" where
  "sys_openat2 env dfd filename how usize s =
     (if usize < OPEN_HOW_SIZE_VER0 then (s, - EINVAL)
      else
        (let (bs, err) = copy_struct_from_user env 24 how usize (ow s)
         in if err \<noteq> 0 then (s, err)
            else
              (let tmp = read_open_how bs;
                   s = s\<lparr>ow := audit_openat2_how env tmp (ow s)\<rparr>;
                   tmp = (if \<not> has (how_flags tmp) O_PATH \<and> force_o_largefile env
                          then tmp\<lparr>how_flags := how_flags tmp OR O_LARGEFILE\<rparr> else tmp)
               in do_sys_openat2 env dfd filename tmp s)))"

definition compat_sys_open :: "'w oc_env \<Rightarrow> addr \<Rightarrow> u32 \<Rightarrow> u16 \<Rightarrow> 'w ofs \<Rightarrow> 'w ofs \<times> int" where
  "compat_sys_open env filename flags mode s = do_sys_open env AT_FDCWD filename flags mode s"

definition compat_sys_openat :: "'w oc_env \<Rightarrow> int \<Rightarrow> addr \<Rightarrow> u32 \<Rightarrow> u16 \<Rightarrow> 'w ofs \<Rightarrow> 'w ofs \<times> int" where
  "compat_sys_openat env dfd filename flags mode s = do_sys_open env dfd filename flags mode s"

definition sys_creat :: "'w oc_env \<Rightarrow> addr \<Rightarrow> u16 \<Rightarrow> 'w ofs \<Rightarrow> 'w ofs \<times> int" where
  "sys_creat env pathname mode s =
     (let flags = 0x241;
          flags = (if force_o_largefile env then flags OR 0x8000 else flags)
      in do_sys_open env AT_FDCWD pathname flags mode s)"

section \<open>Closing\<close>

abbreviation (input) FMODE_PATH :: u32 where "FMODE_PATH \<equiv> 0x4000"
abbreviation (input) ERESTARTSYS :: int where "ERESTARTSYS \<equiv> 512"
abbreviation (input) ERESTARTNOINTR :: int where "ERESTARTNOINTR \<equiv> 513"
abbreviation (input) ERESTARTNOHAND :: int where "ERESTARTNOHAND \<equiv> 514"
abbreviation (input) ERESTART_RESTARTBLOCK :: int where "ERESTART_RESTARTBLOCK \<equiv> 516"

definition filp_flush :: "'w oc_env \<Rightarrow> nat \<Rightarrow> 'w ofs \<Rightarrow> 'w ofs \<times> int" where
  "filp_flush env f s =
     (if file_count env (ow s) f = 0 then (s, 0)
      else
        (let (s, retval) = (case op_flush env f of
                None \<Rightarrow> (s, 0)
              | Some flush \<Rightarrow> (let (w, r) = flush (ow s) in (s\<lparr>ow := w\<rparr>, r)))
         in if \<not> has (open_fmode env (ow s) f) FMODE_PATH
            then (s\<lparr>ow := locks_remove_posix env f (dnotify_flush env f (ow s))\<rparr>, retval)
            else (s, retval)))"

definition filp_close :: "'w oc_env \<Rightarrow> nat \<Rightarrow> 'w ofs \<Rightarrow> 'w ofs \<times> int" where
  "filp_close env f s =
     (let (s, retval) = filp_flush env f s
      in (s\<lparr>ow := fput env f (ow s)\<rparr>, retval))"

definition sys_close :: "'w oc_env \<Rightarrow> u32 \<Rightarrow> 'w ofs \<Rightarrow> 'w ofs \<times> int" where
  "sys_close env fd s =
     (case fdt s (unat fd) of
        FdFile f \<Rightarrow>
          (let s = s\<lparr>fdt := (fdt s)(unat fd := FdFree)\<rparr>;
               (s, retval) = filp_flush env f s;
               s = s\<lparr>ow := fput_sync env f (ow s)\<rparr>
           in (s, if retval = - ERESTARTSYS \<or> retval = - ERESTARTNOINTR \<or> retval = - ERESTARTNOHAND
                     \<or> retval = - ERESTART_RESTARTBLOCK then - EINTR else retval))
      | _ \<Rightarrow> (s, - EBADF))"

definition sys_close_range :: "'w oc_env \<Rightarrow> u32 \<Rightarrow> u32 \<Rightarrow> u32 \<Rightarrow> 'w ofs \<Rightarrow> 'w ofs \<times> int" where
  "sys_close_range env fd max_fd flags s = do_close_range env fd max_fd flags s"

definition sys_vhangup :: "'w oc_env \<Rightarrow> 'w ofs \<Rightarrow> 'w ofs \<times> int" where
  "sys_vhangup env s =
     (if capable_tty_config env then (s\<lparr>ow := tty_vhangup_self env (ow s)\<rparr>, 0) else (s, - EPERM))"

section \<open>The flags that reach the file system\<close>

lemma has_ucast: "has (ucast (x :: u64) :: u32) m \<longleftrightarrow> has x (ucast m)"
proof -
  have "(ucast x AND m = 0) = (x AND ucast m = 0)"
  proof -
    have "bit m n \<Longrightarrow> n < 32 \<and> n < 64" for n using bit_imp_le_length[of m n] by simp
    then show ?thesis by (auto simp: bit_eq_iff bit_and_iff bit_ucast_iff possible_bit_def)
  qed
  then show ?thesis by (simp add: has_def)
qed

lemma has_or: "has (x OR y) m \<longleftrightarrow> has x m \<or> has (y :: 'a::len word) m"
  by (auto simp: has_def bit.conj_disj_distrib2 or_eq_0_iff)

lemma has_and: "has (x AND y) m \<longleftrightarrow> has x ((y :: 'a::len word) AND m)"
  by (simp add: has_def and.assoc)

lemma has_subset: "\<not> has x n \<Longrightarrow> (m :: 'a::len word) AND n = m \<Longrightarrow> \<not> has x m"
  by (metis and.assoc and.commute and_zero_eq has_def)

lemma has_exp: "has x (2 ^ n :: 'a::len word) \<longleftrightarrow> bit x n"
  by (simp add: has_def and_exp_eq_0_iff_not_bit)

lemma and_two_exps:
  assumes "i < LENGTH('a)" and "j < LENGTH('a)"
  shows "x AND (2 ^ i OR 2 ^ j) = (2 ^ i OR 2 ^ j :: 'a::len word) \<longleftrightarrow> bit x i \<and> bit x j"
  using assms by (auto simp: bit_eq_iff[where 'a = "'a word"] bit_and_iff bit_or_iff bit_exp_iff)

lemma has_both: "x AND 0x10040 = (0x10040 :: u64) \<longleftrightarrow> has x O_DIRECTORY \<and> has x O_CREAT"
  using and_two_exps[of 16 6 x] has_exp[of x 16] has_exp[of x 6] by simp

lemma has_acc:
  "has (ACC_MODE x) MAY_WRITE \<longleftrightarrow> x AND 3 \<noteq> 0" "has (ACC_MODE x) MAY_READ \<longleftrightarrow> x AND 3 \<noteq> 1"
  by (auto simp: ACC_MODE_def has_def)

lemma flags_check_ok:
  assumes "open_flags_check how flags acc = 0"
  shows "\<not> has flags (NOT VALID_OPEN_FLAGS)" "\<not> (has (how_resolve how) RESOLVE_BENEATH \<and> has (how_resolve how) RESOLVE_IN_ROOT)"
    "WILL_CREATE flags \<longrightarrow> \<not> has (how_mode how) (NOT MODE_BITS)" "WILL_CREATE flags \<or> how_mode how = 0"
    "\<not> (has flags O_DIRECTORY \<and> has flags O_CREAT)"
    "has flags TMPFILE_BIT \<longrightarrow> has flags O_DIRECTORY \<and> has acc MAY_WRITE"
    "has flags O_PATH \<longrightarrow> \<not> has flags (NOT O_PATH_FLAGS)"
  using assms by (simp_all add: open_flags_check_def has_both split: if_splits)

lemma path_flags:
  assumes "\<not> has flags (NOT O_PATH_FLAGS)"
  shows "\<not> has flags O_TRUNC" "\<not> has flags O_APPEND" "\<not> has flags O_CREAT" "\<not> has flags TMPFILE_BIT" "\<not> has flags SYNC_BIT"
  by (rule has_subset[OF assms], simp)+

lemma lookup_bits:
  "has (open_lookup_flags flags r) LOOKUP_FOLLOW \<longleftrightarrow> \<not> has flags O_NOFOLLOW"
  "has (open_lookup_flags flags r) LOOKUP_BENEATH \<longleftrightarrow> has r RESOLVE_BENEATH"
  "has (open_lookup_flags flags r) LOOKUP_IN_ROOT \<longleftrightarrow> has r RESOLVE_IN_ROOT"
  "has (open_lookup_flags flags r) LOOKUP_CACHED \<longleftrightarrow> has r RESOLVE_CACHED"
  "has (open_lookup_flags flags r) LOOKUP_NO_SYMLINKS \<longleftrightarrow> has r RESOLVE_NO_SYMLINKS"
  "has (open_lookup_flags flags r) LOOKUP_DIRECTORY \<longleftrightarrow> has flags O_DIRECTORY"
proof -
  have if_has: "has (if b then x OR y else x) m \<longleftrightarrow> has x m \<or> (b \<and> has y m)" for b and x y m :: u32
    by (simp add: has_or)
  have z: "\<not> has (0 :: u32) m" for m by (simp add: has_def)
  show "has (open_lookup_flags flags r) LOOKUP_FOLLOW \<longleftrightarrow> \<not> has flags O_NOFOLLOW"
    "has (open_lookup_flags flags r) LOOKUP_BENEATH \<longleftrightarrow> has r RESOLVE_BENEATH"
    "has (open_lookup_flags flags r) LOOKUP_IN_ROOT \<longleftrightarrow> has r RESOLVE_IN_ROOT"
    "has (open_lookup_flags flags r) LOOKUP_CACHED \<longleftrightarrow> has r RESOLVE_CACHED"
    "has (open_lookup_flags flags r) LOOKUP_NO_SYMLINKS \<longleftrightarrow> has r RESOLVE_NO_SYMLINKS"
    "has (open_lookup_flags flags r) LOOKUP_DIRECTORY \<longleftrightarrow> has flags O_DIRECTORY"
    unfolding open_lookup_flags_def Let_def if_has z by (simp_all add: has_def[of "numeral _"] has_def[of 1] has_def[of 0])
qed

text \<open>The flags of the request, as \<open>do_filp_open\<close> gets them.\<close>

definition flagged :: "open_flags \<Rightarrow> u64 \<Rightarrow> bool" where
  "flagged op F \<longleftrightarrow> has (ucast (open_flag op)) F"

lemma has_ucast_up: "has (ucast (y :: u32) :: u64) m \<longleftrightarrow> has y (ucast m)"
proof -
  have "bit y n \<Longrightarrow> n < 32 \<and> n < 64" for n using bit_imp_le_length[of y n] by simp
  then have "(ucast y AND m = 0) = (y AND ucast m = 0)"
    by (auto simp: bit_eq_iff bit_and_iff bit_ucast_iff possible_bit_def)
  then show ?thesis by (simp add: has_def)
qed

lemma flagged_ucast: "open_flag op = ucast (flags :: u64) \<Longrightarrow> flagged op F \<longleftrightarrow> has flags (ucast (ucast F :: u32))"
  by (simp only: flagged_def has_ucast_up has_ucast)

definition request_sound :: "open_flags \<Rightarrow> bool" where
  "request_sound op \<longleftrightarrow>
     \<not> flagged op (NOT VALID_OPEN_FLAGS) \<and> \<not> flagged op O_CLOEXEC \<and>
     (flagged op O_PATH \<longrightarrow> acc_mode op = 0 \<and> intent op = 0) \<and>
     (\<not> flagged op O_PATH \<longrightarrow> has (intent op) LOOKUP_OPEN \<and>
        (open_flag op AND 3 \<noteq> 0 \<longrightarrow> has (acc_mode op) MAY_WRITE) \<and> (open_flag op AND 3 \<noteq> 1 \<longrightarrow> has (acc_mode op) MAY_READ)) \<and>
     (flagged op O_TRUNC \<longrightarrow> has (acc_mode op) MAY_WRITE) \<and>
     (flagged op TMPFILE_BIT \<longrightarrow> flagged op O_DIRECTORY \<and> has (acc_mode op) MAY_WRITE) \<and>
     \<not> (flagged op O_DIRECTORY \<and> flagged op O_CREAT) \<and>
     of_mode op AND NOT S_IALLUGO = (if flagged op O_CREAT \<or> flagged op TMPFILE_BIT then S_IFREG else 0) \<and>
     (\<not> flagged op O_CREAT \<longrightarrow> \<not> flagged op TMPFILE_BIT \<longrightarrow> of_mode op = 0) \<and>
     (flagged op SYNC_BIT \<longrightarrow> flagged op O_DSYNC) \<and>
     (flagged op O_CREAT \<and> flagged op O_EXCL \<longrightarrow> has (intent op) LOOKUP_EXCL \<and> \<not> has (lookup_flags op) LOOKUP_FOLLOW) \<and>
     \<not> (has (lookup_flags op) LOOKUP_BENEATH \<and> has (lookup_flags op) LOOKUP_IN_ROOT) \<and>
     (has (lookup_flags op) LOOKUP_CACHED \<longrightarrow> \<not> flagged op O_TRUNC \<and> \<not> flagged op O_CREAT \<and> \<not> flagged op TMPFILE_BIT)"

text \<open>The flags after \<open>O_DSYNC\<close> was added, with \<open>F\<close> any flag but that one.\<close>

lemma has_sync: "0x1000 AND F = 0 \<Longrightarrow> has (if b then flags OR O_DSYNC else flags) F = has (flags :: u64) F"
  by (simp add: has_or) (simp add: has_def)

lemma and3_bits:
  assumes "1 < LENGTH('a)"
  shows "x AND mask 2 = (0 :: 'a::len word) \<longleftrightarrow> \<not> bit x 0 \<and> \<not> bit x 1"
    "x AND mask 2 = (1 :: 'a::len word) \<longleftrightarrow> bit x 0 \<and> \<not> bit x 1"
proof -
  have two: "n < 2 \<longleftrightarrow> n = 0 \<or> n = 1" for n :: nat by auto
  show "x AND mask 2 = (0 :: 'a::len word) \<longleftrightarrow> \<not> bit x 0 \<and> \<not> bit x 1"
    "x AND mask 2 = (1 :: 'a::len word) \<longleftrightarrow> bit x 0 \<and> \<not> bit x 1"
    using assms by (auto simp: bit_eq_iff[where 'a = "'a word"] bit_and_iff bit_mask_iff bit_1_iff two)
      (metis gr0I)
qed

lemma and3_ucast:
  "(ucast (x :: u64) :: u32) AND 3 = 0 \<longleftrightarrow> x AND 3 = 0" "(ucast x :: u32) AND 3 = 1 \<longleftrightarrow> x AND 3 = 1"
proof -
  have m: "(3 :: u32) = mask 2" "(3 :: u64) = mask 2" by (simp_all add: mask_eq_exp_minus_1)
  show "(ucast x :: u32) AND 3 = 0 \<longleftrightarrow> x AND 3 = 0" "(ucast x :: u32) AND 3 = 1 \<longleftrightarrow> x AND 3 = 1"
    unfolding m by (simp_all add: and3_bits bit_ucast_iff)
qed

lemma build_open_flags_cases:
  assumes "build_open_flags how = Inr op"
  obtains flags flags1 lflags acc where "acc = ACC_MODE (how_flags how)" "flags = how_flags how AND NOT (NONOTIFY_BIT OR O_CLOEXEC)"
    "open_flags_check how flags acc = 0" "flags1 = (if has flags SYNC_BIT then flags OR O_DSYNC else flags)"
    "lflags = (if has flags1 O_CREAT \<and> has flags1 O_EXCL then flags1 OR O_NOFOLLOW else flags1)"
    "\<not> (has (how_resolve how) RESOLVE_CACHED \<and> has lflags (O_TRUNC OR O_CREAT OR TMPFILE_BIT))"
    "open_flag op = ucast flags1" "of_mode op = (if WILL_CREATE flags then ucast (how_mode how) OR S_IFREG else 0)"
    "acc_mode op = open_acc_mode flags1 acc" "intent op = open_intent flags1" "lookup_flags op = open_lookup_flags lflags (how_resolve how)"
  using assms by (auto simp: build_open_flags_def Let_def split: if_splits)

lemma has_WILL_CREATE: "WILL_CREATE flags \<longleftrightarrow> has flags O_CREAT \<or> has flags TMPFILE_BIT"
proof -
  have "has flags (a OR b) \<longleftrightarrow> has flags a \<or> has flags b" for a b
    by (auto simp: has_def bit.conj_disj_distrib or_eq_0_iff)
  from this[of O_CREAT TMPFILE_BIT] show ?thesis by (simp add: WILL_CREATE_def)
qed

lemma mode_type:
  "\<not> has (m :: u64) (NOT MODE_BITS) \<Longrightarrow> ((ucast m :: u16) OR S_IFREG) AND NOT S_IALLUGO = S_IFREG"
proof -
  assume "\<not> has m (NOT MODE_BITS)"
  then have z: "m AND NOT MODE_BITS = 0" by (simp only: has_def not_not)
  have "(ucast m :: u16) AND NOT S_IALLUGO = ucast (m AND NOT MODE_BITS)"
    by (rule bit_eqI) (auto simp: bit_and_iff bit_ucast_iff bit_not_iff bit_numeral_iff)
  then have "(ucast m :: u16) AND NOT S_IALLUGO = 0" by (simp only: z) simp
  then show ?thesis by (simp only: bit.conj_disj_distrib2) simp
qed

lemma open_acc_mode_bits:
  assumes "has flags O_PATH \<Longrightarrow> \<not> has flags O_TRUNC \<and> \<not> has flags O_APPEND"
  shows "has (open_acc_mode flags (ACC_MODE h)) MAY_WRITE \<longleftrightarrow> \<not> has flags O_PATH \<and> (h AND 3 \<noteq> 0 \<or> has flags O_TRUNC)"
    "has (open_acc_mode flags (ACC_MODE h)) MAY_READ \<longleftrightarrow> \<not> has flags O_PATH \<and> h AND 3 \<noteq> 1"
    "has flags O_PATH \<Longrightarrow> open_acc_mode flags (ACC_MODE h) = 0"
  using assms has_acc[of h] unfolding open_acc_mode_def
  by (auto simp: has_or Let_def) (simp_all add: has_def)

lemma open_intent_bits:
  "has flags O_PATH \<Longrightarrow> \<not> has flags O_CREAT \<Longrightarrow> open_intent flags = 0"
  "\<not> has flags O_PATH \<Longrightarrow> has (open_intent flags) LOOKUP_OPEN"
  "has flags O_CREAT \<Longrightarrow> has flags O_EXCL \<Longrightarrow> has (open_intent flags) LOOKUP_EXCL"
  by (auto simp: open_intent_def has_or Let_def) (simp_all add: has_def)

text \<open>
  C18. The request that reaches the file system is sound. Whenever \<open>build_open_flags\<close> accepts
  what the caller asked for, the flags are known ones; opening by path asks for no access;
  otherwise every kind of access that the flags imply (reading, writing, truncation,
  temporary files) is among the permissions to be checked; directories are not created as
  regular files; a mode is passed exactly for creation and makes a regular file; exclusive
  creation does not follow a symbolic link; the two scopes of resolution are not mixed, and
  a cached lookup neither creates nor truncates.
\<close>

theorem open_request_sound:
  assumes "build_open_flags how = Inr op"
  shows "request_sound op"
proof (rule build_open_flags_cases[OF assms])
  fix flags flags1 lflags acc
  assume d: "acc = ACC_MODE (how_flags how)" "flags = how_flags how AND NOT (NONOTIFY_BIT OR O_CLOEXEC)"
    "flags1 = (if has flags SYNC_BIT then flags OR O_DSYNC else flags)"
    "lflags = (if has flags1 O_CREAT \<and> has flags1 O_EXCL then flags1 OR O_NOFOLLOW else flags1)"
    and chk: "open_flags_check how flags acc = 0"
    and cached: "\<not> (has (how_resolve how) RESOLVE_CACHED \<and> has lflags (O_TRUNC OR O_CREAT OR TMPFILE_BIT))"
    and op: "open_flag op = ucast flags1" "of_mode op = (if WILL_CREATE flags then ucast (how_mode how) OR S_IFREG else 0)"
    "acc_mode op = open_acc_mode flags1 acc" "intent op = open_intent flags1" "lookup_flags op = open_lookup_flags lflags (how_resolve how)"
  note ok = flags_check_ok[OF chk]
  note fl = flagged_ucast[OF op(1)]
  have f1: "has flags1 F = has flags F" if "0x1000 AND F = 0" for F
    unfolding d(3) by (rule has_sync[OF that])
  have lf: "has lflags F = has flags1 F" if "0x20000 AND F = 0" for F
    unfolding d(4) by (simp add: has_or) (simp add: has_def that)
  have acc3: "flags1 AND 3 = how_flags how AND 3"
    by (simp add: d(2,3) bit.conj_disj_distrib2 and.assoc)
  have cloexec: "\<not> has flags O_CLOEXEC" by (simp add: d(2) has_and) (simp add: has_def)
  have path: "\<not> has flags O_TRUNC" "\<not> has flags O_APPEND" "\<not> has flags O_CREAT" "\<not> has flags TMPFILE_BIT" if "has flags O_PATH"
    using path_flags ok(7) that by blast+
  have acc: "has (acc_mode op) MAY_WRITE \<longleftrightarrow> \<not> has flags O_PATH \<and> (flags1 AND 3 \<noteq> 0 \<or> has flags O_TRUNC)"
    "has (acc_mode op) MAY_READ \<longleftrightarrow> \<not> has flags O_PATH \<and> flags1 AND 3 \<noteq> 1" "has flags O_PATH \<Longrightarrow> acc_mode op = 0"
    using open_acc_mode_bits[of flags1 "how_flags how"] path by (simp_all add: acc3 op(3) d(1) f1)
  have int: "has flags O_PATH \<Longrightarrow> intent op = 0" "\<not> has flags O_PATH \<Longrightarrow> has (intent op) LOOKUP_OPEN"
    "has flags O_CREAT \<Longrightarrow> has flags O_EXCL \<Longrightarrow> has (intent op) LOOKUP_EXCL"
    using open_intent_bits[of flags1] path by (simp_all add: op(4) f1)
  have tmp: "has flags TMPFILE_BIT \<Longrightarrow> how_flags how AND 3 \<noteq> 0" using ok(6) has_acc(1) by (simp add: d(1))
  have valid: "\<not> has flags 0xFF80003C" by (rule has_subset[OF ok(1)]) simp
  have create: "flagged op O_CREAT \<or> flagged op TMPFILE_BIT \<longleftrightarrow> WILL_CREATE flags"
    by (simp add: fl f1 has_WILL_CREATE)
  have mode: "of_mode op AND NOT S_IALLUGO = (if WILL_CREATE flags then S_IFREG else 0)"
    "\<not> WILL_CREATE flags \<longrightarrow> of_mode op = 0"
    using ok(3) mode_type[of "how_mode how"] by (simp_all add: op(2))
  have sync: "has flags SYNC_BIT \<longrightarrow> has flags1 O_DSYNC" by (simp add: d(3) has_or) (simp add: has_def)
  have excl: "has flags O_CREAT \<and> has flags O_EXCL \<longrightarrow> \<not> has (lookup_flags op) LOOKUP_FOLLOW"
    by (simp add: op(5) lookup_bits d(4) f1 has_or) (simp add: has_def)
  have cach: "has (lookup_flags op) LOOKUP_CACHED \<longrightarrow> \<not> has flags O_TRUNC \<and> \<not> has flags O_CREAT \<and> \<not> has flags TMPFILE_BIT"
  proof
    assume "has (lookup_flags op) LOOKUP_CACHED"
    then have "\<not> has flags (O_TRUNC OR O_CREAT OR TMPFILE_BIT)" using cached by (simp add: op(5) lookup_bits lf f1)
    then show "\<not> has flags O_TRUNC \<and> \<not> has flags O_CREAT \<and> \<not> has flags TMPFILE_BIT"
      by (intro conjI; elim has_subset) simp_all
  qed
  show "request_sound op"
    unfolding request_sound_def
    using valid cloexec acc int ok(2,5,6) create mode sync excl cach path tmp
    by (simp add: fl f1 op(1,5) lookup_bits and3_ucast acc3) blast
qed

theorem open_request_sound_witness:
  "\<exists>op. build_open_flags \<lparr>how_flags = 0x241, how_mode = 0x1A4, how_resolve = 0\<rparr> = Inr op \<and> request_sound op"
proof -
  have "\<exists>op. build_open_flags \<lparr>how_flags = 0x241, how_mode = 0x1A4, how_resolve = 0\<rparr> = Inr op"
    by (simp add: build_open_flags_def Let_def open_flags_check_def WILL_CREATE_def has_def)
  then show ?thesis using open_request_sound by blast
qed

lemma build_open_flags_error:
  "how_resolve how = 0 \<Longrightarrow> build_open_flags how = Inl err \<longleftrightarrow>
     err \<noteq> 0 \<and> err = open_flags_check how (how_flags how AND NOT (NONOTIFY_BIT OR O_CLOEXEC)) (ACC_MODE (how_flags how))"
  by (auto simp: build_open_flags_def Let_def has_def)

lemma has_zero: "\<not> has (0 :: 'a::len word) m" "\<not> has m (0 :: 'a::len word)"
  by (simp_all add: has_def)

lemma legacy_check_path:
  assumes "has flags 0x200000"
  shows "build_open_flags (build_open_how flags mode) \<noteq> Inl err"
proof -
  let ?how = "\<lparr>how_flags = ucast flags AND 0x2B0000, how_mode = 0, how_resolve = 0\<rparr> :: open_how"
  have "build_open_how flags mode = ?how"
    using assms by (simp add: build_open_how_def Let_def has_and has_ucast_up WILL_CREATE_def has_zero and.assoc)
  moreover have "open_flags_check ?how (how_flags ?how AND NOT (NONOTIFY_BIT OR O_CLOEXEC)) (ACC_MODE (how_flags ?how)) = 0"
    unfolding open_flags_check_def by (simp add: has_and has_both[simplified] WILL_CREATE_def has_zero)
  ultimately show ?thesis using build_open_flags_error[of ?how err] by simp
qed

lemma legacy_check_other:
  assumes "\<not> has flags 0x200000"
  shows "open_flags_check (build_open_how flags mode) (how_flags (build_open_how flags mode) AND NOT (NONOTIFY_BIT OR O_CLOEXEC))
      (ACC_MODE (how_flags (build_open_how flags mode))) =
    (if has flags 0x10000 \<and> has flags 0x40 \<or> has flags 0x400000 \<and> (\<not> has flags 0x10000 \<or> flags AND 3 = 0) then - EINVAL else 0)"
proof -
  let ?f = "ucast flags AND VALID_OPEN_FLAGS :: u64"
  have h: "how_flags (build_open_how flags mode) = ?f" "how_resolve (build_open_how flags mode) = 0"
    "how_mode (build_open_how flags mode) = (if WILL_CREATE ?f then ucast mode AND MODE_BITS else 0)"
    using assms by (simp_all add: build_open_how_def Let_def has_and has_ucast_up)
  have three: "?f AND 3 = 0 \<longleftrightarrow> flags AND 3 = 0"
  proof -
    have "has ?f 3 = has flags 3" by (simp add: has_and has_ucast_up)
    then show ?thesis by (simp add: has_def)
  qed
  have wc: "WILL_CREATE (?f AND NOT (NONOTIFY_BIT OR O_CLOEXEC)) = WILL_CREATE ?f"
    by (simp add: WILL_CREATE_def has_and)
  have chk: "has (ACC_MODE ?f) MAY_WRITE \<longleftrightarrow> flags AND 3 \<noteq> 0" using has_acc(1)[of ?f] three by simp
  show ?thesis
    unfolding open_flags_check_def h wc chk
    using assms by (simp add: has_and has_both has_ucast_up has_zero)
qed

text \<open>
  C39. The older calls clean their arguments up instead of refusing them: with the flags and
  the mode that \<open>open\<close>, \<open>openat\<close> and \<open>creat\<close> build, whatever bits the program passes, the only
  refusals are the creation of a directory and a temporary file without a directory or
  without write access.
\<close>

theorem legacy_open_refuses_iff:
  "build_open_flags (build_open_how flags mode) = Inl err \<longleftrightarrow>
     err = - EINVAL \<and> \<not> has flags 0x200000 \<and>
     (has flags 0x10000 \<and> has flags 0x40 \<or> has flags 0x400000 \<and> (\<not> has flags 0x10000 \<or> flags AND 3 = 0))"
proof (cases "has flags 0x200000")
  case True
  then show ?thesis using legacy_check_path[OF True, of mode err] by simp
next
  case False
  have "how_resolve (build_open_how flags mode) = 0" by (simp add: build_open_how_def Let_def)
  from build_open_flags_error[OF this, of err] legacy_check_other[OF False, of mode] False
  show ?thesis by auto
qed

theorem legacy_open_refuses_iff_witness:
  "build_open_flags (build_open_how 0x10040 0x1A4) = Inl (- EINVAL) \<and> build_open_flags (build_open_how 0xFF000241 0x1A4) \<noteq> Inl (- EINVAL)"
  using legacy_open_refuses_iff[of "0x10040" "0x1A4"] legacy_open_refuses_iff[of "0xFF000241" "0x1A4"] by (simp add: has_def)

section \<open>The life of a descriptor\<close>

text \<open>
  What the outside functions promise: errors are negative, and \<open>get_unused_fd_flags\<close> chooses a
  free slot.
\<close>

definition oc_env_ok :: "'w oc_env \<Rightarrow> bool" where
  "oc_env_ok env \<longleftrightarrow>
     (\<forall>a w. case snd (getname env a w) of Inl e \<Rightarrow> e < 0 | Inr n \<Rightarrow> True) \<and>
     (\<forall>fl t. 0 \<le> get_unused_fd_flags env fl t \<longrightarrow> t (nat (get_unused_fd_flags env fl t)) = FdFree) \<and>
     (\<forall>dfd n op w. case snd (do_filp_open env dfd n op w) of Inl e \<Rightarrow> e < 0 | Inr f \<Rightarrow> True) \<and>
     (\<forall>k a n w. snd (copy_struct_from_user env k a n w) \<le> 0)"

datatype open_call =
    O_open addr u32 u16
  | O_openat int addr u32 u16
  | O_openat2 int addr addr u64
  | O_creat addr u16
  | O_compat_open addr u32 u16
  | O_compat_openat int addr u32 u16
  | O_close u32
  | O_vhangup

fun do_open_call :: "'w oc_env \<Rightarrow> timespec64 \<Rightarrow> open_call \<Rightarrow> usage_state \<times> 'w ofs \<Rightarrow> kfault + (usage_state \<times> 'w ofs) \<times> int" where
  "do_open_call env now (O_open fn fl m) (u, s) = (let (s, r) = sys_open env fn fl m s in Inr ((u, s), r))"
| "do_open_call env now (O_openat dfd fn fl m) (u, s) = sys_openat env now dfd fn fl m (u, s)"
| "do_open_call env now (O_openat2 dfd fn how n) (u, s) = (let (s, r) = sys_openat2 env dfd fn how n s in Inr ((u, s), r))"
| "do_open_call env now (O_creat fn m) (u, s) = (let (s, r) = sys_creat env fn m s in Inr ((u, s), r))"
| "do_open_call env now (O_compat_open fn fl m) (u, s) = (let (s, r) = compat_sys_open env fn fl m s in Inr ((u, s), r))"
| "do_open_call env now (O_compat_openat dfd fn fl m) (u, s) = (let (s, r) = compat_sys_openat env dfd fn fl m s in Inr ((u, s), r))"
| "do_open_call env now (O_close fd) (u, s) = (let (s, r) = sys_close env fd s in Inr ((u, s), r))"
| "do_open_call env now O_vhangup (u, s) = (let (s, r) = sys_vhangup env s in Inr ((u, s), r))"

definition restart_codes :: "int set" where
  "restart_codes = {- ERESTARTSYS, - ERESTARTNOINTR, - ERESTARTNOHAND, - ERESTART_RESTARTBLOCK}"

text \<open>What a call does to the descriptors and to the names.\<close>

definition opens :: "'w ofs \<Rightarrow> 'w ofs \<Rightarrow> int \<Rightarrow> bool" where
  "opens s s' r \<longleftrightarrow> onames s' = onames s \<and>
     (r < 0 \<and> fdt s' = fdt s \<or> 0 \<le> r \<and> fdt s (nat r) = FdFree \<and> (\<exists>f. fdt s' = (fdt s)(nat r := FdFile f)))"

definition closes :: "u32 \<Rightarrow> 'w ofs \<Rightarrow> 'w ofs \<Rightarrow> int \<Rightarrow> bool" where
  "closes fd s s' r \<longleftrightarrow> onames s' = onames s \<and> r \<notin> restart_codes \<and>
     ((\<exists>f. fdt s (unat fd) = FdFile f) \<and> fdt s' = (fdt s)(unat fd := FdFree) \<or>
      (\<nexists>f. fdt s (unat fd) = FdFile f) \<and> s' = s \<and> r = - EBADF)"

definition open_call_effect :: "open_call \<Rightarrow> 'w ofs \<Rightarrow> 'w ofs \<Rightarrow> int \<Rightarrow> bool" where
  "open_call_effect c s s' r = (case c of
     O_close fd \<Rightarrow> closes fd s s' r
   | O_vhangup \<Rightarrow> fdt s' = fdt s \<and> onames s' = onames s
   | _ \<Rightarrow> opens s s' r)"

lemma check_negative: "open_flags_check how fl acc \<le> 0"
  by (simp add: open_flags_check_def)

lemma build_error_negative: "build_open_flags how = Inl err \<Longrightarrow> err < 0"
  using check_negative[of how "how_flags how AND NOT (NONOTIFY_BIT OR O_CLOEXEC)" "ACC_MODE (how_flags how)"]
  by (auto simp: build_open_flags_def Let_def split: if_splits)

lemma openat2_opens:
  assumes "oc_env_ok env"
  shows "case do_sys_openat2 env dfd fn how s of (s', r) \<Rightarrow> opens s s' r"
proof (cases "build_open_flags how")
  case (Inl err)
  then show ?thesis using build_error_negative by (simp add: do_sys_openat2_def opens_def)
next
  case (Inr op)
  obtain w tmp where g: "getname env fn (ow s) = (w, tmp)" by (rule prod.exhaust)
  let ?fd = "get_unused_fd_flags env (ucast (how_flags how)) (fdt s)"
  show ?thesis
  proof (cases tmp)
    case (Inl e)
    have "case snd (getname env fn (ow s)) of Inl e \<Rightarrow> e < 0 | Inr n \<Rightarrow> True" using assms by (simp add: oc_env_ok_def)
    then show ?thesis using Inl Inr g by (simp add: do_sys_openat2_def opens_def)
  next
    case (Inr n)
    obtain w2 f where f: "do_filp_open env dfd n op w = (w2, f)" by (rule prod.exhaust)
    have "case snd (do_filp_open env dfd n op w) of Inl e \<Rightarrow> e < 0 | Inr f \<Rightarrow> True"
      "0 \<le> ?fd \<longrightarrow> fdt s (nat ?fd) = FdFree"
      using assms by (simp_all add: oc_env_ok_def)
    then show ?thesis
      using Inr \<open>build_open_flags how = Inr op\<close> g f
      by (cases f; cases "0 \<le> ?fd") (auto simp: do_sys_openat2_def opens_def Let_def fun_upd_idem)
  qed
qed

lemma sys_close_closes: "case sys_close env fd s of (s', r) \<Rightarrow> closes fd s s' r"
proof (cases "fdt s (unat fd)")
  case (FdFile f)
  obtain s1 r where r: "filp_flush env f (s\<lparr>fdt := (fdt s)(unat fd := FdFree)\<rparr>) = (s1, r)" by (rule prod.exhaust)
  have "fdt s1 = (fdt s)(unat fd := FdFree) \<and> onames s1 = onames s"
    using r by (auto simp: filp_flush_def Let_def split: if_splits option.splits prod.splits)
  then show ?thesis
    by (simp add: sys_close_def FdFile r closes_def restart_codes_def)
qed (simp_all add: sys_close_def closes_def restart_codes_def)

lemma open_call_effect_ok:
  assumes "oc_env_ok env"
  shows "\<exists>u' s' r. do_open_call env now c (u, s) = Inr ((u', s'), r) \<and> open_call_effect c s s' r"
proof -
  have o: "opens s (fst (do_sys_openat2 env dfd fn how s)) (snd (do_sys_openat2 env dfd fn how s))" for dfd fn how s
    using openat2_opens[OF assms, where dfd = dfd and fn = fn and how = how and s = s] by (simp add: split_beta)
  have e: "opens (s\<lparr>ow := w\<rparr>) s' r = opens s s' r" for s s' :: "'a ofs" and w r by (simp add: opens_def)
  show ?thesis
  proof (cases c)
    case (O_openat dfd fn fl m)
    obtain u' where "track_syscall now NR_openat u = Inr u'" using track_syscall_total[of NR_openat now u] by auto
    then show ?thesis
      using o[of s dfd fn] by (simp add: O_openat sys_openat_def do_sys_open_def open_call_effect_def split_beta Let_def)
  next
    case (O_openat2 dfd fn how n)
    have "snd (copy_struct_from_user env 24 how n (ow s)) \<le> 0" using assms by (simp add: oc_env_ok_def)
    moreover have "opens s (fst (do_sys_openat2 env dfd fn h (s\<lparr>ow := w\<rparr>))) (snd (do_sys_openat2 env dfd fn h (s\<lparr>ow := w\<rparr>)))" for h w
      using o[of "s\<lparr>ow := w\<rparr>" dfd fn h] unfolding e .
    moreover have "r < 0 \<Longrightarrow> opens s s r" for r by (simp add: opens_def)
    ultimately have "opens s (fst (sys_openat2 env dfd fn how n s)) (snd (sys_openat2 env dfd fn how n s))"
      by (simp add: sys_openat2_def Let_def split_beta)
    then show ?thesis by (simp add: O_openat2 open_call_effect_def split_beta)
  next
    case (O_close fd)
    then show ?thesis
      using sys_close_closes[where env = env and fd = fd and s = s] by (simp add: open_call_effect_def split_beta)
  qed (use o in \<open>simp_all add: sys_open_def compat_sys_open_def compat_sys_openat_def sys_creat_def do_sys_open_def Let_def
      sys_vhangup_def open_call_effect_def split_beta\<close>)
qed

definition open_step :: "('w oc_env \<times> timespec64) \<times> open_call \<Rightarrow> usage_state \<times> 'w ofs \<Rightarrow> usage_state \<times> 'w ofs" where
  "open_step ec us = (case do_open_call (fst (fst ec)) (snd (fst ec)) (snd ec) us of Inl k \<Rightarrow> us | Inr (us', r) \<Rightarrow> us')"

definition fds_settled :: "usage_state \<times> 'w ofs \<Rightarrow> bool" where
  "fds_settled us \<longleftrightarrow> onames (snd us) = {#} \<and> (\<forall>fd. fdt (snd us) fd \<noteq> FdReserved)"

interpretation opencalls: kept_invariant open_step "\<lambda>ec. oc_env_ok (fst (fst ec))" fds_settled
proof unfold_locales
  fix ec :: "('a oc_env \<times> timespec64) \<times> open_call" and us :: "usage_state \<times> 'a ofs"
  assume ok: "oc_env_ok (fst (fst ec))" and inv: "fds_settled us"
  obtain u s where us: "us = (u, s)" by (rule prod.exhaust)
  obtain u' s' r where c: "do_open_call (fst (fst ec)) (snd (fst ec)) (snd ec) (u, s) = Inr ((u', s'), r)"
    and eff: "open_call_effect (snd ec) s s' r"
    using open_call_effect_ok[OF ok] by blast
  have "onames s' = onames s \<and> (\<forall>fd. fdt s' fd = FdReserved \<longrightarrow> fdt s fd = FdReserved)"
    using eff by (auto simp: open_call_effect_def opens_def closes_def split: open_call.splits if_splits)
  then show "fds_settled (open_step ec us)"
    using inv by (auto simp: us open_step_def c fds_settled_def)
qed

text \<open>
  C15. Descriptors are neither leaked nor lost. After any sequence of calls that open and
  close, with any outcome of name copying, lookup, creation and flushing, no slot of the
  table is left reserved and no copied name is left behind; and the next call, whichever it
  is, does not stop the kernel and has exactly its effect: an open that fails leaves the table
  as it was, one that succeeds has filled one slot that was free and returns it, a close
  empties exactly the slot it names, even when flushing fails, and does not ask to be
  restarted.
\<close>

theorem descriptors_exact:
  assumes "list_all (\<lambda>ec. oc_env_ok (fst (fst ec))) ecs" and "oc_env_ok env" and "fds_settled us"
  shows "fds_settled (fold open_step ecs us) \<and>
    (\<exists>u' s' r. do_open_call env now c (fold open_step ecs us) = Inr ((u', s'), r) \<and>
       open_call_effect c (snd (fold open_step ecs us)) s' r)"
proof -
  obtain u s where us: "fold open_step ecs us = (u, s)" by (rule prod.exhaust)
  show ?thesis
    using opencalls.run_inv[OF assms(1,3)] open_call_effect_ok[OF assms(2), of now c u s] by (simp add: us)
qed

definition plain_oc_env :: "nat oc_env" where
  "plain_oc_env =
     \<lparr>force_o_largefile = True, getname = (\<lambda>a w. (w, Inr 1)), getname_kernel = (\<lambda>a w. (w, Inr 1)),
      get_unused_fd_flags = (\<lambda>fl t. if t 3 = FdFree then 3 else - 24),
      do_filp_open = (\<lambda>dfd n op w. (w + 1, Inr w)), do_file_open_root = (\<lambda>p a op w. (w, Inl (- 2))),
      copy_struct_from_user = (\<lambda>k a n w. ([], - EFAULT)), audit_openat2_how = (\<lambda>h w. w),
      file_count = (\<lambda>w f. 1), op_flush = (\<lambda>f. Some (\<lambda>w. (w, - ERESTARTSYS))), open_fmode = (\<lambda>w f. 3),
      dnotify_flush = (\<lambda>f w. w), locks_remove_posix = (\<lambda>f w. w), fput = (\<lambda>f w. w), fput_sync = (\<lambda>f w. w),
      do_close_range = (\<lambda>a b c s. (s, - EINVAL)),
      capable_tty_config = False, tty_vhangup_self = (\<lambda>w. w)\<rparr>"

lemma plain_oc_env_ok: "oc_env_ok plain_oc_env"
  by (simp add: oc_env_ok_def plain_oc_env_def)

definition plain_ofs :: "nat ofs" where
  "plain_ofs = \<lparr>fdt = (\<lambda>fd. FdFree), onames = {#}, ow = 40\<rparr>"

theorem descriptors_exact_witness:
  "let us = fold open_step [((plain_oc_env, \<lparr>tv_sec = 1, tv_nsec = 0\<rparr>), O_openat (- 100) 4096 2 0)] (\<lparr>syscall_counters = None\<rparr>, plain_ofs)
   in fds_settled us \<and> fdt (snd us) 3 = FdFile 40 \<and>
     (\<exists>u' s' r. do_open_call plain_oc_env \<lparr>tv_sec = 1, tv_nsec = 0\<rparr> (O_close 3) us = Inr ((u', s'), r) \<and> closes 3 (snd us) s' r)"
proof -
  let ?now = "\<lparr>tv_sec = 1, tv_nsec = 0\<rparr> :: timespec64"
  let ?ecs = "[((plain_oc_env, ?now), O_openat (- 100) 4096 2 0)]"
  let ?us = "(\<lparr>syscall_counters = None\<rparr>, plain_ofs) :: usage_state \<times> nat ofs"
  have "\<exists>op. build_open_flags (build_open_how 32770 0) = Inr op"
    by (simp add: build_open_flags_def build_open_how_def Let_def open_flags_check_def WILL_CREATE_def has_def)
  then have "fdt (snd (fold open_step ?ecs ?us)) 3 = FdFile 40"
    by (auto simp: open_step_def sys_openat_def track_syscall_def do_sys_open_def do_sys_openat2_def plain_oc_env_def plain_ofs_def Let_def)
  moreover have "fds_settled ?us" by (simp add: fds_settled_def plain_ofs_def)
  ultimately show ?thesis
    using descriptors_exact[of ?ecs plain_oc_env ?us ?now "O_close 3"] plain_oc_env_ok
    by (simp add: open_call_effect_def Let_def del: fold_simps)
qed

end
