(* ===== verification/Spec2Isabelle.thy ===== *)
theory Spec2Isabelle
  imports Memory_Snapshot Tamalloc Process_Memory Io_Throttle Memory_Limits Rlimits Sessions Uts_Names
    Priorities Time_Usage Sysinfo Prctl Read_Write Path_Calls Dentry_Open Open_Calls
begin

text \<open>
  Verification of a modified Linux 6.8 tree: the files under src/practica1/usac-linux that the
  repository adds or changes. Paths below are relative to that directory.

  \<^bold>\<open>The program.\<close> The repository adds system calls 551 to 559 (kernel/usac): a snapshot of the
  memory counters, counters of system call usage, I/O accounting, a zeroed allocation, reports
  on the memory of processes, and memory limits kept in a list under a mutex. It hooks
  \<open>read\<close>, \<open>write\<close>, \<open>openat\<close> and \<open>clone\<close> to report to the usage counters, and changes the system
  name. The changed files are kept whole: kernel/sys.c (identities, limits, sessions, names,
  priorities, accounting, \<open>prctl\<close>, system information), fs/read_write.c, fs/open.c,
  kernel/fork.c and init/main.c.

  \<^bold>\<open>The model.\<close> Each handler is a function on an explicit state that returns the new state and the
  C result, an integer with errors negative; machine integers are words of their width. Code
  that is not in the tree is a field of an environment record (\<open>..._env\<close>, \<open>uaccess\<close>); what the
  proofs need of it is a predicate \<open>..._ok\<close> that states its documentation, and each theory ends
  with, or contains, a concrete instance for the witnesses. Locks are modelled where a path can
  forget them: in \<open>Memory_Limits\<close>, and in the theories of fs/open.c, where locks, references and
  write intents are entries of a ledger; elsewhere a call runs with the locks of the source held.

  \<^item> \<open>Kernel_Prelude\<close>: words, error numbers, structs as bytes, user memory, the copy primitives
    with their contract, and the locale \<open>kept_invariant\<close>: an invariant that every operation keeps
    holds over every sequence. It is interpreted for the memory limits (\<open>hist\<close>), the
    credentials (\<open>ids\<close>), the resource limits (\<open>lims\<close>), the sessions (\<open>jobs\<close>), the names
    (\<open>names\<close>), \<open>prctl\<close> (\<open>prctls\<close>), the calls on paths (\<open>pathcalls\<close>) and the calls on descriptors
    (\<open>opencalls\<close>).
  \<^item> \<open>Memory_Snapshot\<close>, \<open>Syscall_Usage\<close>, \<open>Io_Throttle\<close>, \<open>Tamalloc\<close>, \<open>Process_Memory\<close>
    (kernel/usac/syscall1.c to syscall6.c): what each call delivers, on every branch, and the
    exactness or the bounds of the figures.
  \<^item> \<open>Memory_Limits\<close> (kernel/usac/project3/syscall7.c): a list of limits under a mutex refines a
    finite map; reading the list; histories of calls; bytes that leak.
  \<^item> \<open>Credentials\<close> (kernel/sys.c, \<open>setregid\<close> to \<open>setfsgid\<close>): an unprivileged task stays within
    the ids it has, failing calls change nothing, dropping is final.
  \<^item> \<open>Priorities\<close> (\<open>setpriority\<close>, \<open>getpriority\<close>), \<open>Sessions\<close> (\<open>getpid\<close> to \<open>setsid\<close>),
    \<open>Uts_Names\<close> (\<open>uname\<close> to \<open>setdomainname\<close>), \<open>Rlimits\<close> (\<open>getrlimit\<close> to \<open>prlimit64\<close>),
    \<open>Time_Usage\<close> (\<open>times\<close>, \<open>getrusage\<close>, \<open>umask\<close>), \<open>Sysinfo\<close> (\<open>getcpu\<close>, \<open>sysinfo\<close>), all of
    kernel/sys.c: permissions, invariants over sequences, round trips, exact sums.
  \<^item> \<open>Prctl_Mm\<close>, \<open>Prctl\<close> (kernel/sys.c, \<open>prctl\<close> with every option; kernel/fork.c,
    \<open>walk_process_tree\<close>): hardening is final, the recorded image stays sound, failing calls
    leave no trace but two, the subreaper flag reaches the descendants.
  \<^item> \<open>File_Position\<close>, \<open>Read_Write\<close> (fs/read_write.c, \<open>vfs_setpos\<close> to \<open>pwrite64\<close>): seeking refines a
    specification on unbounded integers, file operations are called in range, positions move
    by what was transferred.
  \<^item> \<open>Vfs_Base\<close>: what the theories of fs/open.c share: state-passing actions, the ledger, the outside
    functions, weakest preconditions, and \<open>tidy\<close>: an action that gives back what it takes.
    \<open>Truncate\<close> (\<open>truncate\<close>, \<open>fallocate\<close>), \<open>Access\<close> (\<open>access\<close>, \<open>chdir\<close>, \<open>chroot\<close>), \<open>Attributes\<close>
    (\<open>chmod\<close>, \<open>chown\<close>) and \<open>Path_Calls\<close>, which joins them: no sequence of these calls leaves a lock
    or a reference behind; requests reach the file system in range; waiting for delegations ends.
    \<open>Dentry_Open\<close> (\<open>do_dentry_open\<close> and its callers): a failing open gives back all it took.
    \<open>Open_Calls\<close> (\<open>open\<close> to \<open>close\<close>): accepted requests are sound, descriptors are exact.
  \<^item> This theory: the composition of \<open>read\<close> and \<open>write\<close> with the usage counters.

  \<^bold>\<open>Termination.\<close> All functions are total except two loops that the source can run forever and
  that are partial functions: \<open>unit_loop\<close> of \<open>Sysinfo\<close>, for which the theory states exactly when
  it returns, and \<open>deleg_loop\<close> of \<open>Attributes\<close>, which is shown to return when each wait leaves fewer
  delegations. The retry of a lookup on a stale handle happens at most once and is written out.
  There is no fuel. A stop of the kernel (an access out of bounds, \<open>BUG\<close>) is a value of a sum or
  option type, and theorems state that it does not occur.

  \<^bold>\<open>Not modelled.\<close> Of fs/read_write.c the vectored and copying calls; kernel/fork.c apart from one
  function, and init/main.c, which mostly call code outside the tree (allocators, the scheduler,
  initialisation); tables of numbers and prototypes; the test programs and modules, which
  print. The hook of \<open>clone\<close> is covered by \<open>usage_counts_exact\<close>, which holds for reports of any
  system call number.
\<close>

section \<open>Reads and writes are counted\<close>

text \<open>A sequence of calls, each with the environment it meets.\<close>

fun rw_run :: "('fs rw_env \<times> rw_call) list \<Rightarrow> 'fs rw_state \<Rightarrow> kstop + 'fs rw_state" where
  "rw_run [] s = Inr s"
| "rw_run ((env, c) # cs) s = (case do_rw env c s of Inl k \<Rightarrow> Inl k | Inr (s', r) \<Rightarrow> rw_run cs s')"

fun calls_of :: "('fs rw_env \<times> rw_call) list \<Rightarrow> int \<Rightarrow> nat" where
  "calls_of [] i = 0"
| "calls_of ((env, c) # cs) i = (if call_nr c = Some i then 1 else 0) + calls_of cs i"

lemma do_rw_hits:
  assumes "sync_ok env" and "usage_inv (usage s)" and "hits (usage s) i = Some n"
  shows "\<exists>s' r. do_rw env c s = Inr (s', r) \<and> usage_inv (usage s')
    \<and> hits (usage s') i = Some (n + of_nat (if call_nr c = Some i then 1 else 0))"
proof -
  obtain s' r where run: "do_rw env c s = Inr (s', r)"
    and u: "case call_nr c of None \<Rightarrow> usage s' = usage s | Some j \<Rightarrow> track_syscall (now env) j (usage s) = Inr (usage s')"
    using do_rw_usage[OF assms(1)] by blast
  have pos: "0 \<le> j" if "call_nr c = Some j" for j
    using that by (auto simp: call_nr_def split: rw_call.splits)
  show ?thesis
  proof (cases "call_nr c")
    case None
    then show ?thesis using run u assms(2,3) by simp
  next
    case (Some j)
    then have t: "track_syscall (now env) j (usage s) = Inr (usage s')" using u by simp
    from track_syscall_inv[OF assms(2) t] track_syscall_hits[OF assms(2) pos[OF Some] t, of i] assms(3) run Some
    show ?thesis by auto
  qed
qed

text \<open>
  C11. The usage counters are exact for the calls that carry the hook: over any sequence of
  \<open>read\<close>, \<open>write\<close>, \<open>pread64\<close> and \<open>pwrite64\<close> calls, with any descriptors and outcomes, the
  kernel does not stop, the counter of \<open>read\<close> grows by the number of \<open>read\<close> calls and that of
  \<open>write\<close> by the number of \<open>write\<close> calls, failed ones included, and no other counter changes.
\<close>

theorem reads_and_writes_counted:
  assumes "list_all (\<lambda>(env, c). sync_ok env) cs" and "usage_inv (usage s)" and "hits (usage s) i = Some n"
  shows "\<exists>s'. rw_run cs s = Inr s' \<and> usage_inv (usage s') \<and> hits (usage s') i = Some (n + of_nat (calls_of cs i))"
  using assms
proof (induction cs arbitrary: s n)
  case (Cons ec cs)
  obtain env c where ec: "ec = (env, c)" by (rule prod.exhaust)
  obtain s1 r where s1: "do_rw env c s = Inr (s1, r)" "usage_inv (usage s1)"
    "hits (usage s1) i = Some (n + of_nat (if call_nr c = Some i then 1 else 0))"
    using do_rw_hits[of env s i n c] Cons.prems ec by auto
  obtain s' where "rw_run cs s1 = Inr s'" "usage_inv (usage s')"
    "hits (usage s') i = Some (n + of_nat (if call_nr c = Some i then 1 else 0) + of_nat (calls_of cs i))"
    using Cons.IH[OF _ s1(2,3)] Cons.prems(1) by auto
  then show ?case using s1(1) by (simp add: ec add.assoc)
qed simp

theorem reads_and_writes_counted_witness:
  "let s = plain_rw_state\<lparr>usage := \<lparr>syscall_counters = Some (replicate MAX_SYS_CALLS zero_usage)\<rparr>\<rparr>
   in \<exists>s'. rw_run [(plain_rw_env, Read 3 4096 2), (plain_rw_env, Read 9 4096 2), (plain_rw_env, Pread 3 4096 2 0)] s = Inr s'
     \<and> hits (usage s') NR_read = Some 2"
proof -
  let ?s = "plain_rw_state\<lparr>usage := \<lparr>syscall_counters = Some (replicate MAX_SYS_CALLS zero_usage)\<rparr>\<rparr>"
  let ?cs = "[(plain_rw_env, Read 3 4096 2), (plain_rw_env, Read 9 4096 2), (plain_rw_env, Pread 3 4096 2 0)]"
  have "uint (c :: u64) \<noteq> - 529" for c using uint_ge_0[of c] by linarith
  then have "sync_ok plain_rw_env" by (simp add: sync_ok_def plain_rw_env_def plain_write_iter_def)
  moreover have "usage_inv (usage ?s)" "hits (usage ?s) NR_read = Some 0"
    by (simp_all add: usage_inv_def hits_def zero_usage_def)
  ultimately show ?thesis
    using reads_and_writes_counted[of ?cs ?s NR_read 0] by (auto simp: call_nr_def)
qed

end
